(* ===== verification/Prelude.thy ===== *)
theory Prelude
  imports Main "HOL-Library.Sublist" "HOL-Library.Char_ord" "HOL-Library.List_Lexorder"
begin

text \<open>
  What every component shares: the named collections of simplification facts, the Python
  string operations the service uses, and decimal printing.

  Python strings are modelled by HOL strings: a character is a code point below 256.
  Bytes objects are modelled by the same type, a character being a byte. Instants
  (\<open>datetime\<close>) are integers, microseconds since the epoch; durations in the settings are
  integers, seconds.
\<close>

named_theorems run_simps \<open>equations that run a program one step\<close>
named_theorems store_simps \<open>what the store operations do to the key space\<close>
named_theorems handler_defs \<open>definitions of handlers and of the helpers they call\<close>

type_synonym bytes = string
type_synonym time = int

section \<open>Substrings\<close>

text \<open>\<open>old in s\<close> and \<open>s.replace(old, new)\<close>: leftmost, non-overlapping occurrences.\<close>

function replace_all :: "'a list \<Rightarrow> 'a list \<Rightarrow> 'a list \<Rightarrow> 'a list" where
  "replace_all old new s =
     (if old = [] then s
      else if prefix old s then new @ replace_all old new (drop (length old) s)
      else case s of [] \<Rightarrow> [] | c # cs \<Rightarrow> c # replace_all old new cs)"
  by pat_completeness auto
termination
proof (relation "measure (\<lambda>(old, new, s). length s)", goal_cases)
  case (2 old new s)
  then have "s \<noteq> []" by auto
  with 2 show ?case by (cases old; cases s) auto
qed auto

declare replace_all.simps [simp del]

lemma replace_all_Nil [simp]: "replace_all old new [] = []"
  by (subst replace_all.simps) auto

lemma replace_all_hit:
  "old \<noteq> [] \<Longrightarrow> replace_all old new (old @ s) = new @ replace_all old new s"
  by (subst replace_all.simps) simp

lemma replace_all_miss:
  "old \<noteq> [] \<Longrightarrow> \<not> prefix old (c # cs) \<Longrightarrow>
   replace_all old new (c # cs) = c # replace_all old new cs"
  by (subst replace_all.simps) simp

lemma replace_all_absent: "\<not> sublist old s \<Longrightarrow> replace_all old new s = s"
proof (induction s)
  case (Cons c cs)
  then have "old \<noteq> []" "\<not> prefix old (c # cs)" "\<not> sublist old cs"
    by (auto simp: sublist_Cons_right)
  with Cons.IH show ?case by (simp add: replace_all_miss)
qed simp

text \<open>\<open>s.startswith(p)\<close> is \<^const>\<open>prefix\<close>; \<open>s.rstrip("/")\<close> and \<open>s.strip()\<close>.\<close>

definition rstrip_char :: "char \<Rightarrow> string \<Rightarrow> string" where
  "rstrip_char c s = rev (dropWhile (\<lambda>d. d = c) (rev s))"

definition is_space :: "char \<Rightarrow> bool" where
  "is_space c \<longleftrightarrow>
     of_char c \<in> {9::nat, 10, 11, 12, 13, 28, 29, 30, 31, 32, 133, 160}"

definition strip :: "string \<Rightarrow> string" where
  "strip s = rev (dropWhile is_space (rev (dropWhile is_space s)))"

definition lower_char :: "char \<Rightarrow> char" where
  "lower_char c =
     (let n = (of_char c :: nat) in
      if 65 \<le> n \<and> n \<le> 90 \<or> 192 \<le> n \<and> n \<le> 222 \<and> n \<noteq> 215 then char_of (n + 32) else c)"

definition lower :: "string \<Rightarrow> string" where
  "lower s = map lower_char s"

text \<open>\<open>sep.join(parts)\<close>.\<close>

fun join :: "string \<Rightarrow> string list \<Rightarrow> string" where
  "join sep [] = []"
| "join sep [x] = x"
| "join sep (x # y # xs) = x @ sep @ join sep (y # xs)"

text \<open>Indices of the first and of the last occurrence of a character (\<open>find\<close>, \<open>rfind\<close>).\<close>

fun find_char :: "char \<Rightarrow> string \<Rightarrow> nat option" where
  "find_char c [] = None"
| "find_char c (d # s) = (if c = d then Some 0 else map_option Suc (find_char c s))"

fun rfind_char :: "char \<Rightarrow> string \<Rightarrow> nat option" where
  "rfind_char c [] = None"
| "rfind_char c (d # s) =
     (case rfind_char c s of Some n \<Rightarrow> Some (Suc n)
      | None \<Rightarrow> if c = d then Some 0 else None)"

lemma find_char_Some:
  "find_char c s = Some n \<Longrightarrow> n < length s \<and> s ! n = c \<and> c \<notin> set (take n s)"
  by (induction s arbitrary: n) (auto split: if_splits)

lemma find_char_None: "find_char c s = None \<longleftrightarrow> c \<notin> set s"
  by (induction s) auto

lemma rfind_char_Some:
  "rfind_char c s = Some n \<Longrightarrow> n < length s \<and> s ! n = c"
  by (induction s arbitrary: n) (auto split: if_splits option.splits)

lemma rfind_char_None: "rfind_char c s = None \<longleftrightarrow> c \<notin> set s"
  by (induction s) (auto split: option.splits)

lemma rfind_char_last: "c \<notin> set t \<Longrightarrow> rfind_char c (s @ c # t) = Some (length s)"
  by (induction s) (auto simp: rfind_char_None split: option.splits)

section \<open>Decimal and hexadecimal printing\<close>

definition digit_char :: "nat \<Rightarrow> char" where
  "digit_char d = char_of (48 + d)"

fun show_nat :: "nat \<Rightarrow> string" where
  "show_nat n = (if n < 10 then [digit_char n] else show_nat (n div 10) @ [digit_char (n mod 10)])"

declare show_nat.simps [simp del]

definition show_int :: "int \<Rightarrow> string" where
  "show_int i = (if i < 0 then ''-'' @ show_nat (nat (- i)) else show_nat (nat i))"

definition is_digit :: "char \<Rightarrow> bool" where
  "is_digit c \<longleftrightarrow> 48 \<le> (of_char c :: nat) \<and> (of_char c :: nat) \<le> 57"

definition digit_val :: "char \<Rightarrow> nat" where
  "digit_val c = of_char c - 48"

definition read_nat :: "string \<Rightarrow> nat" where
  "read_nat s = foldl (\<lambda>n c. 10 * n + digit_val c) 0 s"

lemma of_char_digit: "d < 10 \<Longrightarrow> (of_char (digit_char d) :: nat) = 48 + d"
  by (simp add: digit_char_def)

lemma is_digit_digit_char [simp]: "d < 10 \<Longrightarrow> is_digit (digit_char d)"
  by (simp add: is_digit_def of_char_digit)

lemma digit_val_digit_char [simp]: "d < 10 \<Longrightarrow> digit_val (digit_char d) = d"
  by (simp add: digit_val_def of_char_digit)

lemma show_nat_digits: "c \<in> set (show_nat n) \<Longrightarrow> is_digit c"
proof (induction n rule: show_nat.induct)
  case (1 n)
  then show ?case by (subst (asm) (2) show_nat.simps) (auto split: if_splits)
qed

lemma show_nat_nonempty [simp]: "show_nat n \<noteq> []"
  by (subst show_nat.simps) simp

lemma read_show_nat [simp]: "read_nat (show_nat n) = n"
proof (induction n rule: show_nat.induct)
  case (1 n)
  show ?case
  proof (cases "n < 10")
    case True
    then show ?thesis by (subst show_nat.simps) (simp add: read_nat_def)
  next
    case False
    with 1 have "read_nat (show_nat (n div 10)) = n div 10" by blast
    with False show ?thesis by (subst show_nat.simps) (simp add: read_nat_def)
  qed
qed

lemma show_nat_head: "hd (show_nat n) = CHR ''0'' \<longleftrightarrow> n = 0"
proof (induction n rule: show_nat.induct)
  case (1 n)
  show ?case
  proof (cases "n < 10")
    case True
    then have "n \<in> {0,1,2,3,4,5,6,7,8,9}" by auto
    then show ?thesis by (subst show_nat.simps) (auto simp: digit_char_def char_of_eq_iff)
  next
    case False
    with 1 have "(hd (show_nat (n div 10)) = CHR ''0'') = (n div 10 = 0)" by blast
    with False show ?thesis by (subst show_nat.simps) auto
  qed
qed

definition hex_digit :: "nat \<Rightarrow> char" where
  "hex_digit d = (if d < 10 then char_of (48 + d) else char_of (87 + d))"

definition hex_val :: "char \<Rightarrow> nat option" where
  "hex_val c =
     (let n = (of_char c :: nat) in
      if 48 \<le> n \<and> n \<le> 57 then Some (n - 48)
      else if 97 \<le> n \<and> n \<le> 102 then Some (n - 87)
      else if 65 \<le> n \<and> n \<le> 70 then Some (n - 55)
      else None)"

lemma hex_val_hex_digit [simp]: "d < 16 \<Longrightarrow> hex_val (hex_digit d) = Some d"
  by (simp add: hex_val_def hex_digit_def Let_def)

section \<open>Lists and options\<close>

lemma map_of_filter_key: "map_of (filter (\<lambda>p. fst p \<noteq> k) xs) = (map_of xs)(k := None)"
  by (induction xs) (auto simp: fun_eq_iff)

lemma sorted_sort_eq_iff_set:
  "distinct xs \<Longrightarrow> distinct ys \<Longrightarrow> (sort xs = sort (ys :: 'a :: linorder list)) \<longleftrightarrow> set xs = set ys"
  by (metis distinct_sort set_sort sorted_distinct_set_unique sorted_sort)

end
