(* ===== verification/Encoding.thy ===== *)
theory Encoding
  imports Prelude "HOL-Library.Word"
begin

text \<open>
  The standard-library codecs the service calls: \<open>str.encode("utf-8")\<close> and \<open>bytes.decode("utf-8")\<close>,
  \<open>base64.b64encode\<close> and \<open>base64.b64decode\<close>, and \<open>hashlib.sha256(...).hexdigest()\<close>. Strings and
  bytes are both HOL strings (see \<^verbatim>\<open>Prelude\<close>). A character above 127 takes two bytes in UTF-8.
\<close>

unbundle bit_operations_syntax

section \<open>UTF-8\<close>

definition utf8_char :: "char \<Rightarrow> bytes" where
  "utf8_char c =
     (let n = (of_char c :: nat) in
      if n < 128 then [c] else [char_of (192 + n div 64), char_of (128 + n mod 64)])"

definition utf8_encode :: "string \<Rightarrow> bytes" where
  "utf8_encode s = concat (map utf8_char s)"

text \<open>\<open>None\<close>: a \<open>UnicodeDecodeError\<close> (or a code point of 256 and above, outside the model).\<close>

fun utf8_decode :: "bytes \<Rightarrow> string option" where
  "utf8_decode [] = Some []"
| "utf8_decode (b # bs) =
     (if (of_char b :: nat) < 128 then map_option ((#) b) (utf8_decode bs)
      else case bs of
        [] \<Rightarrow> None
      | b' # bs' \<Rightarrow>
          if (of_char b :: nat) \<in> {194, 195} \<and> 128 \<le> (of_char b' :: nat) \<and> (of_char b' :: nat) < 192
          then map_option ((#) (char_of (((of_char b :: nat) - 192) * 64 + (of_char b' - 128))))
                 (utf8_decode bs')
          else None)"

definition is_ascii :: "string \<Rightarrow> bool" where
  "is_ascii s \<longleftrightarrow> (\<forall>c \<in> set s. (of_char c :: nat) < 128)"

lemma is_ascii_simps [simp]:
  "is_ascii []" "is_ascii (c # s) \<longleftrightarrow> (of_char c :: nat) < 128 \<and> is_ascii s"
  "is_ascii (s @ t) \<longleftrightarrow> is_ascii s \<and> is_ascii t"
  by (auto simp: is_ascii_def)

lemma utf8_encode_Nil [simp]: "utf8_encode [] = []"
  by (simp add: utf8_encode_def)

lemma utf8_encode_Cons: "utf8_encode (c # s) = utf8_char c @ utf8_encode s"
  by (simp add: utf8_encode_def)

lemma utf8_encode_ascii [simp]: "is_ascii s \<Longrightarrow> utf8_encode s = s"
  by (induction s) (auto simp: utf8_encode_Cons utf8_char_def Let_def)

lemma utf8_decode_char_append:
  "utf8_decode (utf8_char c @ bs) = map_option ((#) c) (utf8_decode bs)"
proof (cases "(of_char c :: nat) < 128")
  case True
  then show ?thesis by (simp add: utf8_char_def)
next
  case False
  define n where "n = (of_char c :: nat)"
  have n: "128 \<le> n" "n < 256" using False by (simp_all add: n_def)
  then have d: "n div 64 = 2 \<or> n div 64 = 3" by linarith
  have "char_of ((n div 64) * 64 + n mod 64) = c" by (simp add: n_def)
  moreover have "n mod 64 < 64" by simp
  ultimately show ?thesis
    using False d n by (auto simp: utf8_char_def Let_def n_def [symmetric])
qed

lemma utf8_roundtrip [simp]: "utf8_decode (utf8_encode s) = Some s"
  by (induction s) (simp_all add: utf8_encode_Cons utf8_decode_char_append)

lemma utf8_encode_inject: "utf8_encode s = utf8_encode t \<longleftrightarrow> s = t"
  by (metis option.inject utf8_roundtrip)

section \<open>Base64\<close>

definition b64_char :: "nat \<Rightarrow> char" where
  "b64_char n =
     (if n < 26 then char_of (65 + n) else if n < 52 then char_of (71 + n)
      else if n < 62 then char_of (n - 4) else if n = 62 then CHR ''+'' else CHR ''/'')"

definition b64_val :: "char \<Rightarrow> nat option" where
  "b64_val c =
     (let n = (of_char c :: nat) in
      if 65 \<le> n \<and> n \<le> 90 then Some (n - 65)
      else if 97 \<le> n \<and> n \<le> 122 then Some (n - 71)
      else if 48 \<le> n \<and> n \<le> 57 then Some (n + 4)
      else if c = CHR ''+'' then Some 62
      else if c = CHR ''/'' then Some 63
      else None)"

fun b64_encode :: "bytes \<Rightarrow> string" where
  "b64_encode [] = []"
| "b64_encode [x] =
     (let a = (of_char x :: nat) in
      [b64_char (a div 4), b64_char (a mod 4 * 16), CHR ''='', CHR ''=''])"
| "b64_encode [x, y] =
     (let a = (of_char x :: nat); b = (of_char y :: nat) in
      [b64_char (a div 4), b64_char (a mod 4 * 16 + b div 16), b64_char (b mod 16 * 4), CHR ''=''])"
| "b64_encode (x # y # z # r) =
     (let a = (of_char x :: nat); b = (of_char y :: nat); c = (of_char z :: nat) in
      b64_char (a div 4) # b64_char (a mod 4 * 16 + b div 16) #
      b64_char (b mod 16 * 4 + c div 64) # b64_char (c mod 64) # b64_encode r)"

text \<open>
  Decoding skips characters outside the alphabet (\<open>validate=False\<close>); \<open>None\<close> is
  \<open>binascii.Error\<close> (incorrect padding).
\<close>

fun b64_groups :: "string \<Rightarrow> bytes option" where
  "b64_groups [] = Some []"
| "b64_groups (p # q # r # s # rest) =
     (case (b64_val p, b64_val q) of
        (Some a, Some b) \<Rightarrow>
          (case b64_val r of
             None \<Rightarrow> if s = CHR ''='' then Some [char_of (a * 4 + b div 16)] else None
           | Some c \<Rightarrow>
               (case b64_val s of
                  None \<Rightarrow> Some [char_of (a * 4 + b div 16), char_of (b mod 16 * 16 + c div 4)]
                | Some d \<Rightarrow>
                    map_option
                      (\<lambda>t. char_of (a * 4 + b div 16) # char_of (b mod 16 * 16 + c div 4) #
                           char_of (c mod 4 * 64 + d) # t)
                      (b64_groups rest)))
      | _ \<Rightarrow> None)"
| "b64_groups _ = None"

definition b64_decode :: "string \<Rightarrow> bytes option" where
  "b64_decode s = b64_groups (filter (\<lambda>c. c = CHR ''='' \<or> b64_val c \<noteq> None) s)"

lemma b64_val_char [simp]: "n < 64 \<Longrightarrow> b64_val (b64_char n) = Some n"
  by (auto simp: b64_val_def b64_char_def Let_def)

lemma b64_val_pad [simp]: "b64_val CHR ''='' = None"
  by (simp add: b64_val_def)

lemma of_char_bounds [simp]:
  "(of_char x :: nat) div 4 < 64" "(of_char x :: nat) mod 4 * 16 < 64"
  "(of_char x :: nat) mod 4 * 16 + of_char y div 16 < 64"
  "(of_char y :: nat) mod 16 * 4 < 64"
  "(of_char y :: nat) mod 16 * 4 + of_char z div 64 < 64"
proof -
  have b: "(of_char c :: nat) < 256" for c by simp
  show "(of_char x :: nat) div 4 < 64" "(of_char x :: nat) mod 4 * 16 < 64"
    "(of_char x :: nat) mod 4 * 16 + of_char y div 16 < 64"
    "(of_char y :: nat) mod 16 * 4 < 64"
    "(of_char y :: nat) mod 16 * 4 + of_char z div 64 < 64"
    using b [of x] b [of y] b [of z] by linarith+
qed

lemma b64_regroup [simp]:
  "(of_char x :: nat) + of_char y div 16 div 16 = of_char x"
  "(of_char y :: nat) div 16 mod 16 * 16 + of_char y mod 16 = of_char y"
  "(of_char y :: nat) div 16 mod 16 * 16 + (of_char y mod 16 + of_char z div 64 div 4) = of_char y"
  "(of_char z :: nat) div 64 mod 4 * 64 + of_char z mod 64 = of_char z"
proof -
  have b: "(of_char c :: nat) < 256" for c by simp
  show "(of_char x :: nat) + of_char y div 16 div 16 = of_char x"
    using b [of y] by linarith
  have y: "(of_char y :: nat) div 16 mod 16 = of_char y div 16"
    using b [of y] by (intro mod_less) linarith
  show "(of_char y :: nat) div 16 mod 16 * 16 + of_char y mod 16 = of_char y"
    unfolding y by simp
  have z: "(of_char z :: nat) div 64 mod 4 = of_char z div 64"
    using b [of z] by (intro mod_less) linarith
  show "(of_char z :: nat) div 64 mod 4 * 64 + of_char z mod 64 = of_char z"
    unfolding z by simp
  have "(of_char z :: nat) div 64 div 4 = 0" using b [of z] by linarith
  then show "(of_char y :: nat) div 16 mod 16 * 16 + (of_char y mod 16 + of_char z div 64 div 4)
      = of_char y"
    unfolding y by simp
qed

lemma b64_groups_encode: "b64_groups (b64_encode s) = Some s"
  by (induction s rule: b64_encode.induct) (simp_all add: Let_def)

lemma b64_encode_alphabet:
  "c \<in> set (b64_encode s) \<Longrightarrow> c = CHR ''='' \<or> b64_val c \<noteq> None"
  by (induction s rule: b64_encode.induct) (auto simp: Let_def)

lemma b64_val_ascii: "b64_val c = Some n \<Longrightarrow> (of_char c :: nat) < 128"
  by (auto simp: b64_val_def Let_def split: if_splits)

lemma b64_roundtrip [simp]: "b64_decode (b64_encode s) = Some s"
proof -
  have "filter (\<lambda>c. c = CHR ''='' \<or> b64_val c \<noteq> None) (b64_encode s) = b64_encode s"
    by (rule filter_True) (auto dest!: b64_encode_alphabet)
  then show ?thesis by (simp add: b64_decode_def b64_groups_encode)
qed

lemma b64_encode_ascii [simp]: "is_ascii (b64_encode s)"
  unfolding is_ascii_def by (auto dest!: b64_encode_alphabet b64_val_ascii)

section \<open>SHA-256\<close>

type_synonym w32 = "32 word"

definition rotr :: "nat \<Rightarrow> w32 \<Rightarrow> w32" where
  "rotr n w = drop_bit n w OR push_bit (32 - n) w"

text \<open>The round constants (the fractional parts of the cube roots of the first primes), in decimal.\<close>

definition sha_k :: "w32 list" where
  "sha_k = [
     1116352408, 1899447441, 3049323471, 3921009573, 961987163, 1508970993, 2453635748,
     2870763221, 3624381080, 310598401, 607225278, 1426881987, 1925078388, 2162078206,
     2614888103, 3248222580, 3835390401, 4022224774, 264347078, 604807628, 770255983,
     1249150122, 1555081692, 1996064986, 2554220882, 2821834349, 2952996808, 3210313671,
     3336571891, 3584528711, 113926993, 338241895, 666307205, 773529912, 1294757372,
     1396182291, 1695183700, 1986661051, 2177026350, 2456956037, 2730485921, 2820302411,
     3259730800, 3345764771, 3516065817, 3600352804, 4094571909, 275423344, 430227734,
     506948616, 659060556, 883997877, 958139571, 1322822218, 1537002063, 1747873779,
     1955562222, 2024104815, 2227730452, 2361852424, 2428436474, 2756734187, 3204031479,
     3329325298]"

type_synonym sha_state = "w32 \<times> w32 \<times> w32 \<times> w32 \<times> w32 \<times> w32 \<times> w32 \<times> w32"

definition sha_init :: sha_state where
  "sha_init = (0x6a09e667, 0xbb67ae85, 0x3c6ef372, 0xa54ff53a,
               0x510e527f, 0x9b05688c, 0x1f83d9ab, 0x5be0cd19)"

text \<open>The message schedule, built newest word first.\<close>

definition sha_next :: "w32 list \<Rightarrow> w32" where
  "sha_next ws =
     (let w2 = ws ! 1; w7 = ws ! 6; w15 = ws ! 14; w16 = ws ! 15;
          s0 = rotr 7 w15 XOR rotr 18 w15 XOR drop_bit 3 w15;
          s1 = rotr 17 w2 XOR rotr 19 w2 XOR drop_bit 10 w2
      in w16 + s0 + w7 + s1)"

fun sha_schedule :: "nat \<Rightarrow> w32 list \<Rightarrow> w32 list" where
  "sha_schedule 0 ws = rev ws"
| "sha_schedule (Suc n) ws = sha_schedule n (sha_next ws # ws)"

fun sha_round :: "sha_state \<Rightarrow> w32 \<times> w32 \<Rightarrow> sha_state" where
  "sha_round (a, b, c, d, e, f, g, h) (k, w) =
     (let s1 = rotr 6 e XOR rotr 11 e XOR rotr 25 e;
          ch = (e AND f) XOR (NOT e AND g);
          t1 = h + s1 + ch + k + w;
          s0 = rotr 2 a XOR rotr 13 a XOR rotr 22 a;
          maj = (a AND b) XOR (a AND c) XOR (b AND c);
          t2 = s0 + maj
      in (t1 + t2, a, b, c, d + t1, e, f, g))"

fun sha_add :: "sha_state \<Rightarrow> sha_state \<Rightarrow> sha_state" where
  "sha_add (a, b, c, d, e, f, g, h) (a', b', c', d', e', f', g', h') =
     (a + a', b + b', c + c', d + d', e + e', f + f', g + g', h + h')"

fun words_of_bytes :: "bytes \<Rightarrow> w32 list" where
  "words_of_bytes (a # b # c # d # r) =
     (((of_char a * 256 + of_char b) * 256 + of_char c) * 256 + of_char d) # words_of_bytes r"
| "words_of_bytes _ = []"

definition sha_block :: "sha_state \<Rightarrow> bytes \<Rightarrow> sha_state" where
  "sha_block st block =
     sha_add st (foldl sha_round st (zip sha_k (sha_schedule 48 (rev (words_of_bytes block)))))"

fun be_bytes :: "nat \<Rightarrow> nat \<Rightarrow> bytes" where
  "be_bytes 0 n = []"
| "be_bytes (Suc k) n = be_bytes k (n div 256) @ [char_of (n mod 256)]"

definition sha_pad :: "bytes \<Rightarrow> bytes" where
  "sha_pad m =
     m @ char_of (128 :: nat) # replicate ((119 - length m mod 64) mod 64) (char_of (0 :: nat))
       @ be_bytes 8 (8 * length m)"

function sha_blocks :: "sha_state \<Rightarrow> bytes \<Rightarrow> sha_state" where
  "sha_blocks st m =
     (if m = [] then st else sha_blocks (sha_block st (take 64 m)) (drop 64 m))"
  by pat_completeness auto
termination
  by (relation "measure (\<lambda>(st, m). length m)") (auto simp: neq_Nil_conv)

declare sha_blocks.simps [simp del]

definition hex_word :: "w32 \<Rightarrow> string" where
  "hex_word w = map (\<lambda>n. hex_digit (unat (drop_bit n w AND 15))) [28, 24, 20, 16, 12, 8, 4, 0]"

definition sha256_hex :: "bytes \<Rightarrow> string" where
  "sha256_hex m =
     (case sha_blocks sha_init (sha_pad m) of (a, b, c, d, e, f, g, h) \<Rightarrow>
        concat (map hex_word [a, b, c, d, e, f, g, h]))"

lemma length_hex_word [simp]: "length (hex_word w) = 8"
  by (simp add: hex_word_def)

lemma length_sha256_hex [simp]: "length (sha256_hex m) = 64"
  by (simp add: sha256_hex_def split: prod.splits)

definition is_hex :: "char \<Rightarrow> bool" where
  "is_hex c \<longleftrightarrow> is_digit c \<or> 97 \<le> (of_char c :: nat) \<and> (of_char c :: nat) \<le> 102"

lemma is_hex_hex_digit: "d < 16 \<Longrightarrow> is_hex (hex_digit d)"
  by (auto simp: is_hex_def is_digit_def hex_digit_def)

lemma unat_nibble: "unat (w AND 15 :: w32) < 16"
proof -
  have "unat (w AND 15) \<le> unat (15 :: w32)"
    by (rule word_and_le1 [THEN word_le_nat_alt [THEN iffD1]])
  then show ?thesis by simp
qed

lemma hex_word_digits: "c \<in> set (hex_word w) \<Longrightarrow> is_hex c"
  using is_hex_hex_digit [OF unat_nibble] by (auto simp: hex_word_def)

lemma sha256_hex_digits: "c \<in> set (sha256_hex m) \<Longrightarrow> is_hex c"
  by (auto simp: sha256_hex_def dest: hex_word_digits split: prod.splits)

end
