(* ===== verification/Json.thy ===== *)
theory Json
  imports Encoding
begin

text \<open>
  JSON values as the service handles them (\<open>dict[str, Any]\<close>, the standard library's
  \<open>json.dumps\<close> and \<open>json.loads\<close>), Python's truth test and Python's equality on them.

  An object is an association list in insertion order. A float is a normalised decimal
  \<open>m * 10 ^ e\<close>: exact for the literals of at most 15 significant digits that Python's
  shortest \<open>repr\<close> prints back unchanged. \<open>NaN\<close> and the infinities, and characters above 255,
  are outside the model.
\<close>

datatype json =
    JNull
  | JBool bool
  | JInt int
  | JFloat int int
  | JStr string
  | JArr "json list"
  | JObj "(string \<times> json) list"

type_synonym dict = "(string \<times> json) list"

section \<open>Dictionaries and truth\<close>

text \<open>\<open>d.get(k)\<close> is \<open>None\<close> for a missing key; \<open>d[k] = v\<close> keeps the position of an old key.\<close>

definition dget :: "string \<Rightarrow> dict \<Rightarrow> json" where
  "dget k d = (case map_of d k of Some v \<Rightarrow> v | None \<Rightarrow> JNull)"

fun dset :: "string \<Rightarrow> json \<Rightarrow> dict \<Rightarrow> dict" where
  "dset k v [] = [(k, v)]"
| "dset k v ((k', v') # d) = (if k = k' then (k, v) # d else (k', v') # dset k v d)"

definition dict_of :: "(string \<times> json) list \<Rightarrow> dict" where
  "dict_of kvs = foldl (\<lambda>d (k, v). dset k v d) [] kvs"

fun truthy :: "json \<Rightarrow> bool" where
  "truthy JNull = False"
| "truthy (JBool b) = b"
| "truthy (JInt i) = (i \<noteq> 0)"
| "truthy (JFloat m e) = (m \<noteq> 0)"
| "truthy (JStr s) = (s \<noteq> [])"
| "truthy (JArr xs) = (xs \<noteq> [])"
| "truthy (JObj d) = (d \<noteq> [])"

lemma dset_absent: "k \<notin> fst ` set d \<Longrightarrow> dset k v d = d @ [(k, v)]"
  by (induction d) auto

lemma map_of_dset: "map_of (dset k v d) = (map_of d)(k \<mapsto> v)"
  by (induction d) (auto simp: fun_eq_iff)

lemma dict_of_snoc: "dict_of (kvs @ [(k, v)]) = dset k v (dict_of kvs)"
  by (simp add: dict_of_def)

lemma dict_of_distinct [simp]: "distinct (map fst d) \<Longrightarrow> dict_of d = d"
proof (induction d rule: rev_induct)
  case Nil
  then show ?case by (simp add: dict_of_def)
next
  case (snoc kv d)
  obtain k v where "kv = (k, v)" by fastforce
  with snoc show ?case by (auto simp: dict_of_snoc intro!: dset_absent)
qed

section \<open>Numbers and Python equality\<close>

text \<open>The unique \<open>(m, e)\<close> with the same value and no trailing zero in \<open>m\<close>.\<close>

function norm10 :: "int \<Rightarrow> int \<Rightarrow> int \<times> int" where
  "norm10 m e =
     (if m = 0 then (0, 0) else if m mod 10 = 0 then norm10 (m div 10) (e + 1) else (m, e))"
  by pat_completeness auto
termination
  by (relation "measure (\<lambda>(m, e). nat \<bar>m\<bar>)") auto

declare norm10.simps [simp del]

fun num_val :: "json \<Rightarrow> (int \<times> int) option" where
  "num_val (JBool b) = Some (if b then (1, 0) else (0, 0))"
| "num_val (JInt i) = Some (norm10 i 0)"
| "num_val (JFloat m e) = Some (norm10 m e)"
| "num_val _ = None"

text \<open>
  \<open>==\<close>: numbers by value (\<open>True == 1 == 1.0\<close>), arrays element by element, objects as maps
  (both have the same number of keys and agree on each).
\<close>

fun pyeq :: "json \<Rightarrow> json \<Rightarrow> bool" where
  "pyeq JNull w = (w = JNull)"
| "pyeq (JStr s) w = (w = JStr s)"
| "pyeq (JArr xs) w = (case w of JArr ys \<Rightarrow> list_all2 pyeq xs ys | _ \<Rightarrow> False)"
| "pyeq (JObj d) w =
     (case w of
        JObj d' \<Rightarrow> length d = length d' \<and>
          list_all (\<lambda>(k, v). case map_of d' k of Some v' \<Rightarrow> pyeq v v' | None \<Rightarrow> False) d
      | _ \<Rightarrow> False)"
| "pyeq (JBool b) w = (num_val w = num_val (JBool b))"
| "pyeq (JInt i) w = (num_val w = num_val (JInt i))"
| "pyeq (JFloat m e) w = (num_val w = num_val (JFloat m e))"

text \<open>A value Python can hold: no object has a repeated key.\<close>

fun wf_json :: "json \<Rightarrow> bool" where
  "wf_json (JArr xs) = list_all wf_json xs"
| "wf_json (JObj d) = (distinct (map fst d) \<and> list_all (\<lambda>(k, v). wf_json v) d)"
| "wf_json _ = True"

lemma pyeq_refl [simp]: "wf_json v \<Longrightarrow> pyeq v v"
proof (induction v)
  case (JArr xs)
  then show ?case by (auto simp: list_all2_same list_all_iff)
next
  case (JObj d)
  have "pyeq v v" if "(k, v) \<in> set d" for k v
    using that JObj.prems by (intro JObj.IH [of "(k, v)"]) (auto simp: list_all_iff)
  moreover have "map_of d k = Some v" if "(k, v) \<in> set d" for k v
    using that JObj.prems by (simp add: map_of_is_SomeI)
  ultimately show ?case by (auto simp: list_all_iff)
qed auto

lemma pyeq_JNull [simp]: "pyeq v JNull \<longleftrightarrow> v = JNull"
  by (cases v) auto

section \<open>Printing: \<open>json.dumps\<close> with \<open>ensure_ascii\<close>\<close>

definition hex4 :: "char \<Rightarrow> string" where
  "hex4 c = [CHR ''0'', CHR ''0'', hex_digit (of_char c div 16), hex_digit (of_char c mod 16)]"

definition esc_char :: "char \<Rightarrow> string" where
  "esc_char c =
     (let n = (of_char c :: nat); b = char_of (92 :: nat) in
      if n = 34 \<or> n = 92 then [b, c]
      else if n = 10 then [b, CHR ''n''] else if n = 13 then [b, CHR ''r'']
      else if n = 9 then [b, CHR ''t''] else if n = 12 then [b, CHR ''f'']
      else if n = 8 then [b, CHR ''b'']
      else if 32 \<le> n \<and> n \<le> 126 then [c] else b # CHR ''u'' # hex4 c)"

definition dq :: char where
  "dq = char_of (34 :: nat)"

definition quote :: "string \<Rightarrow> string" where
  "quote s = dq # concat (map esc_char s) @ [dq]"

text \<open>Python's \<open>repr\<close> of a float: fixed notation for exponents from -4 to 15, else scientific.\<close>

definition float_repr :: "int \<Rightarrow> int \<Rightarrow> string" where
  "float_repr m e =
     (let ds = show_nat (nat \<bar>m\<bar>); n = int (length ds); p = n + e;
          sign = (if m < 0 then ''-'' else [])
      in if m = 0 then ''0.0''
         else if -4 < p \<and> p \<le> 16 then
           sign @ (if p \<le> 0 then ''0.'' @ replicate (nat (- p)) (CHR ''0'') @ ds
                   else if n \<le> p then ds @ replicate (nat (p - n)) (CHR ''0'') @ ''.0''
                   else take (nat p) ds @ ''.'' @ drop (nat p) ds)
         else
           sign @ take 1 ds @ (if n = 1 then [] else ''.'' @ drop 1 ds) @ ''e'' @
           (if p - 1 < 0 then ''-'' else ''+'') @
           (let x = show_nat (nat \<bar>p - 1\<bar>) in if length x < 2 then ''0'' @ x else x))"

text \<open>The separators are arguments: \<open>(", ", ": ")\<close> by default, \<open>(",", ":")\<close> compact.\<close>

fun dumps :: "string \<Rightarrow> string \<Rightarrow> json \<Rightarrow> string" where
  "dumps isep ksep JNull = ''null''"
| "dumps isep ksep (JBool b) = (if b then ''true'' else ''false'')"
| "dumps isep ksep (JInt i) = show_int i"
| "dumps isep ksep (JFloat m e) = float_repr m e"
| "dumps isep ksep (JStr s) = quote s"
| "dumps isep ksep (JArr xs) = ''['' @ join isep (map (dumps isep ksep) xs) @ '']''"
| "dumps isep ksep (JObj d) =
     ''{'' @ join isep (map (\<lambda>(k, v). quote k @ ksep @ dumps isep ksep v) d) @ ''}''"

text \<open>\<open>sort_keys=True\<close>: the keys of every object in code-point order.\<close>

fun sort_keys :: "json \<Rightarrow> json" where
  "sort_keys (JArr xs) = JArr (map sort_keys xs)"
| "sort_keys (JObj d) = JObj (sort_key fst (map (\<lambda>(k, v). (k, sort_keys v)) d))"
| "sort_keys v = v"

definition dumps_default :: "json \<Rightarrow> string" where
  "dumps_default = dumps '', '' '': ''"

definition dumps_sorted :: "json \<Rightarrow> string" where
  "dumps_sorted v = dumps '','' '':'' (sort_keys v)"

end
