(* ===== verification/Json_Parse.thy ===== *)
theory Json_Parse
  imports Json
begin

text \<open>
  \<open>json.loads\<close> as a recursive-descent parser over the text, and the round trip: every value
  without floats that Python can hold is read back from what \<open>json.dumps\<close> prints, with any
  of the separators the service uses. \<open>None\<close> stands for \<open>JSONDecodeError\<close>. The parser's
  fuel is the length of the text; \<open>loads_dumps\<close> shows that it suffices for printed values.
\<close>

section \<open>The parser\<close>

definition json_ws :: "char \<Rightarrow> bool" where
  "json_ws c \<longleftrightarrow> of_char c \<in> {9::nat, 10, 13, 32}"

definition skip_ws :: "string \<Rightarrow> string" where
  "skip_ws s = dropWhile json_ws s"

text \<open>The characters after an opening quote, up to and including the closing one.\<close>

fun parse_string :: "string \<Rightarrow> (string \<times> string) option" where
  "parse_string [] = None"
| "parse_string (c # s) =
     (let n = (of_char c :: nat) in
      if n = 34 then Some ([], s)
      else if n = 92 then
        (case s of
           [] \<Rightarrow> None
         | d # s' \<Rightarrow>
             let add = (\<lambda>x. map_option (\<lambda>(t, r). (x # t, r)) (parse_string s')) in
             if of_char d \<in> {34::nat, 47, 92} then add d
             else if d = CHR ''n'' then add (char_of (10::nat))
             else if d = CHR ''r'' then add (char_of (13::nat))
             else if d = CHR ''t'' then add (char_of (9::nat))
             else if d = CHR ''f'' then add (char_of (12::nat))
             else if d = CHR ''b'' then add (char_of (8::nat))
             else if d = CHR ''u'' then
               (case s' of
                  h1 # h2 # h3 # h4 # s'' \<Rightarrow>
                    (case (hex_val h1, hex_val h2, hex_val h3, hex_val h4) of
                       (Some 0, Some 0, Some x, Some y) \<Rightarrow>
                         map_option (\<lambda>(t, r). (char_of (16 * x + y) # t, r)) (parse_string s'')
                     | _ \<Rightarrow> None)
                | _ \<Rightarrow> None)
             else None)
      else if n < 32 then None
      else map_option (\<lambda>(t, r). (c # t, r)) (parse_string s))"

text \<open>\<open>-?(0|[1-9][0-9]*)(\.[0-9]+)?([eE][-+]?[0-9]+)?\<close>\<close>

definition parse_int_part :: "string \<Rightarrow> (string \<times> string) option" where
  "parse_int_part s =
     (case s of
        [] \<Rightarrow> None
      | c # r \<Rightarrow>
          if c = CHR ''0'' then Some ([c], r)
          else if is_digit c then Some (takeWhile is_digit s, dropWhile is_digit s)
          else None)"

definition parse_frac :: "string \<Rightarrow> (string \<times> string)" where
  "parse_frac s =
     (case s of
        c # r \<Rightarrow> if c = CHR ''.'' \<and> takeWhile is_digit r \<noteq> []
                 then (takeWhile is_digit r, dropWhile is_digit r) else ([], s)
      | [] \<Rightarrow> ([], s))"

definition parse_exp :: "string \<Rightarrow> (int option \<times> string)" where
  "parse_exp s =
     (case s of
        [] \<Rightarrow> (None, s)
      | c # r \<Rightarrow>
          if c = CHR ''e'' \<or> c = CHR ''E'' then
            (let (neg, ds) = (case r of d # r' \<Rightarrow>
                   (if d = CHR ''-'' then (True, r') else if d = CHR ''+'' then (False, r') else (False, r))
                 | [] \<Rightarrow> (False, r));
                 x = int (read_nat (takeWhile is_digit ds))
             in if takeWhile is_digit ds = [] then (None, s)
                else (Some (if neg then - x else x), dropWhile is_digit ds))
          else (None, s))"

definition parse_number :: "string \<Rightarrow> (json \<times> string) option" where
  "parse_number s =
     (let (neg, s1) = (case s of c # r \<Rightarrow> if c = CHR ''-'' then (True, r) else (False, s)
                       | [] \<Rightarrow> (False, s));
          sg = (\<lambda>x::int. if neg then - x else x)
      in case parse_int_part s1 of
           None \<Rightarrow> None
         | Some (ds, s2) \<Rightarrow>
             (let (fs, s3) = parse_frac s2; (ex, s4) = parse_exp s3 in
              if fs = [] \<and> ex = None then Some (JInt (sg (int (read_nat ds))), s4)
              else (let (m, e) = norm10 (sg (int (read_nat (ds @ fs))))
                                    ((case ex of Some x \<Rightarrow> x | None \<Rightarrow> 0) - int (length fs))
                    in Some (JFloat m e, s4))))"

fun parse_value :: "nat \<Rightarrow> string \<Rightarrow> (json \<times> string) option"
  and parse_elems :: "nat \<Rightarrow> string \<Rightarrow> (json list \<times> string) option"
  and parse_members :: "nat \<Rightarrow> string \<Rightarrow> (dict \<times> string) option" where
  "parse_value 0 s = None"
| "parse_value (Suc n) s =
     (case s of
        [] \<Rightarrow> None
      | c # r \<Rightarrow>
          if c = dq then map_option (\<lambda>(t, r'). (JStr t, r')) (parse_string r)
          else if c = CHR ''{'' then
            (case skip_ws r of
               [] \<Rightarrow> None
             | d # r' \<Rightarrow> if d = CHR ''}'' then Some (JObj [], r')
                        else map_option (\<lambda>(kvs, t). (JObj (dict_of kvs), t)) (parse_members n (d # r')))
          else if c = CHR ''['' then
            (case skip_ws r of
               [] \<Rightarrow> None
             | d # r' \<Rightarrow> if d = CHR '']'' then Some (JArr [], r')
                        else map_option (\<lambda>(vs, t). (JArr vs, t)) (parse_elems n (d # r')))
          else if prefix ''null'' s then Some (JNull, drop 4 s)
          else if prefix ''true'' s then Some (JBool True, drop 4 s)
          else if prefix ''false'' s then Some (JBool False, drop 5 s)
          else parse_number s)"
| "parse_elems 0 s = None"
| "parse_elems (Suc n) s =
     (case parse_value n s of
        None \<Rightarrow> None
      | Some (v, r) \<Rightarrow>
          (case skip_ws r of
             [] \<Rightarrow> None
           | d # r' \<Rightarrow>
               if d = CHR '']'' then Some ([v], r')
               else if d = CHR '','' then
                 map_option (\<lambda>(vs, t). (v # vs, t)) (parse_elems n (skip_ws r'))
               else None))"
| "parse_members 0 s = None"
| "parse_members (Suc n) s =
     (case s of
        [] \<Rightarrow> None
      | c # r \<Rightarrow>
          if c \<noteq> dq then None
          else (case parse_string r of
             None \<Rightarrow> None
           | Some (k, r1) \<Rightarrow>
               (case skip_ws r1 of
                  [] \<Rightarrow> None
                | d # r2 \<Rightarrow>
                    if d \<noteq> CHR '':'' then None
                    else (case parse_value n (skip_ws r2) of
                       None \<Rightarrow> None
                     | Some (v, r3) \<Rightarrow>
                         (case skip_ws r3 of
                            [] \<Rightarrow> None
                          | d' # r4 \<Rightarrow>
                              if d' = CHR ''}'' then Some ([(k, v)], r4)
                              else if d' = CHR '','' then
                                map_option (\<lambda>(kvs, t). ((k, v) # kvs, t)) (parse_members n (skip_ws r4))
                              else None)))))"

definition loads :: "string \<Rightarrow> json option" where
  "loads s =
     (case parse_value (Suc (length s)) (skip_ws s) of
        Some (v, r) \<Rightarrow> if skip_ws r = [] then Some v else None
      | None \<Rightarrow> None)"

section \<open>Reading back strings and numbers\<close>

lemma hex_val_bounds [simp]:
  "hex_val (hex_digit ((of_char c :: nat) div 16)) = Some (of_char c div 16)"
  "hex_val (hex_digit ((of_char c :: nat) mod 16)) = Some (of_char c mod 16)"
proof -
  have "(of_char c :: nat) < 256" by simp
  then have "(of_char c :: nat) div 16 < 16" by linarith
  then show "hex_val (hex_digit ((of_char c :: nat) div 16)) = Some (of_char c div 16)"
    by (rule hex_val_hex_digit)
  show "hex_val (hex_digit ((of_char c :: nat) mod 16)) = Some (of_char c mod 16)"
    by (rule hex_val_hex_digit) simp
qed

lemma char_of_eq [simp]: "(of_char c :: nat) = n \<Longrightarrow> char_of n = c"
  by auto

lemma parse_string_esc:
  "parse_string (esc_char c @ s) = map_option (\<lambda>(t, r). (c # t, r)) (parse_string s)"
proof -
  have [simp]: "hex_val CHR ''0'' = Some 0" by (simp add: hex_val_def)
  have [simp]: "char_of (16 * ((of_char c :: nat) div 16) + of_char c mod 16) = c"
    by (simp add: char_of_eq)
  have [simp]: "(of_char (char_of (92::nat)) :: nat) = 92" by simp
  show ?thesis
    by (cases "(of_char c :: nat) \<in> {34, 92, 10, 13, 9, 12, 8}")
      (auto simp: esc_char_def hex4_def Let_def)
qed

lemma parse_string_quote:
  "parse_string (concat (map esc_char s) @ dq # r) = Some (s, r)"
  by (induction s) (simp_all add: dq_def parse_string_esc)

definition ends :: "string \<Rightarrow> bool" where
  "ends r \<longleftrightarrow> r = [] \<or> \<not> is_digit (hd r) \<and> hd r \<noteq> CHR ''.'' \<and> hd r \<noteq> CHR ''e'' \<and> hd r \<noteq> CHR ''E''"

lemma span_digits:
  "\<forall>c \<in> set ds. is_digit c \<Longrightarrow> ends r \<Longrightarrow>
   takeWhile is_digit (ds @ r) = ds \<and> dropWhile is_digit (ds @ r) = r"
  by (induction ds) (cases r; auto simp: ends_def)+

lemma parse_int_part_show: "ends r \<Longrightarrow> parse_int_part (show_nat n @ r) = Some (show_nat n, r)"
proof -
  assume r: "ends r"
  obtain c ds where cd: "show_nat n = c # ds" using show_nat_nonempty [of n] by (cases "show_nat n") auto
  have dg: "\<forall>c \<in> set (show_nat n). is_digit c" using show_nat_digits by blast
  show ?thesis
  proof (cases "c = CHR ''0''")
    case True
    then have "n = 0" using show_nat_head [of n] cd by simp
    then have "show_nat n = ''0''" by (simp add: show_nat.simps digit_char_def char_of_eq_iff)
    then show ?thesis by (simp add: parse_int_part_def)
  next
    case False
    then show ?thesis using span_digits [OF dg r] dg by (simp add: parse_int_part_def cd)
  qed
qed

lemma parse_frac_ends [simp]: "ends r \<Longrightarrow> parse_frac r = ([], r)"
  by (cases r) (auto simp: ends_def parse_frac_def)

lemma parse_exp_ends [simp]: "ends r \<Longrightarrow> parse_exp r = (None, r)"
  by (cases r) (auto simp: ends_def parse_exp_def)

lemma digit_not_minus: "is_digit c \<Longrightarrow> c \<noteq> CHR ''-''"
  by (auto simp: is_digit_def)

lemma show_nat_Cons: obtains c ds where "show_nat n = c # ds" "is_digit c"
  using show_nat_nonempty [of n] show_nat_digits [of _ n] by (cases "show_nat n") auto

lemma parse_number_show: "ends r \<Longrightarrow> parse_number (show_int i @ r) = Some (JInt i, r)"
proof -
  assume r: "ends r"
  obtain c ds where cd: "show_nat (nat i) = c # ds" "is_digit c" by (rule show_nat_Cons)
  show ?thesis
  proof (cases "i < 0")
    case True
    then show ?thesis
      using parse_int_part_show [OF r, of "nat (- i)"] r by (simp add: show_int_def parse_number_def)
  next
    case False
    have "c \<noteq> CHR ''-''" using cd(2) by (rule digit_not_minus)
    with False show ?thesis
      using parse_int_part_show [OF r, of "nat i"] read_show_nat [of "nat i"] r
      by (simp add: show_int_def parse_number_def cd)
  qed
qed

section \<open>The round trip\<close>

text \<open>Values without floats, and the fuel a value needs.\<close>

fun no_float :: "json \<Rightarrow> bool" where
  "no_float (JFloat m e) = False"
| "no_float (JArr xs) = list_all no_float xs"
| "no_float (JObj d) = list_all (\<lambda>(k, v). no_float v) d"
| "no_float _ = True"

fun need :: "json \<Rightarrow> nat" where
  "need (JArr xs) = Suc (sum_list (map (\<lambda>x. Suc (need x)) xs))"
| "need (JObj d) = Suc (sum_list (map (\<lambda>(k, v). Suc (need v)) d))"
| "need _ = 1"

definition starts_value :: "string \<Rightarrow> bool" where
  "starts_value s \<longleftrightarrow> s \<noteq> [] \<and> \<not> json_ws (hd s) \<and> hd s \<noteq> CHR '']'' \<and> hd s \<noteq> CHR ''}''"

lemma skip_ws_starts [simp]: "starts_value s \<Longrightarrow> skip_ws (s @ r) = s @ r"
  by (cases s) (auto simp: starts_value_def skip_ws_def)

lemma skip_ws_append [simp]: "\<forall>c \<in> set w. json_ws c \<Longrightarrow> skip_ws (w @ r) = skip_ws r"
  by (induction w) (auto simp: skip_ws_def)

lemma dq_not_ws [simp]: "\<not> json_ws dq" "dq \<noteq> CHR '']''" "dq \<noteq> CHR ''}''" "dq \<noteq> CHR ''{''"
  "dq \<noteq> CHR ''[''" "CHR ''n'' \<noteq> dq" "CHR ''t'' \<noteq> dq" "CHR ''f'' \<noteq> dq" "CHR ''{'' \<noteq> dq"
  "CHR ''['' \<noteq> dq"
proof -
  have h: "dq \<noteq> c" if "(of_char c :: nat) \<noteq> 34" for c using that by (auto simp: dq_def)
  show "\<not> json_ws dq" "dq \<noteq> CHR '']''" "dq \<noteq> CHR ''}''" "dq \<noteq> CHR ''{''" "dq \<noteq> CHR ''[''"
    by (simp add: dq_def json_ws_def) (rule h, simp)+
  show "CHR ''n'' \<noteq> dq" "CHR ''t'' \<noteq> dq" "CHR ''f'' \<noteq> dq" "CHR ''{'' \<noteq> dq" "CHR ''['' \<noteq> dq"
    by (rule not_sym, rule h, simp)+
qed

lemma starts_value_append: "starts_value a \<Longrightarrow> starts_value (a @ b)"
  by (cases a) (auto simp: starts_value_def)

lemma starts_value_join: "starts_value x \<Longrightarrow> starts_value (join i (x # xs))"
  by (cases xs) (auto intro: starts_value_append)

lemma ws_chars [simp]: "\<not> json_ws CHR '']''" "\<not> json_ws CHR ''}''" "\<not> json_ws CHR '',''"
  "\<not> json_ws CHR '':''" "\<not> json_ws CHR ''{''" "\<not> json_ws CHR ''[''"
  by (simp_all add: json_ws_def)

lemma is_digit_start: "is_digit c \<Longrightarrow> \<not> json_ws c \<and> c \<noteq> CHR '']'' \<and> c \<noteq> CHR ''}'' \<and>
    c \<noteq> dq \<and> c \<noteq> CHR ''{'' \<and> c \<noteq> CHR ''['' \<and> c \<noteq> CHR ''n'' \<and> c \<noteq> CHR ''t'' \<and> c \<noteq> CHR ''f''"
  by (auto simp: is_digit_def json_ws_def dq_def)

lemma show_int_start: obtains c ds where "show_int i = c # ds" "is_digit c \<or> c = CHR ''-''"
proof (cases "i < 0")
  case True
  then show ?thesis by (intro that [of "CHR ''-''" "show_nat (nat (- i))"]) (auto simp: show_int_def)
next
  case False
  obtain c ds where "show_nat (nat i) = c # ds" "is_digit c" by (rule show_nat_Cons)
  with False show ?thesis by (intro that [of c ds]) (auto simp: show_int_def)
qed

lemma starts_value_quote [simp]: "starts_value (quote s @ r)"
  by (simp add: quote_def starts_value_def)

lemma starts_value_dumps: "no_float v \<Longrightarrow> starts_value (dumps i k v)"
proof (cases v)
  case (JInt n)
  obtain c ds where "show_int n = c # ds" "is_digit c \<or> c = CHR ''-''" by (rule show_int_start)
  with JInt show ?thesis
    by (auto simp: starts_value_def is_digit_start) (auto simp: json_ws_def is_digit_def)
qed (auto simp: starts_value_def json_ws_def quote_def dq_def char_of_eq_iff)

lemma ends_simps [simp]: "ends []" "ends ('']'' @ r)" "ends (''}'' @ r)" "ends ('','' @ r)"
  "ends (CHR '']'' # r)" "ends (CHR ''}'' # r)" "ends (CHR '','' # r)"
  by (auto simp: ends_def is_digit_def)

lemma parse_value_int:
  assumes "ends r"
  shows "parse_value (Suc n) (show_int i @ r) = Some (JInt i, r)"
proof -
  obtain c ds where cd: "show_int i = c # ds" "is_digit c \<or> c = CHR ''-''" by (rule show_int_start)
  have "c \<noteq> dq" "c \<noteq> CHR ''{''" "c \<noteq> CHR ''[''" "c \<noteq> CHR ''n''" "c \<noteq> CHR ''t''" "c \<noteq> CHR ''f''"
    using cd(2) by (auto simp: is_digit_def dq_def char_of_eq_iff)
  then show ?thesis using parse_number_show [OF assms, of i] by (simp add: cd(1))
qed

lemma parse_value_quote: "parse_value (Suc n) (quote s @ r) = Some (JStr s, r)"
  by (simp add: quote_def parse_string_quote)

definition reads :: "string \<Rightarrow> string \<Rightarrow> json \<Rightarrow> bool" where
  "reads isep ksep v \<longleftrightarrow>
     (\<forall>n r. need v \<le> n \<longrightarrow> ends r \<longrightarrow> parse_value n (dumps isep ksep v @ r) = Some (v, r))"

lemma ends_join_tail: "ends (isep @ t)" if "isep = CHR '','' # w"
  using that by simp

lemma parse_elems_join:
  assumes "isep = CHR '','' # w" "\<forall>c \<in> set w. json_ws c"
  shows "xs \<noteq> [] \<Longrightarrow> \<forall>x \<in> set xs. reads isep ksep x \<and> no_float x \<Longrightarrow>
    sum_list (map (\<lambda>x. Suc (need x)) xs) \<le> n \<Longrightarrow>
    parse_elems n (join isep (map (dumps isep ksep) xs) @ CHR '']'' # r) = Some (xs, r)"
proof (induction xs arbitrary: n)
  case (Cons x xs)
  then obtain m where n: "n = Suc m" by (cases n) auto
  show ?case
  proof (cases xs)
    case Nil
    then show ?thesis using Cons.prems n by (simp add: reads_def skip_ws_def)
  next
    case (Cons y ys)
    let ?t = "join isep (map (dumps isep ksep) xs) @ CHR '']'' # r"
    have v: "parse_value m (dumps isep ksep x @ isep @ ?t) = Some (x, isep @ ?t)"
      using Cons.prems n ends_join_tail [OF assms(1)] by (simp add: reads_def)
    have "starts_value (dumps isep ksep y)" using Cons.prems Cons by (simp add: starts_value_dumps)
    then have "skip_ws ?t = ?t" using Cons by (simp add: starts_value_join)
    then have w: "skip_ws (w @ ?t) = ?t" using assms(2) by simp
    have e: "parse_elems m ?t = Some (xs, r)" using Cons.prems n Cons by (intro Cons.IH) auto
    have sk: "skip_ws (CHR '','' # w @ ?t) = CHR '','' # w @ ?t" by (simp add: skip_ws_def)
    show ?thesis using v w e sk by (simp add: n Cons assms(1))
  qed
qed simp

lemma parse_members_join:
  assumes "isep = CHR '','' # w" "\<forall>c \<in> set w. json_ws c"
    and "ksep = CHR '':'' # w'" "\<forall>c \<in> set w'. json_ws c"
  shows "d \<noteq> [] \<Longrightarrow> \<forall>(k, v) \<in> set d. reads isep ksep v \<and> no_float v \<Longrightarrow>
    sum_list (map (\<lambda>(k, v). Suc (need v)) d) \<le> n \<Longrightarrow>
    parse_members n (join isep (map (\<lambda>(k, v). quote k @ ksep @ dumps isep ksep v) d) @ CHR ''}'' # r)
      = Some (d, r)"
proof (induction d arbitrary: n)
  case (Cons kv d)
  obtain k v where kv: "kv = (k, v)" by fastforce
  obtain m where n: "n = Suc m" using Cons.prems by (cases n) auto
  have vsk: "skip_ws (w' @ dumps isep ksep v @ t) = dumps isep ksep v @ t" for t
    using assms(4) Cons.prems kv by (simp add: starts_value_dumps)
  have ks: "parse_string (concat (map esc_char k) @ dq # t) = Some (k, t)" for t
    by (rule parse_string_quote)
  have col: "skip_ws (CHR '':'' # t) = CHR '':'' # t" for t by (simp add: skip_ws_def)
  show ?case
  proof (cases d)
    case Nil
    have "parse_value m (dumps isep ksep v @ CHR ''}'' # r) = Some (v, CHR ''}'' # r)"
      using Cons.prems n kv by (simp add: reads_def)
    then show ?thesis using Nil vsk ks col
      by (simp add: n kv quote_def assms(3) skip_ws_def [of "CHR ''}'' # r"])
  next
    case (Cons kv' d')
    let ?t = "join isep (map (\<lambda>(k, v). quote k @ ksep @ dumps isep ksep v) d) @ CHR ''}'' # r"
    have pv: "parse_value m (dumps isep ksep v @ isep @ ?t) = Some (v, isep @ ?t)"
      using Cons.prems n kv ends_join_tail [OF assms(1)] by (simp add: reads_def)
    have "skip_ws ?t = ?t"
      using Cons by (cases d'; cases kv') (auto simp: quote_def skip_ws_def)
    then have w: "skip_ws (w @ ?t) = ?t" using assms(2) by simp
    have e: "parse_members m ?t = Some (d, r)" using Cons.prems n kv Cons by (intro Cons.IH) auto
    have sk: "skip_ws (CHR '','' # w @ ?t) = CHR '','' # w @ ?t" by (simp add: skip_ws_def)
    show ?thesis using pv w e sk vsk ks col by (simp add: n kv Cons quote_def assms(1,3))
  qed
qed simp

lemma reads_dumps:
  assumes "isep = CHR '','' # w" "\<forall>c \<in> set w. json_ws c"
    and "ksep = CHR '':'' # w'" "\<forall>c \<in> set w'. json_ws c"
  shows "no_float v \<Longrightarrow> wf_json v \<Longrightarrow> reads isep ksep v"
proof (induction v)
  case JNull
  show ?case by (auto simp: reads_def Suc_le_eq gr0_conv_Suc)
next
  case (JBool b)
  show ?case by (auto simp: reads_def Suc_le_eq gr0_conv_Suc)
next
  case (JInt i)
  show ?case by (auto simp: reads_def Suc_le_eq gr0_conv_Suc parse_value_int simp del: parse_value.simps)
next
  case (JStr s)
  show ?case by (auto simp: reads_def Suc_le_eq gr0_conv_Suc parse_value_quote simp del: parse_value.simps)
next
  case (JArr xs)
  then have el: "\<forall>x \<in> set xs. reads isep ksep x \<and> no_float x" by (auto simp: list_all_iff)
  have "parse_value n (dumps isep ksep (JArr xs) @ r) = Some (JArr xs, r)"
    if n: "need (JArr xs) \<le> n" for n r
  proof -
    obtain m where m: "n = Suc m" using n by (cases n) auto
    show ?thesis
    proof (cases xs)
      case (Cons x xs')
      let ?t = "join isep (map (dumps isep ksep) xs) @ CHR '']'' # r"
      have "starts_value (dumps isep ksep x)" using el Cons by (simp add: starts_value_dumps)
      then have "skip_ws ?t = ?t \<and> ?t \<noteq> [] \<and> hd ?t \<noteq> CHR '']''"
        using Cons by (cases xs') (auto simp: starts_value_def skip_ws_def hd_append neq_Nil_conv)
      moreover have "parse_elems m ?t = Some (xs, r)"
        using el n m Cons by (intro parse_elems_join [OF assms(1,2)]) auto
      ultimately show ?thesis by (cases ?t) (auto simp: m)
    qed (simp add: m skip_ws_def json_ws_def)
  qed
  then show ?case by (simp add: reads_def)
next
  case (JObj d)
  have el: "\<forall>(k, v) \<in> set d. reads isep ksep v \<and> no_float v"
  proof clarify
    fix k v assume "(k, v) \<in> set d"
    then show "reads isep ksep v \<and> no_float v"
      using JObj.prems JObj.IH [of "(k, v)" v] by (auto simp: list_all_iff)
  qed
  have "parse_value n (dumps isep ksep (JObj d) @ r) = Some (JObj d, r)"
    if n: "need (JObj d) \<le> n" for n r
  proof -
    obtain m where m: "n = Suc m" using n by (cases n) auto
    show ?thesis
    proof (cases d)
      case (Cons kv d')
      let ?t = "join isep (map (\<lambda>(k, v). quote k @ ksep @ dumps isep ksep v) d) @ CHR ''}'' # r"
      have "skip_ws ?t = ?t \<and> ?t \<noteq> [] \<and> hd ?t \<noteq> CHR ''}''"
        using Cons by (cases d'; cases kv) (auto simp: quote_def skip_ws_def)
      moreover have "parse_members m ?t = Some (d, r)"
        using el n m Cons by (intro parse_members_join [OF assms]) auto
      ultimately show ?thesis using JObj.prems by (cases ?t) (auto simp: m)
    qed (simp add: m skip_ws_def json_ws_def dict_of_def)
  qed
  then show ?case by (simp add: reads_def)
qed simp

lemma length_join:
  "xs \<noteq> [] \<Longrightarrow> isep \<noteq> [] \<Longrightarrow>
   sum_list (map length xs) + length xs \<le> Suc (length (join isep xs))"
proof (induction isep xs rule: join.induct)
  case (3 sep x y xs)
  then have "1 \<le> length sep" by (cases sep) auto
  with 3 show ?case by simp
qed auto

lemma length_show_int: "1 \<le> length (show_int i)"
  by (rule show_int_start [of i]) simp

lemma need_le_length:
  "no_float v \<Longrightarrow> isep \<noteq> [] \<Longrightarrow> ksep \<noteq> [] \<Longrightarrow> need v \<le> length (dumps isep ksep v)"
proof (induction v)
  case (JInt i)
  then show ?case using length_show_int [of i] by simp
next
  case (JArr xs)
  show ?case
  proof (cases "xs = []")
    case False
    let ?ps = "map (dumps isep ksep) xs"
    have "sum_list (map need xs) \<le> sum_list (map length ?ps)"
      unfolding map_map o_def using JArr by (intro sum_list_mono) (auto simp: list_all_iff)
    moreover have "sum_list (map length ?ps) + length ?ps \<le> Suc (length (join isep ?ps))"
      using False JArr.prems by (intro length_join) auto
    moreover have "sum_list (map (\<lambda>x. Suc (need x)) xs) = sum_list (map need xs) + length xs"
      by (induction xs) auto
    ultimately show ?thesis by simp
  qed simp
next
  case (JObj d)
  show ?case
  proof (cases "d = []")
    case False
    let ?f = "\<lambda>(k, v). quote k @ ksep @ dumps isep ksep v"
    have "need v \<le> length (?f (k, v))" if "(k, v) \<in> set d" for k v
      using that JObj.prems JObj.IH [of "(k, v)" v] by (auto simp: list_all_iff)
    then have "sum_list (map (\<lambda>(k, v). need v) d) \<le> sum_list (map (\<lambda>p. length (?f p)) d)"
      by (intro sum_list_mono) auto
    then have "sum_list (map (\<lambda>(k, v). need v) d) \<le> sum_list (map length (map ?f d))"
      by (simp add: o_def)
    moreover have "sum_list (map length (map ?f d)) + length (map ?f d) \<le> Suc (length (join isep (map ?f d)))"
      using False JObj.prems by (intro length_join) auto
    moreover have "sum_list (map (\<lambda>(k, v). Suc (need v)) d) = sum_list (map (\<lambda>(k, v). need v) d) + length d"
      by (induction d) auto
    ultimately show ?thesis by simp
  qed simp
qed (auto simp: quote_def)

text \<open>Reading back what was printed with separators \<open>","\<close> and \<open>":"\<close>, each followed by blanks.\<close>

lemma loads_dumps:
  assumes "no_float v" "wf_json v"
    and "\<forall>c \<in> set w. json_ws c" "\<forall>c \<in> set w'. json_ws c"
  shows "loads (dumps (CHR '','' # w) (CHR '':'' # w') v) = Some v"
proof -
  let ?s = "dumps (CHR '','' # w) (CHR '':'' # w') v"
  have "skip_ws ?s = ?s" using skip_ws_starts [OF starts_value_dumps [OF assms(1)], of _ _ "[]"] by simp
  moreover have "reads (CHR '','' # w) (CHR '':'' # w') v"
    using assms by (intro reads_dumps [of _ w _ w']) auto
  moreover have "need v \<le> Suc (length ?s)"
    using need_le_length [OF assms(1), of "CHR '','' # w" "CHR '':'' # w'"] by simp
  ultimately have "parse_value (Suc (length ?s)) (skip_ws ?s) = Some (v, [])"
    unfolding reads_def by (metis append_Nil2 ends_simps(1))
  then show ?thesis by (simp add: loads_def skip_ws_def)
qed

lemma loads_dumps_default: "no_float v \<Longrightarrow> wf_json v \<Longrightarrow> loads (dumps_default v) = Some v"
  unfolding dumps_default_def by (rule loads_dumps) (auto simp: json_ws_def)

section \<open>Sorted printing is canonical\<close>

lemma no_float_sort_keys [simp]: "no_float (sort_keys v) = no_float v"
proof (induction v)
  case (JObj d)
  then show ?case by (auto simp: list_all_iff split: prod.splits)
qed (auto simp: list_all_iff)

lemma distinct_fst_sort_key: "distinct (map fst xs) \<Longrightarrow> distinct (map fst (sort_key fst xs))"
  by (simp add: distinct_map)

lemma wf_sort_keys [simp]: "wf_json v \<Longrightarrow> wf_json (sort_keys v)"
proof (induction v)
  case (JObj d)
  let ?d = "map (\<lambda>(k, v). (k, sort_keys v)) d"
  have "map fst ?d = map fst d" by (induction d) auto
  then have "distinct (map fst ?d)" using JObj.prems by (simp only: wf_json.simps)
  then have "distinct (map fst (sort_key fst ?d))" by (rule distinct_fst_sort_key)
  moreover have "list_all (\<lambda>(k, v). wf_json v) (sort_key fst ?d)"
    using JObj by (auto simp: list_all_iff split: prod.splits)
  ultimately show ?case by simp
qed (auto simp: list_all_iff)

lemma loads_dumps_sorted: "no_float v \<Longrightarrow> wf_json v \<Longrightarrow> loads (dumps_sorted v) = Some (sort_keys v)"
  unfolding dumps_sorted_def by (rule loads_dumps) auto

lemma dumps_sorted_inject:
  "no_float v \<Longrightarrow> wf_json v \<Longrightarrow> no_float w \<Longrightarrow> wf_json w \<Longrightarrow>
   dumps_sorted v = dumps_sorted w \<longleftrightarrow> sort_keys v = sort_keys w"
  by (metis dumps_sorted_def loads_dumps_sorted option.inject)

lemma sort_keys_leaf [simp]:
  "JNull = sort_keys w \<longleftrightarrow> w = JNull" "JBool b = sort_keys w \<longleftrightarrow> w = JBool b"
  "JInt i = sort_keys w \<longleftrightarrow> w = JInt i" "JStr s = sort_keys w \<longleftrightarrow> w = JStr s"
  "JFloat m e = sort_keys w \<longleftrightarrow> w = JFloat m e"
  by (cases w; auto)+

text \<open>Equal up to the order of keys implies equal in Python's sense.\<close>

lemma sort_keys_pyeq:
  "wf_json v \<Longrightarrow> wf_json w \<Longrightarrow> sort_keys v = sort_keys w \<Longrightarrow> pyeq v w"
proof (induction v arbitrary: w)
  case (JArr xs)
  then obtain ys where w: "w = JArr ys" and eq: "map sort_keys xs = map sort_keys ys"
    by (cases w) auto
  have "list_all2 pyeq xs ys"
    using eq JArr.prems w unfolding list_all2_conv_all_nth
    by (auto simp: list_eq_iff_nth_eq list_all_iff intro!: JArr.IH)
  with w show ?case by simp
next
  case (JObj d)
  let ?s = "map (\<lambda>(k, v). (k, sort_keys v))"
  obtain d' where w: "w = JObj d'" and eq: "sort_key fst (?s d) = sort_key fst (?s d')"
    using JObj.prems by (cases w) auto
  have len: "length d = length d'" using arg_cong [OF eq, of length] by simp
  have "case map_of d' k of Some v' \<Rightarrow> pyeq v v' | None \<Rightarrow> False" if kv: "(k, v) \<in> set d" for k v
  proof -
    have "(k, sort_keys v) \<in> set (?s d)" using kv by force
    then have "(k, sort_keys v) \<in> set (?s d')" by (metis eq set_sort)
    then obtain v' where v': "(k, v') \<in> set d'" "sort_keys v = sort_keys v'" by auto
    then have "map_of d' k = Some v'" using JObj.prems w by (simp add: map_of_is_SomeI)
    moreover have "pyeq v v'"
      using kv v' JObj.prems w by (intro JObj.IH [of "(k, v)"]) (auto simp: list_all_iff)
    ultimately show ?thesis by simp
  qed
  with len w show ?case by (auto simp: list_all_iff)
qed auto

lemma is_ascii_concat: "is_ascii (concat xs) \<longleftrightarrow> (\<forall>x \<in> set xs. is_ascii x)"
  by (induction xs) auto

lemma esc_char_ascii: "is_ascii (esc_char c)"
proof -
  have "is_ascii [hex_digit d]" if "d < 16" for d
    using that by (auto simp: hex_digit_def)
  moreover have "(of_char c :: nat) < 256" by simp
  then have "(of_char c :: nat) div 16 < 16" by linarith
  ultimately show ?thesis by (auto simp: esc_char_def hex4_def Let_def)
qed

lemma is_ascii_join: "is_ascii i \<Longrightarrow> \<forall>x \<in> set xs. is_ascii x \<Longrightarrow> is_ascii (join i xs)"
  by (induction i xs rule: join.induct) auto

lemma is_digit_ascii: "is_digit c \<Longrightarrow> (of_char c :: nat) < 128"
  by (simp add: is_digit_def)

lemma is_ascii_show_nat [simp]: "is_ascii (show_nat n)"
  unfolding is_ascii_def using show_nat_digits is_digit_ascii by blast

lemma quote_ascii [simp]: "is_ascii (quote s)"
  by (auto simp: quote_def is_ascii_concat esc_char_ascii dq_def)

lemma dumps_ascii: "no_float v \<Longrightarrow> is_ascii i \<Longrightarrow> is_ascii k \<Longrightarrow> is_ascii (dumps i k v)"
proof (induction v)
  case (JArr xs)
  then show ?case by (auto simp: list_all_iff intro!: is_ascii_join)
next
  case (JObj d)
  have "is_ascii (dumps i k v)" if "(k', v) \<in> set d" for k' v
    using that JObj.prems JObj.IH [of "(k', v)" v] by (auto simp: list_all_iff)
  with JObj.prems show ?case by (auto intro!: is_ascii_join)
qed (auto simp: show_int_def)

end
