(* ===== verification/Schemas.thy ===== *)
theory Schemas
  imports Json_Parse
begin

text \<open>
  \<^verbatim>\<open>app/models/schemas.py\<close>, \<^verbatim>\<open>app/errors.py\<close>, \<^verbatim>\<open>app/config.py\<close> and the exception
  classes of the other modules: the enums, the API models, the records kept in Redis, the worker's
  parse targets, the settings. A Pydantic model is a record; validation of a request body or of the
  agent's answer against one is the function \<open>validate_...\<close>, \<open>None\<close> being \<open>ValidationError\<close>.
  Record fields carry a prefix, because HOL record fields share one name space.
\<close>

section \<open>Enums\<close>

datatype job_status = QUEUED | RUNNING | COMPLETED | FAILED | CANCELLED

fun status_value :: "job_status \<Rightarrow> string" where
  "status_value QUEUED = ''queued''"
| "status_value RUNNING = ''running''"
| "status_value COMPLETED = ''completed''"
| "status_value FAILED = ''failed''"
| "status_value CANCELLED = ''cancelled''"

definition terminal_states :: "job_status set" where
  "terminal_states = {COMPLETED, FAILED, CANCELLED}"

text \<open>The enum's order of declaration, which is the order of a job's life.\<close>

fun status_rank :: "job_status \<Rightarrow> nat" where
  "status_rank QUEUED = 0"
| "status_rank RUNNING = 1"
| "status_rank COMPLETED = 2"
| "status_rank FAILED = 3"
| "status_rank CANCELLED = 4"

lemma status_rank_inject: "status_rank s = status_rank t \<longleftrightarrow> s = t"
  by (cases s; cases t) simp_all

instantiation job_status :: linorder
begin

definition less_eq_job_status :: "job_status \<Rightarrow> job_status \<Rightarrow> bool" where
  "s \<le> t \<longleftrightarrow> status_rank s \<le> status_rank t"

definition less_job_status :: "job_status \<Rightarrow> job_status \<Rightarrow> bool" where
  "s < t \<longleftrightarrow> status_rank s < status_rank t"

instance
  by standard (auto simp: less_eq_job_status_def less_job_status_def status_rank_inject)

end

lemma terminal_states_iff [simp]:
  "QUEUED \<notin> terminal_states" "RUNNING \<notin> terminal_states"
  "COMPLETED \<in> terminal_states" "FAILED \<in> terminal_states" "CANCELLED \<in> terminal_states"
  by (simp_all add: terminal_states_def)

datatype error_code =
    INVALID_API_KEY | MISSING_USER_TOKEN | ACTION_EXPIRED | PAYLOAD_MISMATCH | STALE_TARGET
  | IDEMPOTENT_REPLAY | JOB_NOT_FOUND | JOB_TIMEOUT | UNSUPPORTED_ACTION | VALIDATION_ERROR
  | DOWNSTREAM_ERROR | DEPENDENCY_UNAVAILABLE | INTERNAL_ERROR

datatype auth_mode = USER_PAT | SERVICE_CREDENTIAL | NONE

section \<open>API models and internal records\<close>

record research_request =
  rq_task :: string
  rq_session_id :: string
  rq_context :: "dict option"
  rq_constraints :: "dict option"

record research_accepted =
  ra_job_id :: string
  ra_status :: job_status
  ra_poll_url :: string
  ra_estimated_wait_s :: int
  ra_correlation_id :: string

record job_progress =
  pr_last_tool :: "string option"
  pr_steps :: nat

record job_error =
  je_code :: error_code
  je_message :: string

record findings =
  fi_summary :: string
  fi_sources :: "dict list"
  fi_details :: dict

record proposed_action =
  pa_action_id :: string
  pa_action_type :: string
  pa_target :: dict
  pa_payload :: dict
  pa_preview :: string
  pa_preconditions :: dict
  pa_expires_at :: time
  pa_editable_fields :: "string list"
  pa_correlation_id :: string

record job_status_response =
  js_job_id :: string
  js_status :: job_status
  js_session_id :: string
  js_correlation_id :: string
  js_created_at :: time
  js_started_at :: "time option"
  js_finished_at :: "time option"
  js_attempt :: int
  js_cancel_requested :: bool
  js_progress :: "job_progress option"
  js_findings :: "findings option"
  js_proposed_actions :: "proposed_action list option"
  js_error :: "job_error option"

record execute_request =
  er_action_id :: string
  er_session_id :: string
  er_approved_payload :: dict
  er_approved_by :: string
  er_approved_at :: time

record execute_response =
  ex_status :: string
  ex_action_id :: string
  ex_result :: dict
  ex_resource_url :: "string option"
  ex_idempotent_replay :: bool
  ex_correlation_id :: string

record action_status_response =
  as_action_id :: string
  as_status :: string
  as_expires_at :: "time option"
  as_action :: "proposed_action option"
  as_correlation_id :: string

record error_response =
  en_code :: error_code
  en_message :: string
  en_details :: "dict option"
  en_correlation_id :: string

record job_record =
  job_id :: string
  job_domain :: string
  job_status :: job_status
  job_task :: string
  job_session_id :: string
  job_context :: "dict option"
  job_constraints :: "dict option"
  job_consumer_id :: string
  job_principal_hash :: "string option"
  job_correlation_id :: string
  job_created_at :: time
  job_started_at :: "time option"
  job_finished_at :: "time option"
  job_attempt :: int
  job_max_attempts :: int
  job_progress :: job_progress
  job_error :: "job_error option"

record job_result_doc =
  rd_findings :: findings
  rd_proposed_actions :: "proposed_action list"

record stored_proposal =
  sp_action :: proposed_action
  sp_job_id :: string
  sp_session_id :: string
  sp_consumer_id :: string
  sp_principal_hash :: "string option"
  sp_created_at :: time

record idempotency_record =
  id_request_hash :: string
  id_response :: execute_response
  id_created_at :: time

record agent_proposed_action =
  ap_action_type :: string
  ap_target :: dict
  ap_payload :: dict
  ap_preview :: string
  ap_preconditions :: dict

record agent_output =
  ao_summary :: string
  ao_sources :: "dict list"
  ao_details :: dict
  ao_proposed_actions :: "agent_proposed_action list"

section \<open>Validation\<close>

text \<open>
  One function per kind of field of the models: a required string of a least length, and fields
  with a default. \<open>None\<close> is the failure of that field. Extra fields are ignored.
\<close>

definition str_field :: "nat \<Rightarrow> string \<Rightarrow> dict \<Rightarrow> string option" where
  "str_field min_len k d =
     (case map_of d k of Some (JStr s) \<Rightarrow> if min_len \<le> length s then Some s else None | _ \<Rightarrow> None)"

definition str_default :: "string \<Rightarrow> string \<Rightarrow> dict \<Rightarrow> string option" where
  "str_default dflt k d =
     (case map_of d k of None \<Rightarrow> Some dflt | Some (JStr s) \<Rightarrow> Some s | Some _ \<Rightarrow> None)"

definition dict_default :: "string \<Rightarrow> dict \<Rightarrow> dict option" where
  "dict_default k d =
     (case map_of d k of None \<Rightarrow> Some [] | Some (JObj x) \<Rightarrow> Some x | Some _ \<Rightarrow> None)"

definition opt_dict :: "string \<Rightarrow> dict \<Rightarrow> dict option option" where
  "opt_dict k d =
     (case map_of d k of
        None \<Rightarrow> Some None | Some JNull \<Rightarrow> Some None | Some (JObj x) \<Rightarrow> Some (Some x) | Some _ \<Rightarrow> None)"

fun all_some :: "'a option list \<Rightarrow> 'a list option" where
  "all_some [] = Some []"
| "all_some (None # xs) = None"
| "all_some (Some x # xs) = map_option ((#) x) (all_some xs)"

fun as_dict :: "json \<Rightarrow> dict option" where
  "as_dict (JObj d) = Some d"
| "as_dict _ = None"

definition list_default :: "(json \<Rightarrow> 'a option) \<Rightarrow> string \<Rightarrow> dict \<Rightarrow> 'a list option" where
  "list_default f k d =
     (case map_of d k of
        None \<Rightarrow> Some [] | Some (JArr xs) \<Rightarrow> all_some (map f xs) | Some _ \<Rightarrow> None)"

definition validate_research_request :: "dict \<Rightarrow> research_request option" where
  "validate_research_request d =
     (case (str_field 1 ''task'' d, str_field 1 ''session_id'' d,
            opt_dict ''context'' d, opt_dict ''constraints'' d) of
        (Some t, Some s, Some c, Some k) \<Rightarrow>
          Some \<lparr>rq_task = t, rq_session_id = s, rq_context = c, rq_constraints = k\<rparr>
      | _ \<Rightarrow> None)"

text \<open>\<open>parse_datetime\<close> is Pydantic's reading of an instant.\<close>

definition validate_execute_request ::
    "(json \<Rightarrow> time option) \<Rightarrow> dict \<Rightarrow> execute_request option" where
  "validate_execute_request parse_datetime d =
     (case (str_field 1 ''action_id'' d, str_field 1 ''session_id'' d,
            map_of d ''approved_payload'', map_of d ''approval'') of
        (Some a, Some s, Some (JObj p), Some (JObj ap)) \<Rightarrow>
          (case (str_field 1 ''approved_by'' ap, Option.bind (map_of ap ''approved_at'') parse_datetime) of
             (Some b, Some t) \<Rightarrow>
               Some \<lparr>er_action_id = a, er_session_id = s, er_approved_payload = p,
                     er_approved_by = b, er_approved_at = t\<rparr>
           | _ \<Rightarrow> None)
      | _ \<Rightarrow> None)"

fun validate_agent_action :: "json \<Rightarrow> agent_proposed_action option" where
  "validate_agent_action (JObj d) =
     (case (str_field 0 ''action_type'' d, dict_default ''target'' d, dict_default ''payload'' d,
            str_default [] ''preview'' d, dict_default ''preconditions'' d) of
        (Some a, Some t, Some p, Some pv, Some pc) \<Rightarrow>
          Some \<lparr>ap_action_type = a, ap_target = t, ap_payload = p, ap_preview = pv,
                ap_preconditions = pc\<rparr>
      | _ \<Rightarrow> None)"
| "validate_agent_action _ = None"

definition validate_agent_output :: "dict \<Rightarrow> agent_output option" where
  "validate_agent_output d =
     (case (str_default [] ''summary'' d, list_default as_dict ''sources'' d,
            dict_default ''details'' d, list_default validate_agent_action ''proposed_actions'' d) of
        (Some s, Some src, Some det, Some acts) \<Rightarrow>
          Some \<lparr>ao_summary = s, ao_sources = src, ao_details = det, ao_proposed_actions = acts\<rparr>
      | _ \<Rightarrow> None)"

section \<open>Settings\<close>

record settings =
  cf_service_name :: string
  cf_domain :: string
  cf_env :: string
  cf_api_keys :: "(string \<times> string) list"
  cf_queue_name :: string
  cf_result_ttl_s :: int
  cf_proposal_ttl_s :: int
  cf_idempotency_ttl_s :: int
  cf_job_timeout_s :: int
  cf_job_max_attempts :: int
  cf_estimated_wait_s :: int
  cf_max_concurrent_reads :: int
  cf_agent_factory :: string
  cf_azure_openai_endpoint :: string
  cf_azure_openai_deployment :: string
  cf_azure_openai_fast_deployment :: string
  cf_azure_openai_api_version :: string
  cf_azure_keyvault_key_id :: string
  cf_local_crypto_key_b64 :: string
  cf_principal_hash_salt :: string
  cf_jira_base_url :: string
  cf_websearch_api_key :: string
  cf_websearch_base_url :: string

definition default_settings :: settings where
  "default_settings = \<lparr>
     cf_service_name = ''domain-deep-agent'', cf_domain = ''jira'', cf_env = ''dev'',
     cf_api_keys = [], cf_queue_name = ''arq:queue'', cf_result_ttl_s = 7200,
     cf_proposal_ttl_s = 1800, cf_idempotency_ttl_s = 86400, cf_job_timeout_s = 600,
     cf_job_max_attempts = 2, cf_estimated_wait_s = 5, cf_max_concurrent_reads = 6,
     cf_agent_factory = ''deepagents'', cf_azure_openai_endpoint = [],
     cf_azure_openai_deployment = [], cf_azure_openai_fast_deployment = [],
     cf_azure_openai_api_version = ''2024-10-21'', cf_azure_keyvault_key_id = [],
     cf_local_crypto_key_b64 = [], cf_principal_hash_salt = ''change-me'',
     cf_jira_base_url = [], cf_websearch_api_key = [],
     cf_websearch_base_url = ''https://api.tavily.com''\<rparr>"

section \<open>Exceptions\<close>

text \<open>Every exception a modelled statement raises or catches; the last three stand for the
  exceptions of the HTTP client, of Redis, and for any other one, by class name.\<close>

datatype exn =
    ApiError int error_code string "dict option"
  | UnsupportedActionError string
  | PayloadValidationError string "dict list"
  | DownstreamError string "int option"
  | TokenVaultError string
  | QueueUnavailable string
  | JobNotFound string
  | InvalidTransition string job_status job_status
  | JobCancelled
  | RetryableJobError string
  | Retry int
  | TimeoutError
  | RuntimeError string
  | ValueError string
  | KeyError string
  | TypeError string
  | AttributeError string
  | NotImplementedError string
  | JSONDecodeError
  | RequestValidationError
  | HttpxError string
  | RedisError string
  | OtherError string

text \<open>\<open>type(exc).__name__\<close>.\<close>

fun exn_name :: "exn \<Rightarrow> string" where
  "exn_name (ApiError _ _ _ _) = ''ApiError''"
| "exn_name (UnsupportedActionError _) = ''UnsupportedActionError''"
| "exn_name (PayloadValidationError _ _) = ''PayloadValidationError''"
| "exn_name (DownstreamError _ _) = ''DownstreamError''"
| "exn_name (TokenVaultError _) = ''TokenVaultError''"
| "exn_name (QueueUnavailable _) = ''QueueUnavailable''"
| "exn_name (JobNotFound _) = ''JobNotFound''"
| "exn_name (InvalidTransition _ _ _) = ''InvalidTransition''"
| "exn_name JobCancelled = ''JobCancelled''"
| "exn_name (RetryableJobError _) = ''RetryableJobError''"
| "exn_name (Retry _) = ''Retry''"
| "exn_name TimeoutError = ''TimeoutError''"
| "exn_name (RuntimeError _) = ''RuntimeError''"
| "exn_name (ValueError _) = ''ValueError''"
| "exn_name (KeyError _) = ''KeyError''"
| "exn_name (TypeError _) = ''TypeError''"
| "exn_name (AttributeError _) = ''AttributeError''"
| "exn_name (NotImplementedError _) = ''NotImplementedError''"
| "exn_name JSONDecodeError = ''JSONDecodeError''"
| "exn_name RequestValidationError = ''RequestValidationError''"
| "exn_name (HttpxError n) = n"
| "exn_name (RedisError n) = n"
| "exn_name (OtherError n) = n"

end
