(* ===== verification/Effects.thy ===== *)
theory Effects
  imports Schemas
begin

text \<open>
  Programs with effects. A handler of the service is a value of type \<open>'a prog\<close>: a tree
  whose inner nodes are the calls that leave the Python process or read its ambient state (a Redis
  command, the clock, a fresh UUID, an HTTP call to the target system, a log line, a context
  variable), and whose leaves are a returned value or a raised exception. Every such call can be
  answered by an exception.

  What answers the calls is the \<^emph>\<open>world\<close>: an arbitrary function from a state and a
  command to the next state and a reply. Redis, Key Vault, arq and the target system are not code
  of the repository, so the world is a parameter of everything proved; the locale
  \<open>redis_server\<close> states what the code relies on of Redis.
\<close>

section \<open>Commands and replies\<close>

text \<open>
  What the store writes under a key. The JSON text that \<open>model_dump_json\<close> writes and
  \<open>model_validate_json\<close> reads back is modelled by the record it encodes.
\<close>

datatype rval =
    VJob job_record | VResult job_result_doc | VProposal stored_proposal
  | VIdem idempotency_record | VStr string

datatype http_method = HGET | HPUT | HPOST

record http_req =
  hq_method :: http_method
  hq_url :: string
  hq_params :: dict
  hq_json :: "json option"
  hq_headers :: "(string \<times> string) list"

record http_resp =
  hr_status :: int
  hr_headers :: "(string \<times> string) list"
  hr_body :: string

datatype log_level = INFO | WARNING | ERROR

text \<open>A delay in seconds is a decimal \<open>m * 10 ^ e\<close>.\<close>

datatype cmd =
    RGet string
  | RSetEx string rval int      \<comment> \<open>\<open>SET k v EX t\<close>\<close>
  | RSetKeepTtl string rval     \<comment> \<open>\<open>SET k v KEEPTTL\<close>\<close>
  | RDel string
  | RExists string
  | RPing
  | RZcard string
  | EnqueueJob string string string
  | UtcNow
  | PerfCounter
  | NewUuid
  | URandom nat
  | WrapKey string bytes
  | UnwrapKey string bytes
  | HttpSend http_req
  | SleepFor "int \<times> int"
  | RegisterSecret string
  | LogLine log_level string string "(string \<times> string) list"

datatype reply =
    RNone | RVal rval | RBool bool | RInt int | RStr string | RHttp http_resp | RErr exn

section \<open>Programs\<close>

text \<open>The context variables of \<^verbatim>\<open>app/observability/correlation.py\<close>.\<close>

record ctx =
  cx_correlation_id :: "string option"
  cx_from_header :: bool
  cx_request_id :: "string option"
  cx_job_id :: "string option"
  cx_action_id :: "string option"
  cx_consumer_id :: "string option"

definition empty_ctx :: ctx where
  "empty_ctx = \<lparr>cx_correlation_id = None, cx_from_header = False, cx_request_id = None,
                cx_job_id = None, cx_action_id = None, cx_consumer_id = None\<rparr>"

datatype 'a prog =
    Ret 'a
  | Raise exn
  | Op cmd "reply \<Rightarrow> 'a prog"
  | GetCtx "ctx \<Rightarrow> 'a prog"
  | SetCtx ctx "'a prog"

text \<open>Sequencing, \<open>try: p except ...: h\<close> (the handler re-raises what it does not catch).\<close>

primrec bind :: "'a prog \<Rightarrow> ('a \<Rightarrow> 'b prog) \<Rightarrow> 'b prog" where
  "bind (Ret a) f = f a"
| "bind (Raise e) f = Raise e"
| "bind (Op c k) f = Op c (\<lambda>r. bind (k r) f)"
| "bind (GetCtx k) f = GetCtx (\<lambda>c. bind (k c) f)"
| "bind (SetCtx c p) f = SetCtx c (bind p f)"

primrec catch :: "'a prog \<Rightarrow> (exn \<Rightarrow> 'a prog) \<Rightarrow> 'a prog" where
  "catch (Ret a) h = Ret a"
| "catch (Raise e) h = h e"
| "catch (Op c k) h = Op c (\<lambda>r. catch (k r) h)"
| "catch (GetCtx k) h = GetCtx (\<lambda>c. catch (k c) h)"
| "catch (SetCtx c p) h = SetCtx c (catch p h)"

text \<open>\<open>try: p finally: f\<close>.\<close>

definition finally_do :: "'a prog \<Rightarrow> unit prog \<Rightarrow> 'a prog" where
  "finally_do p f =
     bind (catch (bind p (\<lambda>a. Ret (Inr a))) (\<lambda>e. Ret (Inl e)))
       (\<lambda>x. bind f (\<lambda>_. case x of Inl e \<Rightarrow> Raise e | Inr a \<Rightarrow> Ret a))"

definition lift_result :: "exn + 'a \<Rightarrow> 'a prog" where
  "lift_result x = (case x of Inl e \<Rightarrow> Raise e | Inr a \<Rightarrow> Ret a)"

definition when_do :: "bool \<Rightarrow> unit prog \<Rightarrow> unit prog" where
  "when_do b p = (if b then p else Ret ())"

text \<open>The calls, typed. A reply of the wrong kind is a \<open>TypeError\<close>.\<close>

definition bad_reply :: "reply \<Rightarrow> 'a prog" where
  "bad_reply r = (case r of RErr e \<Rightarrow> Raise e | _ \<Rightarrow> Raise (TypeError ''reply''))"

definition redis_get :: "string \<Rightarrow> rval option prog" where
  "redis_get k =
     Op (RGet k) (\<lambda>r. case r of RNone \<Rightarrow> Ret None | RVal v \<Rightarrow> Ret (Some v) | _ \<Rightarrow> bad_reply r)"

definition redis_set_ex :: "string \<Rightarrow> rval \<Rightarrow> int \<Rightarrow> unit prog" where
  "redis_set_ex k v t = Op (RSetEx k v t) (\<lambda>r. case r of RErr e \<Rightarrow> Raise e | _ \<Rightarrow> Ret ())"

definition redis_set_keepttl :: "string \<Rightarrow> rval \<Rightarrow> unit prog" where
  "redis_set_keepttl k v = Op (RSetKeepTtl k v) (\<lambda>r. case r of RErr e \<Rightarrow> Raise e | _ \<Rightarrow> Ret ())"

definition redis_del :: "string \<Rightarrow> int prog" where
  "redis_del k = Op (RDel k) (\<lambda>r. case r of RInt n \<Rightarrow> Ret n | _ \<Rightarrow> bad_reply r)"

definition redis_exists :: "string \<Rightarrow> int prog" where
  "redis_exists k = Op (RExists k) (\<lambda>r. case r of RInt n \<Rightarrow> Ret n | _ \<Rightarrow> bad_reply r)"

definition redis_ping :: "bool prog" where
  "redis_ping = Op RPing (\<lambda>r. case r of RBool b \<Rightarrow> Ret b | _ \<Rightarrow> bad_reply r)"

definition redis_zcard :: "string \<Rightarrow> int prog" where
  "redis_zcard k = Op (RZcard k) (\<lambda>r. case r of RInt n \<Rightarrow> Ret n | _ \<Rightarrow> bad_reply r)"

definition arq_enqueue :: "string \<Rightarrow> string \<Rightarrow> string \<Rightarrow> string option prog" where
  "arq_enqueue fn arg jid =
     Op (EnqueueJob fn arg jid)
       (\<lambda>r. case r of RNone \<Rightarrow> Ret None | RStr j \<Rightarrow> Ret (Some j) | _ \<Rightarrow> bad_reply r)"

definition utcnow :: "time prog" where
  "utcnow = Op UtcNow (\<lambda>r. case r of RInt t \<Rightarrow> Ret t | _ \<Rightarrow> bad_reply r)"

text \<open>\<open>time.perf_counter()\<close>, in microseconds, and the elapsed milliseconds that are logged
  (\<open>round\<close>, half to even).\<close>

definition perf_counter :: "int prog" where
  "perf_counter = Op PerfCounter (\<lambda>r. case r of RInt t \<Rightarrow> Ret t | _ \<Rightarrow> bad_reply r)"

definition round_div :: "int \<Rightarrow> int \<Rightarrow> int" where
  "round_div a b =
     (let q = a div b; r = a mod b in
      if 2 * r < b \<or> 2 * r = b \<and> even q then q else q + 1)"

definition uuid4 :: "string prog" where
  "uuid4 = Op NewUuid (\<lambda>r. case r of RStr u \<Rightarrow> Ret u | _ \<Rightarrow> bad_reply r)"

definition urandom :: "nat \<Rightarrow> bytes prog" where
  "urandom n = Op (URandom n) (\<lambda>r. case r of RStr b \<Rightarrow> Ret b | _ \<Rightarrow> bad_reply r)"

definition kv_wrap :: "string \<Rightarrow> bytes \<Rightarrow> bytes prog" where
  "kv_wrap kid b = Op (WrapKey kid b) (\<lambda>r. case r of RStr x \<Rightarrow> Ret x | _ \<Rightarrow> bad_reply r)"

definition kv_unwrap :: "string \<Rightarrow> bytes \<Rightarrow> bytes prog" where
  "kv_unwrap kid b = Op (UnwrapKey kid b) (\<lambda>r. case r of RStr x \<Rightarrow> Ret x | _ \<Rightarrow> bad_reply r)"

definition http_send :: "http_req \<Rightarrow> http_resp prog" where
  "http_send q = Op (HttpSend q) (\<lambda>r. case r of RHttp x \<Rightarrow> Ret x | _ \<Rightarrow> bad_reply r)"

definition async_sleep :: "int \<times> int \<Rightarrow> unit prog" where
  "async_sleep d = Op (SleepFor d) (\<lambda>r. case r of RErr e \<Rightarrow> Raise e | _ \<Rightarrow> Ret ())"

definition register_secret_value :: "string \<Rightarrow> unit prog" where
  "register_secret_value v = Op (RegisterSecret v) (\<lambda>_. Ret ())"

definition emit_log :: "log_level \<Rightarrow> string \<Rightarrow> string \<Rightarrow> (string \<times> string) list \<Rightarrow> unit prog" where
  "emit_log lvl ev msg flds = Op (LogLine lvl ev msg flds) (\<lambda>_. Ret ())"

definition modify_ctx :: "(ctx \<Rightarrow> ctx) \<Rightarrow> unit prog" where
  "modify_ctx f = GetCtx (\<lambda>c. SetCtx (f c) (Ret ()))"

lemmas call_defs = redis_get_def redis_set_ex_def redis_set_keepttl_def redis_del_def
  redis_exists_def redis_ping_def redis_zcard_def arq_enqueue_def utcnow_def perf_counter_def uuid4_def urandom_def
  kv_wrap_def kv_unwrap_def http_send_def async_sleep_def register_secret_value_def emit_log_def
  modify_ctx_def bad_reply_def

section \<open>Running a program in a world\<close>

type_synonym 's world = "'s \<Rightarrow> cmd \<Rightarrow> 's \<times> reply"

primrec result_of :: "'s world \<Rightarrow> 'a prog \<Rightarrow> 's \<Rightarrow> ctx \<Rightarrow> exn + 'a" where
  "result_of W (Ret a) s x = Inr a"
| "result_of W (Raise e) s x = Inl e"
| "result_of W (Op c k) s x = result_of W (k (snd (W s c))) (fst (W s c)) x"
| "result_of W (GetCtx k) s x = result_of W (k x) s x"
| "result_of W (SetCtx y p) s x = result_of W p s y"

primrec state_after :: "'s world \<Rightarrow> 'a prog \<Rightarrow> 's \<Rightarrow> ctx \<Rightarrow> 's" where
  "state_after W (Ret a) s x = s"
| "state_after W (Raise e) s x = s"
| "state_after W (Op c k) s x = state_after W (k (snd (W s c))) (fst (W s c)) x"
| "state_after W (GetCtx k) s x = state_after W (k x) s x"
| "state_after W (SetCtx y p) s x = state_after W p s y"

primrec ctx_after :: "'s world \<Rightarrow> 'a prog \<Rightarrow> 's \<Rightarrow> ctx \<Rightarrow> ctx" where
  "ctx_after W (Ret a) s x = x"
| "ctx_after W (Raise e) s x = x"
| "ctx_after W (Op c k) s x = ctx_after W (k (snd (W s c))) (fst (W s c)) x"
| "ctx_after W (GetCtx k) s x = ctx_after W (k x) s x"
| "ctx_after W (SetCtx y p) s x = ctx_after W p s y"

text \<open>The commands issued, in order, each with its reply.\<close>

primrec trace_of :: "'s world \<Rightarrow> 'a prog \<Rightarrow> 's \<Rightarrow> ctx \<Rightarrow> (cmd \<times> reply) list" where
  "trace_of W (Ret a) s x = []"
| "trace_of W (Raise e) s x = []"
| "trace_of W (Op c k) s x = (c, snd (W s c)) # trace_of W (k (snd (W s c))) (fst (W s c)) x"
| "trace_of W (GetCtx k) s x = trace_of W (k x) s x"
| "trace_of W (SetCtx y p) s x = trace_of W p s y"

lemma run_bind [run_simps]:
  "result_of W (bind p f) s x =
     (case result_of W p s x of
        Inl e \<Rightarrow> Inl e
      | Inr a \<Rightarrow> result_of W (f a) (state_after W p s x) (ctx_after W p s x))"
  "state_after W (bind p f) s x =
     (case result_of W p s x of
        Inl e \<Rightarrow> state_after W p s x
      | Inr a \<Rightarrow> state_after W (f a) (state_after W p s x) (ctx_after W p s x))"
  "ctx_after W (bind p f) s x =
     (case result_of W p s x of
        Inl e \<Rightarrow> ctx_after W p s x
      | Inr a \<Rightarrow> ctx_after W (f a) (state_after W p s x) (ctx_after W p s x))"
  "trace_of W (bind p f) s x =
     trace_of W p s x @
     (case result_of W p s x of
        Inl e \<Rightarrow> []
      | Inr a \<Rightarrow> trace_of W (f a) (state_after W p s x) (ctx_after W p s x))"
  by (induction p arbitrary: s x) (auto split: sum.split)

lemma run_catch [run_simps]:
  "result_of W (catch p h) s x =
     (case result_of W p s x of
        Inl e \<Rightarrow> result_of W (h e) (state_after W p s x) (ctx_after W p s x)
      | Inr a \<Rightarrow> Inr a)"
  "state_after W (catch p h) s x =
     (case result_of W p s x of
        Inl e \<Rightarrow> state_after W (h e) (state_after W p s x) (ctx_after W p s x)
      | Inr a \<Rightarrow> state_after W p s x)"
  "ctx_after W (catch p h) s x =
     (case result_of W p s x of
        Inl e \<Rightarrow> ctx_after W (h e) (state_after W p s x) (ctx_after W p s x)
      | Inr a \<Rightarrow> ctx_after W p s x)"
  "trace_of W (catch p h) s x =
     trace_of W p s x @
     (case result_of W p s x of
        Inl e \<Rightarrow> trace_of W (h e) (state_after W p s x) (ctx_after W p s x)
      | Inr a \<Rightarrow> [])"
  by (induction p arbitrary: s x) (auto split: sum.split)

lemma run_lift_result [run_simps]:
  "result_of W (lift_result r) s x = r"
  "state_after W (lift_result r) s x = s"
  "ctx_after W (lift_result r) s x = x"
  "trace_of W (lift_result r) s x = []"
  by (cases r; simp add: lift_result_def)+

lemma run_when_do [run_simps]:
  "result_of W (when_do b p) s x = (if b then result_of W p s x else Inr ())"
  "state_after W (when_do b p) s x = (if b then state_after W p s x else s)"
  "ctx_after W (when_do b p) s x = (if b then ctx_after W p s x else x)"
  by (simp_all add: when_do_def)

lemma result_bind_Inr:
  "result_of W (bind p f) s x = Inr b \<longleftrightarrow>
     (\<exists>a. result_of W p s x = Inr a \<and>
          result_of W (f a) (state_after W p s x) (ctx_after W p s x) = Inr b)"
  by (auto simp: run_simps split: sum.splits)

text \<open>A successful run, as a relation: it decomposes along \<open>bind\<close>.\<close>

definition runs :: "'s world \<Rightarrow> 'a prog \<Rightarrow> 's \<Rightarrow> ctx \<Rightarrow> 'a \<Rightarrow> 's \<Rightarrow> ctx \<Rightarrow> bool" where
  "runs W p s x a s' x' \<longleftrightarrow>
     result_of W p s x = Inr a \<and> state_after W p s x = s' \<and> ctx_after W p s x = x'"

lemma runs_iff: "result_of W p s x = Inr a \<longleftrightarrow> runs W p s x a (state_after W p s x) (ctx_after W p s x)"
  by (simp add: runs_def)

lemma runs_bind:
  "runs W (bind p f) s x b s'' x'' \<longleftrightarrow>
     (\<exists>a s' x'. runs W p s x a s' x' \<and> runs W (f a) s' x' b s'' x'')"
  by (auto simp: runs_def run_simps split: sum.splits)

lemma runs_simps:
  "runs W (Ret a) s x b s' x' \<longleftrightarrow> b = a \<and> s' = s \<and> x' = x"
  "runs W (Raise e) s x b s' x' \<longleftrightarrow> False"
  "runs W (lift_result v) s x b s' x' \<longleftrightarrow> v = Inr b \<and> s' = s \<and> x' = x"
  "runs W (when_do c p) s x u s' x' \<longleftrightarrow> (if c then runs W p s x u s' x' else s' = s \<and> x' = x)"
  "runs W (GetCtx k) s x b s' x' \<longleftrightarrow> runs W (k x) s x b s' x'"
  by (auto simp: runs_def run_simps)

lemmas runs_steps = runs_bind runs_simps

definition fails :: "'s world \<Rightarrow> 'a prog \<Rightarrow> 's \<Rightarrow> ctx \<Rightarrow> exn \<Rightarrow> 's \<Rightarrow> bool" where
  "fails W p s x e s' \<longleftrightarrow> result_of W p s x = Inl e \<and> state_after W p s x = s'"

lemma fails_iff: "result_of W p s x = Inl e \<longleftrightarrow> fails W p s x e (state_after W p s x)"
  by (simp add: fails_def)

lemma fails_bind:
  "fails W (bind p f) s x e s'' \<longleftrightarrow>
     fails W p s x e s'' \<or> (\<exists>a s' x'. runs W p s x a s' x' \<and> fails W (f a) s' x' e s'')"
  by (auto simp: fails_def runs_def run_simps split: sum.splits)

lemma fails_simps:
  "fails W (Ret a) s x e s' \<longleftrightarrow> False"
  "fails W (Raise e') s x e s' \<longleftrightarrow> e = e' \<and> s' = s"
  "fails W (lift_result v) s x e s' \<longleftrightarrow> v = Inl e \<and> s' = s"
  "fails W (when_do c p) s x e s' \<longleftrightarrow> c \<and> fails W p s x e s'"
  "fails W (GetCtx k) s x e s' \<longleftrightarrow> fails W (k x) s x e s'"
  by (auto simp: fails_def run_simps)

lemmas fails_steps = fails_bind fails_simps

lemma bind_assoc [simp]: "bind (bind p f) g = bind p (\<lambda>a. bind (f a) g)"
  by (induction p) (auto simp: fun_eq_iff)

lemma bind_Ret [simp]: "bind p Ret = p"
  by (induction p) (auto simp: fun_eq_iff)

end
