(* ===== verification/World.thy ===== *)
theory World
  imports Effects
begin

text \<open>
  Reasoning about programs: safety against every possible environment, counting of calls, the
  concurrent service (handlers interleaved call by call, processes killed at any point, keys
  expiring), what the code relies on of Redis, and the in-process server that closes the model
  for concrete runs (the role \<^verbatim>\<open>fakeredis\<close> has in \<^verbatim>\<open>tests/\<close>).
\<close>

section \<open>Whatever the environment answers\<close>

text \<open>
  \<open>safe Q E R p\<close>: every command \<open>p\<close> can issue satisfies \<open>Q\<close>, every exception it can end with
  satisfies \<open>E\<close> and every value it can return satisfies \<open>R\<close>, for all replies.
\<close>

primrec safe :: "(cmd \<Rightarrow> bool) \<Rightarrow> (exn \<Rightarrow> bool) \<Rightarrow> ('a \<Rightarrow> bool) \<Rightarrow> 'a prog \<Rightarrow> bool" where
  "safe Q E R (Ret a) = R a"
| "safe Q E R (Raise e) = E e"
| "safe Q E R (Op c k) = (Q c \<and> (\<forall>r. safe Q E R (k r)))"
| "safe Q E R (GetCtx k) = (\<forall>x. safe Q E R (k x))"
| "safe Q E R (SetCtx y p) = safe Q E R p"

lemma safe_bind:
  "safe Q E R p \<Longrightarrow> (\<And>a. R a \<Longrightarrow> safe Q E S (f a)) \<Longrightarrow> safe Q E S (bind p f)"
  by (induction p) auto

lemma safe_catch:
  "safe Q E R p \<Longrightarrow> (\<And>e. E e \<Longrightarrow> safe Q F R (h e)) \<Longrightarrow> safe Q F R (catch p h)"
  by (induction p) auto

lemma safe_mono:
  "safe Q E R p \<Longrightarrow> (\<And>c. Q c \<Longrightarrow> Q' c) \<Longrightarrow> (\<And>e. E e \<Longrightarrow> E' e) \<Longrightarrow> (\<And>a. R a \<Longrightarrow> R' a) \<Longrightarrow>
   safe Q' E' R' p"
  by (induction p) auto

lemma safe_lift_result: "(case x of Inl e \<Rightarrow> E e | Inr a \<Rightarrow> R a) \<Longrightarrow> safe Q E R (lift_result x)"
  by (cases x) (auto simp: lift_result_def)

lemma safe_result:
  "safe Q E R p \<Longrightarrow> (case result_of W p s x of Inl e \<Rightarrow> E e | Inr a \<Rightarrow> R a)"
  by (induction p arbitrary: s x) auto

lemma safe_trace: "safe Q E R p \<Longrightarrow> (c, r) \<in> set (trace_of W p s x) \<Longrightarrow> Q c"
  by (induction p arbitrary: s x) fastforce+

lemma safe_state:
  "safe Q E R p \<Longrightarrow> Inv s \<Longrightarrow> (\<And>s c. Inv s \<Longrightarrow> Q c \<Longrightarrow> Inv (fst (W s c))) \<Longrightarrow>
   Inv (state_after W p s x)"
  by (induction p arbitrary: s x) auto

text \<open>A program that binds no context variable leaves the context alone.\<close>

primrec keeps_ctx :: "'a prog \<Rightarrow> bool" where
  "keeps_ctx (Ret a) = True"
| "keeps_ctx (Raise e) = True"
| "keeps_ctx (Op c k) = (\<forall>r. keeps_ctx (k r))"
| "keeps_ctx (GetCtx k) = (\<forall>x. keeps_ctx (k x))"
| "keeps_ctx (SetCtx y p) = False"

lemma keeps_ctx_bind: "keeps_ctx p \<Longrightarrow> (\<And>a. keeps_ctx (f a)) \<Longrightarrow> keeps_ctx (bind p f)"
  by (induction p) auto

lemma keeps_ctx_catch: "keeps_ctx p \<Longrightarrow> (\<And>e. keeps_ctx (h e)) \<Longrightarrow> keeps_ctx (catch p h)"
  by (induction p) auto

lemma keeps_ctx_after: "keeps_ctx p \<Longrightarrow> ctx_after W p s x = x"
  by (induction p arbitrary: s x) auto

text \<open>\<open>at_most Q n p\<close>: on every path \<open>p\<close> issues at most \<open>n\<close> commands that satisfy \<open>Q\<close>.\<close>

primrec at_most :: "(cmd \<Rightarrow> bool) \<Rightarrow> nat \<Rightarrow> 'a prog \<Rightarrow> bool" where
  "at_most Q n (Ret a) = True"
| "at_most Q n (Raise e) = True"
| "at_most Q n (Op c k) =
     (if Q c then n \<noteq> 0 \<and> (\<forall>r. at_most Q (n - 1) (k r)) else (\<forall>r. at_most Q n (k r)))"
| "at_most Q n (GetCtx k) = (\<forall>x. at_most Q n (k x))"
| "at_most Q n (SetCtx y p) = at_most Q n p"

lemma at_most_mono: "at_most Q m p \<Longrightarrow> m \<le> n \<Longrightarrow> at_most Q n p"
proof (induction p arbitrary: m n)
  case (Op c k)
  have "at_most Q (n - 1) (k r)" if "at_most Q (m - 1) (k r)" for r
    by (rule Op.IH [OF rangeI that diff_le_mono [OF Op.prems(2)]])
  moreover have "at_most Q n (k r)" if "at_most Q m (k r)" for r
    by (rule Op.IH [OF rangeI that Op.prems(2)])
  ultimately show ?case using Op.prems by (simp split: if_splits)
next
  case (GetCtx k)
  have "at_most Q m (k r)" for r using GetCtx.prems(1) by simp
  then have "at_most Q n (k r)" for r by (rule GetCtx.IH [OF rangeI _ GetCtx.prems(2)])
  then show ?case by simp
qed auto

lemma at_most_bind:
  "at_most Q m p \<Longrightarrow> (\<And>a. at_most Q n (f a)) \<Longrightarrow> at_most Q (m + n) (bind p f)"
proof (induction p arbitrary: m)
  case (Ret a)
  show ?case using at_most_mono [OF Ret.prems(2), of "m + n"] by simp
next
  case (Op c k)
  show ?case
  proof (cases "Q c")
    case True
    then obtain m' where m: "m = Suc m'" using Op.prems by (cases m) auto
    with True Op.prems have "\<And>r. at_most Q (m' + n) (bind (k r) f)"
      by (auto intro!: Op.IH)
    with True m show ?thesis by simp
  next
    case False
    with Op show ?thesis by auto
  qed
qed auto

lemma at_most_catch:
  "at_most Q m p \<Longrightarrow> (\<And>e. at_most Q n (h e)) \<Longrightarrow> at_most Q (m + n) (catch p h)"
proof (induction p arbitrary: m)
  case (Raise e)
  show ?case using at_most_mono [OF Raise.prems(2), of "m + n"] by simp
next
  case (Op c k)
  show ?case
  proof (cases "Q c")
    case True
    then obtain m' where m: "m = Suc m'" using Op.prems by (cases m) auto
    with True Op.prems have "\<And>r. at_most Q (m' + n) (catch (k r) h)"
      by (auto intro!: Op.IH)
    with True m show ?thesis by simp
  next
    case False
    with Op show ?thesis by auto
  qed
qed auto

lemma at_most_lift_result [simp]: "at_most Q n (lift_result x)"
  by (cases x) (auto simp: lift_result_def)

lemma at_most_none: "safe (\<lambda>c. \<not> Q c) E R p \<Longrightarrow> at_most Q 0 p"
  by (induction p) auto

lemma at_most_trace:
  "at_most Q n p \<Longrightarrow> length (filter (\<lambda>(c, r). Q c) (trace_of W p s x)) \<le> n"
proof (induction p arbitrary: n s x)
  case (Op c k)
  let ?t = "trace_of W (k (snd (W s c))) (fst (W s c)) x"
  have "length (filter (\<lambda>(c, r). Q c) ?t) \<le> (if Q c then n - 1 else n)"
    using Op.prems by (intro Op.IH) (auto split: if_splits)
  with Op.prems show ?case by (cases n) (auto split: if_splits)
qed auto

section \<open>The concurrent service\<close>

type_synonym proc = "ctx \<times> unit prog"

definition void :: "'a prog \<Rightarrow> unit prog" where
  "void p = bind p (\<lambda>_. Ret ())"

lemma safe_void: "safe Q E R p \<Longrightarrow> safe Q E (\<lambda>_. True) (void p)"
  unfolding void_def by (rule safe_bind) auto

text \<open>One process makes one move.\<close>

fun advance :: "'s world \<Rightarrow> 's \<Rightarrow> proc \<Rightarrow> 's \<times> proc" where
  "advance W s (x, Op c k) = (case W s c of (s', r) \<Rightarrow> (s', (x, k r)))"
| "advance W s (x, GetCtx k) = (s, (x, k x))"
| "advance W s (x, SetCtx y p) = (s, (y, p))"
| "advance W s (x, p) = (s, (x, p))"

text \<open>A schedule names the process that moves next.\<close>

fun schedule :: "'s world \<Rightarrow> nat list \<Rightarrow> 's \<times> proc list \<Rightarrow> 's \<times> proc list" where
  "schedule W [] conf = conf"
| "schedule W (i # sched) (s, ps) =
     (if i < length ps
      then (case advance W s (ps ! i) of (s', p') \<Rightarrow> schedule W sched (s', ps[i := p']))
      else schedule W sched (s, ps))"

text \<open>
  The service: from an initial state, requests and jobs start at any time (any program of \<open>P\<close>),
  processes move in any order, a process can die after any call, and the environment moves on its
  own (\<open>Env\<close>: time passes and keys expire, other clients of the same server write).
\<close>

inductive service_run ::
    "'s world \<Rightarrow> ('s \<Rightarrow> 's \<Rightarrow> bool) \<Rightarrow> unit prog set \<Rightarrow> 's \<Rightarrow> 's \<times> proc list \<Rightarrow> bool"
  for W Env P s0 where
  start: "service_run W Env P s0 (s0, [])"
| spawn: "service_run W Env P s0 (s, ps) \<Longrightarrow> p \<in> P \<Longrightarrow> service_run W Env P s0 (s, ps @ [(x, p)])"
| move: "service_run W Env P s0 (s, ps) \<Longrightarrow> i < length ps \<Longrightarrow> advance W s (ps ! i) = (s', p') \<Longrightarrow>
    service_run W Env P s0 (s', ps[i := p'])"
| die: "service_run W Env P s0 (s, ps) \<Longrightarrow> i < length ps \<Longrightarrow>
    service_run W Env P s0 (s, ps[i := (x, Raise (OtherError ''killed''))])"
| env: "service_run W Env P s0 (s, ps) \<Longrightarrow> Env s s' \<Longrightarrow> service_run W Env P s0 (s', ps)"

lemmas service_induct = service_run.induct [split_format (complete)]

inductive_cases service_move: "service_run W Env P s0 (s, ps)"

lemma advance_safe:
  assumes "advance W s (x, p) = (s', (x', p'))" "safe Q (\<lambda>_. True) (\<lambda>_. True) p"
  shows "safe Q (\<lambda>_. True) (\<lambda>_. True) p' \<and> (s' = s \<or> (\<exists>c. Q c \<and> s' = fst (W s c)))"
  using assms by (cases p) (auto split: prod.splits intro: fst_conv [symmetric])

text \<open>
  The proof rule for invariants of the shared state: it is enough that every command the handlers
  can issue keeps the invariant, and so does the environment.
\<close>

lemma service_invariant:
  assumes "service_run W Env P s0 (s, ps)"
    and "Inv s0"
    and "\<And>p. p \<in> P \<Longrightarrow> safe Q (\<lambda>_. True) (\<lambda>_. True) p"
    and "\<And>s c. Inv s \<Longrightarrow> Q c \<Longrightarrow> Inv (fst (W s c))"
    and "\<And>s s'. Inv s \<Longrightarrow> Env s s' \<Longrightarrow> Inv s'"
  shows "Inv s"
proof -
  let ?ok = "\<lambda>ps. \<forall>(x, p) \<in> set ps. safe Q (\<lambda>_. True) (\<lambda>_. True) (p :: unit prog)"
  from assms(1) have "Inv s \<and> ?ok ps"
  proof (induction rule: service_induct)
    case start
    then show ?case using assms(2) by simp
  next
    case (spawn s ps p x)
    then show ?case using assms(3) by auto
  next
    case (move s ps i s' x' q)
    obtain x p where xp: "ps ! i = (x, p)" by fastforce
    have "safe Q (\<lambda>_. True) (\<lambda>_. True) p" using move xp nth_mem by fastforce
    with move xp have "safe Q (\<lambda>_. True) (\<lambda>_. True) q \<and> (s' = s \<or> (\<exists>c. Q c \<and> s' = fst (W s c)))"
      by (intro advance_safe) auto
    with move assms(4) show ?case
      by (auto dest!: set_update_subset_insert [THEN subsetD])
  next
    case (die s ps i x)
    then show ?case by (auto dest!: set_update_subset_insert [THEN subsetD])
  next
    case (env s ps s')
    then show ?case using assms(5) by blast
  qed
  then show ?thesis by blast
qed

text \<open>A process that runs alone computes what \<open>result_of\<close> and \<open>state_after\<close> say.\<close>

lemma schedule_append:
  "schedule W (xs @ ys) conf = schedule W ys (schedule W xs conf)"
  by (induction W xs conf rule: schedule.induct) (auto split: prod.splits)

lemma schedule_alone:
  "\<exists>n. schedule W (replicate n 0) (s, [(x, p)]) =
     (state_after W p s x, [(ctx_after W p s x, lift_result (result_of W p s x))])"
proof (induction p arbitrary: s x)
  case (Ret a)
  then show ?case by (intro exI [of _ 0]) (simp add: lift_result_def)
next
  case (Raise e)
  then show ?case by (intro exI [of _ 0]) (simp add: lift_result_def)
next
  case (Op c k)
  obtain s' r where sr: "W s c = (s', r)" by fastforce
  from Op.IH [of "k r" s' x] obtain n where
    "schedule W (replicate n 0) (s', [(x, k r)]) =
       (state_after W (k r) s' x, [(ctx_after W (k r) s' x, lift_result (result_of W (k r) s' x))])"
    by auto
  with sr show ?case by (intro exI [of _ "Suc n"]) simp
next
  case (GetCtx k)
  from GetCtx.IH [of "k x" s x] obtain n where
    "schedule W (replicate n 0) (s, [(x, k x)]) =
       (state_after W (k x) s x, [(ctx_after W (k x) s x, lift_result (result_of W (k x) s x))])"
    by auto
  then show ?case by (intro exI [of _ "Suc n"]) simp
next
  case (SetCtx y p)
  from SetCtx.IH [of s y] obtain n where
    "schedule W (replicate n 0) (s, [(y, p)]) =
       (state_after W p s y, [(ctx_after W p s y, lift_result (result_of W p s y))])"
    by auto
  then show ?case by (intro exI [of _ "Suc n"]) simp
qed

section \<open>Redis\<close>

text \<open>A command that writes the key space.\<close>

fun writes :: "cmd \<Rightarrow> bool" where
  "writes (RSetEx k v t) = True"
| "writes (RSetKeepTtl k v) = True"
| "writes (RDel k) = True"
| "writes _ = False"

text \<open>
  What the code relies on of a reachable Redis server, after the documentation of \<open>GET\<close>,
  \<open>SET EX\<close>, \<open>SET KEEPTTL\<close>, \<open>DEL\<close> and \<open>EXISTS\<close>. \<open>look s k\<close> is the value under \<open>k\<close>
  with its remaining life in seconds (\<open>None\<close>: no expiry). Keys do not expire in the middle of a
  command sequence to which these laws are applied; expiry between handlers is a step of the
  environment.
\<close>

locale redis_server =
  fixes W :: "'s \<Rightarrow> cmd \<Rightarrow> 's \<times> reply"
    and look :: "'s \<Rightarrow> string \<Rightarrow> (rval \<times> int option) option"
  assumes get_reply:
      "snd (W s (RGet k)) = (case look s k of None \<Rightarrow> RNone | Some (v, _) \<Rightarrow> RVal v)"
    and exists_reply: "snd (W s (RExists k)) = RInt (if look s k = None then 0 else 1)"
    and del_reply: "snd (W s (RDel k)) = RInt (if look s k = None then 0 else 1)"
    and set_ex_reply: "0 < t \<Longrightarrow> snd (W s (RSetEx k v t)) = RBool True"
    and set_keepttl_reply: "snd (W s (RSetKeepTtl k v)) = RBool True"
    and look_set_ex: "0 < t \<Longrightarrow> look (fst (W s (RSetEx k v t))) = (look s)(k \<mapsto> (v, Some t))"
    and look_set_keepttl:
      "look (fst (W s (RSetKeepTtl k v))) = (look s)(k \<mapsto> (v, Option.bind (look s k) snd))"
    and look_del: "look (fst (W s (RDel k))) = (look s)(k := None)"
    and look_other: "\<not> writes c \<Longrightarrow> look (fst (W s c)) = look s"
begin

lemmas redis_laws = get_reply exists_reply del_reply set_ex_reply set_keepttl_reply
  look_set_ex look_set_keepttl look_del

lemma look_reads [simp]:
  "look (fst (W s (RGet k))) = look s" "look (fst (W s (RExists k))) = look s"
  "look (fst (W s RPing)) = look s" "look (fst (W s (RZcard k))) = look s"
  "look (fst (W s (EnqueueJob f a j))) = look s" "look (fst (W s UtcNow)) = look s"
  "look (fst (W s PerfCounter)) = look s"
  "look (fst (W s NewUuid)) = look s" "look (fst (W s (URandom n))) = look s"
  "look (fst (W s (WrapKey i b))) = look s" "look (fst (W s (UnwrapKey i b))) = look s"
  "look (fst (W s (HttpSend q))) = look s" "look (fst (W s (SleepFor d))) = look s"
  "look (fst (W s (RegisterSecret v))) = look s"
  "look (fst (W s (LogLine l e m fs))) = look s"
  by (simp_all add: look_other)

lemma look_unchanged:
  assumes "safe (\<lambda>c. \<not> writes c) E R p"
  shows "look (state_after W p s x) = look s"
  by (rule safe_state [OF assms, where Inv = "\<lambda>t. look t = look s"]) (simp_all add: look_other)

lemma run_redis_get:
  "result_of W (redis_get k) s x = Inr (map_option fst (look s k))"
  "look (state_after W (redis_get k) s x) = look s"
  "ctx_after W (redis_get k) s x = x"
  by (auto simp: redis_get_def get_reply split: option.splits reply.splits)

lemma run_redis_set_ex:
  "0 < t \<Longrightarrow> result_of W (redis_set_ex k v t) s x = Inr ()"
  "0 < t \<Longrightarrow> look (state_after W (redis_set_ex k v t) s x) = (look s)(k \<mapsto> (v, Some t))"
  "ctx_after W (redis_set_ex k v t) s x = x"
  by (simp_all add: redis_set_ex_def redis_laws split: reply.split)

lemma run_redis_set_keepttl:
  "result_of W (redis_set_keepttl k v) s x = Inr ()"
  "look (state_after W (redis_set_keepttl k v) s x) = (look s)(k \<mapsto> (v, Option.bind (look s k) snd))"
  "ctx_after W (redis_set_keepttl k v) s x = x"
  by (simp_all add: redis_set_keepttl_def redis_laws split: reply.split)

lemma run_redis_del:
  "result_of W (redis_del k) s x = Inr (if look s k = None then 0 else 1)"
  "look (state_after W (redis_del k) s x) = (look s)(k := None)"
  "ctx_after W (redis_del k) s x = x"
  by (simp_all add: redis_del_def redis_laws)

lemma run_redis_exists:
  "result_of W (redis_exists k) s x = Inr (if look s k = None then 0 else 1)"
  "look (state_after W (redis_exists k) s x) = look s"
  "ctx_after W (redis_exists k) s x = x"
  by (simp_all add: redis_exists_def redis_laws)

lemma run_log:
  "result_of W (emit_log l e m f) s x = Inr ()"
  "look (state_after W (emit_log l e m f) s x) = look s"
  "ctx_after W (emit_log l e m f) s x = x"
  by (simp_all add: emit_log_def)

lemma run_register_secret:
  "result_of W (register_secret_value v) s x = Inr ()"
  "look (state_after W (register_secret_value v) s x) = look s"
  "ctx_after W (register_secret_value v) s x = x"
  by (simp_all add: register_secret_value_def)

lemma run_modify_ctx:
  "result_of W (modify_ctx f) s x = Inr ()"
  "state_after W (modify_ctx f) s x = s"
  "ctx_after W (modify_ctx f) s x = f x"
  by (simp_all add: modify_ctx_def)

lemmas run_calls = run_redis_get run_redis_set_ex run_redis_set_keepttl run_redis_del
  run_redis_exists run_log run_register_secret run_modify_ctx

end

text \<open>The clocks and the UUID generator of the standard library always answer.\<close>

locale platform = redis_server W look
  for W :: "'s \<Rightarrow> cmd \<Rightarrow> 's \<times> reply" and look :: "'s \<Rightarrow> string \<Rightarrow> (rval \<times> int option) option" +
  assumes clock_reply: "\<exists>t. snd (W s UtcNow) = RInt t"
    and perf_reply: "\<exists>t. snd (W s PerfCounter) = RInt t"
    and uuid_reply: "\<exists>u. snd (W s NewUuid) = RStr u"
begin

lemma run_utcnow:
  "\<exists>t. result_of W utcnow s x = Inr t" "look (state_after W utcnow s x) = look s"
  "ctx_after W utcnow s x = x"
proof -
  obtain t where "snd (W s UtcNow) = RInt t" using clock_reply by blast
  then show "\<exists>t. result_of W utcnow s x = Inr t" "look (state_after W utcnow s x) = look s"
    "ctx_after W utcnow s x = x" by (simp_all add: utcnow_def)
qed

lemma run_perf_counter:
  "\<exists>t. result_of W perf_counter s x = Inr t" "look (state_after W perf_counter s x) = look s"
  "ctx_after W perf_counter s x = x"
proof -
  obtain t where "snd (W s PerfCounter) = RInt t" using perf_reply by blast
  then show "\<exists>t. result_of W perf_counter s x = Inr t"
    "look (state_after W perf_counter s x) = look s"
    "ctx_after W perf_counter s x = x" by (simp_all add: perf_counter_def)
qed

lemma clocks_answer [simp]:
  "result_of W utcnow s x \<noteq> Inl e" "result_of W perf_counter s x \<noteq> Inl e"
  using run_utcnow(1) [of s x] run_perf_counter(1) [of s x] by auto

lemma run_uuid4:
  "\<exists>u. result_of W uuid4 s x = Inr u" "look (state_after W uuid4 s x) = look s"
  "ctx_after W uuid4 s x = x"
proof -
  obtain u where "snd (W s NewUuid) = RStr u" using uuid_reply by blast
  then show "\<exists>u. result_of W uuid4 s x = Inr u" "look (state_after W uuid4 s x) = look s"
    "ctx_after W uuid4 s x = x" by (simp_all add: uuid4_def)
qed

end

section \<open>The in-process server\<close>

text \<open>
  A concrete world for witnesses: a Redis key space, a clock, a supply of UUIDs, a queue, an
  invertible stand-in for the Key Vault wrap, and a script of answers of the target system.
\<close>

record mem =
  mem_keys :: "string \<Rightarrow> (rval \<times> int option) option"
  mem_clock :: int
  mem_uuids :: nat
  mem_queue :: "string list"
  mem_http :: "reply list"
  mem_secrets :: "string list"

definition mem_empty :: mem where
  "mem_empty = \<lparr>mem_keys = (\<lambda>_. None), mem_clock = 0, mem_uuids = 0, mem_queue = [],
                mem_http = [], mem_secrets = []\<rparr>"

fun mem_world :: "mem \<Rightarrow> cmd \<Rightarrow> mem \<times> reply" where
  "mem_world m (RGet k) = (m, case mem_keys m k of None \<Rightarrow> RNone | Some (v, _) \<Rightarrow> RVal v)"
| "mem_world m (RSetEx k v t) =
     (if 0 < t then (m\<lparr>mem_keys := (mem_keys m)(k \<mapsto> (v, Some t))\<rparr>, RBool True)
      else (m, RErr (RedisError ''ResponseError'')))"
| "mem_world m (RSetKeepTtl k v) =
     (m\<lparr>mem_keys := (mem_keys m)(k \<mapsto> (v, Option.bind (mem_keys m k) snd))\<rparr>, RBool True)"
| "mem_world m (RDel k) =
     (m\<lparr>mem_keys := (mem_keys m)(k := None)\<rparr>, RInt (if mem_keys m k = None then 0 else 1))"
| "mem_world m (RExists k) = (m, RInt (if mem_keys m k = None then 0 else 1))"
| "mem_world m RPing = (m, RBool True)"
| "mem_world m (RZcard k) = (m, RInt (int (length (mem_queue m))))"
| "mem_world m (EnqueueJob fn arg jid) =
     (if jid \<in> set (mem_queue m) then (m, RNone)
      else (m\<lparr>mem_queue := mem_queue m @ [jid]\<rparr>, RStr jid))"
| "mem_world m UtcNow = (m, RInt (mem_clock m))"
| "mem_world m PerfCounter = (m, RInt (mem_clock m))"
| "mem_world m NewUuid =
     (m\<lparr>mem_uuids := Suc (mem_uuids m)\<rparr>, RStr (''uuid-'' @ show_nat (mem_uuids m)))"
| "mem_world m (URandom n) = (m, RStr (replicate n CHR ''R''))"
| "mem_world m (WrapKey kid b) = (m, RStr (CHR ''w'' # b))"
| "mem_world m (UnwrapKey kid b) =
     (m, case b of [] \<Rightarrow> RErr (OtherError ''HttpResponseError'') | _ # b' \<Rightarrow> RStr b')"
| "mem_world m (HttpSend q) =
     (case mem_http m of
        [] \<Rightarrow> (m, RErr (HttpxError ''ConnectError''))
      | r # rs \<Rightarrow> (m\<lparr>mem_http := rs\<rparr>, r))"
| "mem_world m (SleepFor d) = (m, RNone)"
| "mem_world m (RegisterSecret v) = (m\<lparr>mem_secrets := v # mem_secrets m\<rparr>, RNone)"
| "mem_world m (LogLine l e t f) = (m, RNone)"

lemma redis_server_mem: "redis_server mem_world mem_keys"
proof
  fix s c
  show "\<not> writes c \<Longrightarrow> mem_keys (fst (mem_world s c)) = mem_keys s"
    by (cases c) (auto split: list.split)
qed auto

lemma platform_mem: "platform mem_world mem_keys"
  by (intro platform.intro redis_server_mem platform_axioms.intro) auto

interpretation mem: platform mem_world mem_keys
  by (rule platform_mem)

end
