(* ===== verification/Correlation.thy ===== *)
theory Correlation
  imports World
begin

text \<open>
  \<^verbatim>\<open>app/observability/correlation.py\<close>: the correlation id carried by context variables, the
  headers of downstream calls, the scoped binding used by the worker, and the ASGI middleware that
  binds the ids of a request and echoes \<^verbatim>\<open>X-Correlation-Id\<close>.
\<close>

definition correlation_header :: string where
  "correlation_header = ''X-Correlation-Id''"

definition new_id :: "string prog" where
  "new_id = uuid4"

definition set_correlation_id :: "string option \<Rightarrow> unit prog" where
  "set_correlation_id c = modify_ctx (\<lambda>x. x\<lparr>cx_correlation_id := c\<rparr>)"

definition set_job_id :: "string \<Rightarrow> unit prog" where
  "set_job_id j = modify_ctx (\<lambda>x. x\<lparr>cx_job_id := Some j\<rparr>)"

definition set_action_id :: "string \<Rightarrow> unit prog" where
  "set_action_id a = modify_ctx (\<lambda>x. x\<lparr>cx_action_id := Some a\<rparr>)"

definition set_consumer_id :: "string \<Rightarrow> unit prog" where
  "set_consumer_id c = modify_ctx (\<lambda>x. x\<lparr>cx_consumer_id := Some c\<rparr>)"

definition current_correlation_id :: "string prog" where
  "current_correlation_id =
     GetCtx (\<lambda>x. case cx_correlation_id x of
       Some cid \<Rightarrow> Ret cid
     | None \<Rightarrow> bind new_id (\<lambda>cid. bind (set_correlation_id (Some cid)) (\<lambda>_. Ret cid)))"

definition downstream_headers :: "(string \<times> string) list prog" where
  "downstream_headers =
     bind current_correlation_id (\<lambda>cid. Ret [(correlation_header, cid)])"

section \<open>Scoped binding\<close>

text \<open>The variables to bind: \<open>None\<close> leaves a variable alone.\<close>

record bindings =
  bd_correlation_id :: "string option"
  bd_request_id :: "string option"
  bd_job_id :: "string option"
  bd_action_id :: "string option"
  bd_consumer_id :: "string option"

definition override :: "'a option \<Rightarrow> 'a option \<Rightarrow> 'a option" where
  "override new old = (case new of None \<Rightarrow> old | Some _ \<Rightarrow> new)"

definition apply_bindings :: "bindings \<Rightarrow> ctx \<Rightarrow> ctx" where
  "apply_bindings b x =
     x\<lparr>cx_correlation_id := override (bd_correlation_id b) (cx_correlation_id x),
       cx_request_id := override (bd_request_id b) (cx_request_id x),
       cx_job_id := override (bd_job_id b) (cx_job_id x),
       cx_action_id := override (bd_action_id b) (cx_action_id x),
       cx_consumer_id := override (bd_consumer_id b) (cx_consumer_id x)\<rparr>"

text \<open>\<open>var.reset(token)\<close> for each variable that was bound: its value before the block.\<close>

definition reset_bindings :: "bindings \<Rightarrow> ctx \<Rightarrow> ctx \<Rightarrow> ctx" where
  "reset_bindings b old x =
     x\<lparr>cx_correlation_id :=
         (if bd_correlation_id b = None then cx_correlation_id x else cx_correlation_id old),
       cx_request_id := (if bd_request_id b = None then cx_request_id x else cx_request_id old),
       cx_job_id := (if bd_job_id b = None then cx_job_id x else cx_job_id old),
       cx_action_id := (if bd_action_id b = None then cx_action_id x else cx_action_id old),
       cx_consumer_id := (if bd_consumer_id b = None then cx_consumer_id x else cx_consumer_id old)\<rparr>"

definition bound_context :: "bindings \<Rightarrow> 'a prog \<Rightarrow> 'a prog" where
  "bound_context b p =
     GetCtx (\<lambda>old. SetCtx (apply_bindings b old)
       (finally_do p (modify_ctx (reset_bindings b old))))"

section \<open>The middleware\<close>

record 'b asgi_response =
  rs_status :: int
  rs_headers :: "(string \<times> string) list"
  rs_body :: 'b

record asgi_scope =
  sc_type :: string
  sc_method :: string
  sc_path :: string
  sc_headers :: "(string \<times> string) list"

text \<open>The dict comprehension over the raw headers: names in lower case, the last one wins.\<close>

definition lower_headers :: "(string \<times> string) list \<Rightarrow> string \<rightharpoonup> string" where
  "lower_headers hs = map_of (rev (map (\<lambda>(k, v). (lower k, v)) hs))"

definition echo_header ::
    "string \<Rightarrow> string option \<Rightarrow> 'b asgi_response \<Rightarrow> 'b asgi_response" where
  "echo_header cid bound r =
     r\<lparr>rs_headers :=
         filter (\<lambda>(k, v). lower k \<noteq> lower correlation_header) (rs_headers r) @
         [(correlation_header, case bound of Some c \<Rightarrow> if c = [] then cid else c | None \<Rightarrow> cid)]\<rparr>"

definition access_log :: "asgi_scope \<Rightarrow> int \<Rightarrow> int option \<Rightarrow> unit prog" where
  "access_log sc started status =
     when_do (sc_path sc \<noteq> ''/health/live'')
       (bind perf_counter (\<lambda>now.
        let tenths = round_div (now - started) 100 in
        emit_log INFO ''http_request'' (sc_method sc @ '' '' @ sc_path sc)
          [(''duration_ms'', show_int (tenths div 10) @ ''.'' @ show_int (tenths mod 10)),
           (''status'', case status of Some n \<Rightarrow> show_int n | None \<Rightarrow> ''null'')]))"

definition reset_request :: "ctx \<Rightarrow> ctx \<Rightarrow> ctx" where
  "reset_request old x =
     x\<lparr>cx_request_id := cx_request_id old, cx_from_header := cx_from_header old,
       cx_correlation_id := cx_correlation_id old\<rparr>"

definition correlation_middleware ::
    "asgi_scope \<Rightarrow> 'b asgi_response prog \<Rightarrow> 'b asgi_response prog" where
  "correlation_middleware sc app =
     (if sc_type sc \<noteq> ''http'' then app
      else
        (let supplied = lower_headers (sc_headers sc) (lower correlation_header) in
         bind (case supplied of Some h \<Rightarrow> if h = [] then new_id else Ret h | None \<Rightarrow> new_id) (\<lambda>cid.
         GetCtx (\<lambda>old.
         bind new_id (\<lambda>rid.
         SetCtx (old\<lparr>cx_correlation_id := Some cid, cx_from_header := (supplied \<noteq> None),
                     cx_request_id := Some rid\<rparr>)
          (bind perf_counter (\<lambda>started.
           (catch
             (bind app (\<lambda>r.
              GetCtx (\<lambda>x.
              bind (access_log sc started (Some (rs_status r))) (\<lambda>_.
              bind (modify_ctx (reset_request old)) (\<lambda>_.
              Ret (echo_header cid (cx_correlation_id x) r))))))
             (\<lambda>e.
              bind (access_log sc started None) (\<lambda>_.
              bind (modify_ctx (reset_request old)) (\<lambda>_.
              Raise e)))))))))))"

section \<open>Facts\<close>

lemma run_set_ctx [run_simps]:
  "result_of W (set_correlation_id c) s x = Inr ()"
  "state_after W (set_correlation_id c) s x = s"
  "ctx_after W (set_correlation_id c) s x = x\<lparr>cx_correlation_id := c\<rparr>"
  "result_of W (set_job_id j) s x = Inr ()" "state_after W (set_job_id j) s x = s"
  "ctx_after W (set_job_id j) s x = x\<lparr>cx_job_id := Some j\<rparr>"
  "result_of W (set_action_id a) s x = Inr ()" "state_after W (set_action_id a) s x = s"
  "ctx_after W (set_action_id a) s x = x\<lparr>cx_action_id := Some a\<rparr>"
  "result_of W (set_consumer_id i) s x = Inr ()" "state_after W (set_consumer_id i) s x = s"
  "ctx_after W (set_consumer_id i) s x = x\<lparr>cx_consumer_id := Some i\<rparr>"
  by (simp_all add: set_correlation_id_def set_job_id_def set_action_id_def set_consumer_id_def
      modify_ctx_def)

lemma trace_set_ctx [run_simps]:
  "trace_of W (set_correlation_id c) s x = []" "trace_of W (set_job_id j) s x = []"
  "trace_of W (set_action_id a) s x = []" "trace_of W (set_consumer_id i) s x = []"
  by (simp_all add: set_correlation_id_def set_job_id_def set_action_id_def set_consumer_id_def
      modify_ctx_def)

lemma current_correlation_id_bound:
  "cx_correlation_id x = Some c \<Longrightarrow>
   result_of W current_correlation_id s x = Inr c \<and> state_after W current_correlation_id s x = s \<and>
   ctx_after W current_correlation_id s x = x \<and> trace_of W current_correlation_id s x = []"
  by (simp add: current_correlation_id_def)

text \<open>Once an id has been read it stays bound, and reading it again gives the same.\<close>

lemma current_correlation_id_stable:
  "result_of W current_correlation_id s x = Inr c \<Longrightarrow>
   cx_correlation_id (ctx_after W current_correlation_id s x) = Some c"
  by (auto simp: current_correlation_id_def run_simps split: option.splits sum.splits)

lemma safe_modify_ctx [simp]: "safe Q E R (modify_ctx f) \<longleftrightarrow> R ()"
  by (simp add: modify_ctx_def)

lemma safe_emit_log: "Q (LogLine l e m f) \<Longrightarrow> R () \<Longrightarrow> safe Q E R (emit_log l e m f)"
  by (simp add: emit_log_def)

lemma bound_context_restores:
  "cx_job_id (ctx_after W (bound_context b p) s x) =
     (if bd_job_id b = None then cx_job_id (ctx_after W p s (apply_bindings b x)) else cx_job_id x)"
  "cx_correlation_id (ctx_after W (bound_context b p) s x) =
     (if bd_correlation_id b = None then cx_correlation_id (ctx_after W p s (apply_bindings b x))
      else cx_correlation_id x)"
  "cx_consumer_id (ctx_after W (bound_context b p) s x) =
     (if bd_consumer_id b = None then cx_consumer_id (ctx_after W p s (apply_bindings b x))
      else cx_consumer_id x)"
  by (auto simp: bound_context_def finally_do_def run_simps modify_ctx_def reset_bindings_def
      split: sum.split)

lemma run_bound_context [run_simps]:
  "result_of W (bound_context b p) s x = result_of W p s (apply_bindings b x)"
  "state_after W (bound_context b p) s x = state_after W p s (apply_bindings b x)"
  by (auto simp: bound_context_def finally_do_def run_simps modify_ctx_def split: sum.split)

text \<open>
  The middleware leaves no trace of the request behind in the context: whatever the application
  does, the three variables it binds have their old values afterwards.
\<close>

context platform
begin

lemma ctx_new_id: "ctx_after W new_id s x = x"
  by (simp add: new_id_def run_uuid4)

lemma run_access_log:
  "result_of W (access_log sc started n) s x = Inr ()"
  "ctx_after W (access_log sc started n) s x = x"
proof -
  obtain t where "result_of W perf_counter s x = Inr t" using run_perf_counter(1) by blast
  then show "result_of W (access_log sc started n) s x = Inr ()"
    "ctx_after W (access_log sc started n) s x = x"
    by (simp_all add: access_log_def run_simps Let_def run_log run_perf_counter(3))
qed

lemma middleware_restores_context:
  assumes "sc_type sc = ''http''"
  shows "reset_request x (ctx_after W (correlation_middleware sc app) s x) =
         ctx_after W (correlation_middleware sc app) s x"
  using assms
  by (auto simp: correlation_middleware_def Let_def run_simps ctx_new_id run_access_log
      run_perf_counter(3) modify_ctx_def reset_request_def split: sum.split option.split)

end

end
