(* ===== verification/Logging.thy ===== *)
theory Logging
  imports Correlation
begin

text \<open>
  \<^verbatim>\<open>app/observability/logging.py\<close>: the registry of secrets, redaction of the serialized line,
  the JSON formatter, and the way the standard library builds a log record from \<open>extra\<close>. The
  registry is a process-wide set; it is the list of its members in the order Python happens to
  iterate it, and the facts hold for every order.
\<close>

definition redacted :: string where
  "redacted = ''[REDACTED]''"

definition min_secret_len :: nat where
  "min_secret_len = 6"

definition registrable :: "string option \<Rightarrow> bool" where
  "registrable v = (case v of None \<Rightarrow> False | Some s \<Rightarrow> s \<noteq> [] \<and> min_secret_len \<le> length s)"

definition register_secret :: "string option \<Rightarrow> unit prog" where
  "register_secret v =
     (case v of Some s \<Rightarrow> when_do (registrable v) (register_secret_value s) | None \<Rightarrow> Ret ())"

text \<open>The registry itself: \<open>_secrets.add(value)\<close>, and the scrubbing of one line.\<close>

definition add_secret :: "string option \<Rightarrow> string list \<Rightarrow> string list" where
  "add_secret v secrets = (if registrable v then List.insert (the v) secrets else secrets)"

definition redact_one :: "string \<Rightarrow> string \<Rightarrow> string" where
  "redact_one secret t = (if sublist secret t then replace_all secret redacted t else t)"

definition redact :: "string list \<Rightarrow> string \<Rightarrow> string" where
  "redact secrets t = foldl (\<lambda>t secret. redact_one secret t) t secrets"

section \<open>The formatter\<close>

record log_record =
  lr_level :: log_level
  lr_message :: string
  lr_extra :: "(string \<times> json) list"
  lr_exc_text :: "string option"

definition level_name :: "log_level \<Rightarrow> string" where
  "level_name l = (case l of INFO \<Rightarrow> ''INFO'' | WARNING \<Rightarrow> ''WARNING'' | ERROR \<Rightarrow> ''ERROR'')"

text \<open>\<open>getattr(record, k, None) or var.get()\<close>\<close>

definition attr_or :: "string \<Rightarrow> log_record \<Rightarrow> string option \<Rightarrow> json" where
  "attr_or k r var =
     (let a = dget k (lr_extra r) in
      if truthy a then a else (case var of Some s \<Rightarrow> JStr s | None \<Rightarrow> JNull))"

fun split_lines :: "string \<Rightarrow> string list" where
  "split_lines [] = [[]]"
| "split_lines (c # s) =
     (if of_char c \<in> {10::nat, 11, 12, 13, 28, 29, 30, 133} then [] # split_lines s
      else (case split_lines s of l # ls \<Rightarrow> (c # l) # ls | [] \<Rightarrow> [[c]]))"

definition exception_line :: "string \<Rightarrow> string" where
  "exception_line t = join '' | '' (filter (\<lambda>l. l \<noteq> []) (split_lines t))"

text \<open>The canonical fields, in the order the formatter writes them.\<close>

definition log_payload ::
    "string \<Rightarrow> string \<Rightarrow> string \<Rightarrow> string \<Rightarrow> log_record \<Rightarrow> ctx \<Rightarrow> dict" where
  "log_payload timestamp svc domain env r x =
     [(''timestamp'', JStr timestamp), (''level'', JStr (level_name (lr_level r))),
      (''service'', JStr svc), (''domain'', JStr domain), (''env'', JStr env),
      (''correlation_id'', attr_or ''correlation_id'' r (cx_correlation_id x)),
      (''request_id'', attr_or ''request_id'' r (cx_request_id x)),
      (''job_id'', attr_or ''job_id'' r (cx_job_id x)),
      (''action_id'', attr_or ''action_id'' r (cx_action_id x)),
      (''consumer_id'', attr_or ''consumer_id'' r (cx_consumer_id x)),
      (''event'', dget ''event'' (lr_extra r)),
      (''duration_ms'', dget ''duration_ms'' (lr_extra r)),
      (''status'', dget ''status'' (lr_extra r)),
      (''message'', JStr (lr_message r))] @
     (case lr_exc_text r of None \<Rightarrow> [] | Some t \<Rightarrow> [(''exception'', JStr (exception_line t))])"

definition format_record ::
    "string list \<Rightarrow> string \<Rightarrow> string \<Rightarrow> string \<Rightarrow> string \<Rightarrow> log_record \<Rightarrow> ctx \<Rightarrow> string" where
  "format_record secrets timestamp svc domain env r x =
     redact secrets (dumps '','' '':'' (JObj (log_payload timestamp svc domain env r x)))"

text \<open>\<open>configure_logging\<close> registers every API key.\<close>

definition startup_secrets :: "settings \<Rightarrow> string list" where
  "startup_secrets cfg = foldl (\<lambda>ss (c, key). add_secret (Some key) ss) [] (cf_api_keys cfg)"

text \<open>The same as a program: each key is sent to the registry, in order.\<close>

definition register_api_keys :: "settings \<Rightarrow> unit prog" where
  "register_api_keys cfg = foldr (\<lambda>(c, key) p. bind (register_secret (Some key)) (\<lambda>_. p)) (cf_api_keys cfg) (Ret ())"

text \<open>
  \<open>Logger.makeRecord\<close> of the standard library: an \<open>extra\<close> that would overwrite \<open>message\<close>,
  \<open>asctime\<close> or an attribute the record already has is a \<open>KeyError\<close>.
\<close>

definition record_attributes :: "string list" where
  "record_attributes =
     [''name'', ''msg'', ''args'', ''levelname'', ''levelno'', ''pathname'', ''filename'', ''module'',
      ''exc_info'', ''exc_text'', ''stack_info'', ''lineno'', ''funcName'', ''created'', ''msecs'',
      ''relativeCreated'', ''thread'', ''threadName'', ''processName'', ''process'', ''taskName'']"

definition reserved :: "string \<Rightarrow> bool" where
  "reserved k \<longleftrightarrow> k \<in> set (''message'' # ''asctime'' # record_attributes)"

definition make_record ::
    "log_level \<Rightarrow> string \<Rightarrow> (string \<times> json) list \<Rightarrow> exn + log_record" where
  "make_record lvl msg extra =
     (case List.find (\<lambda>(k, v). reserved k) extra of
        Some (k, v) \<Rightarrow> Inl (KeyError (''Attempt to overwrite '' @ k @ '' in LogRecord''))
      | None \<Rightarrow> Inr \<lparr>lr_level = lvl, lr_message = msg, lr_extra = extra, lr_exc_text = None\<rparr>)"

text \<open>\<open>log_event\<close>: the message defaults to the event's name; the event goes into \<open>extra\<close>.\<close>

definition log_event ::
    "log_level \<Rightarrow> string \<Rightarrow> string \<Rightarrow> (string \<times> string) list \<Rightarrow> unit prog" where
  "log_event lvl ev msg flds = emit_log lvl ev (if msg = [] then ev else msg) flds"

section \<open>Redaction is complete\<close>

text \<open>
  A secret is plain when no bracket occurs in it and it is not part of the word that replaces it.
  Then no replacement can create an occurrence of it.
\<close>

definition plain_secret :: "string \<Rightarrow> bool" where
  "plain_secret s \<longleftrightarrow>
     s \<noteq> [] \<and> CHR ''['' \<notin> set s \<and> CHR '']'' \<notin> set s \<and> \<not> sublist s ''REDACTED''"

lemma prefix_unbracketed_append:
  "CHR ''['' \<notin> set x \<Longrightarrow> prefix x (CHR ''['' # t) \<longleftrightarrow> x = []"
  by (cases x) auto

lemma sublist_skip:
  assumes "c \<notin> set x" "sublist x (s @ c # t)"
  shows "sublist x s \<or> sublist x t"
proof -
  have no: "x2 = []" if "prefix x2 (c # t)" "set x2 \<subseteq> set x" for x2
    using that assms(1) by (cases x2) auto
  from assms(2) consider "sublist x s" | "sublist x (c # t)"
    | x1 x2 where "x = x1 @ x2" "suffix x1 s" "prefix x2 (c # t)"
    by (auto simp: sublist_append)
  then show ?thesis
  proof cases
    case 2
    then show ?thesis using no [of x] by (auto simp: sublist_Cons_right)
  next
    case 3
    then have "x2 = []" by (intro no) auto
    with 3 show ?thesis by auto
  qed auto
qed

lemma redacted_parts: "redacted @ t = [] @ CHR ''['' # (''REDACTED'' @ CHR '']'' # t)"
  by (simp add: redacted_def)

lemma sublist_redacted_append:
  assumes "plain_secret x" "sublist x (redacted @ t)"
  shows "sublist x t"
proof -
  have "sublist x [] \<or> sublist x (''REDACTED'' @ CHR '']'' # t)"
    using assms unfolding redacted_parts plain_secret_def by (intro sublist_skip) auto
  then have "sublist x ''REDACTED'' \<or> sublist x t"
    using assms(1) sublist_skip [of "CHR '']''" x "''REDACTED''" t] by (auto simp: plain_secret_def)
  with assms(1) show ?thesis by (auto simp: plain_secret_def)
qed

lemma prefix_replace_all:
  assumes "CHR ''['' \<notin> set x" "old \<noteq> []"
  shows "prefix x (replace_all old redacted s) \<Longrightarrow> prefix x s"
  using assms
proof (induction s arbitrary: x)
  case (Cons c cs)
  show ?case
  proof (cases "prefix old (c # cs)")
    case True
    then obtain r where "c # cs = old @ r" by (auto simp: prefix_def)
    with Cons.prems have "x = []"
      by (simp add: replace_all_hit redacted_def prefix_unbracketed_append)
    then show ?thesis by simp
  next
    case False
    with Cons show ?thesis by (cases x) (auto simp: replace_all_miss)
  qed
qed simp

lemma sublist_replace_all:
  assumes "plain_secret x" "old \<noteq> []"
  shows "sublist x (replace_all old redacted s) \<Longrightarrow> sublist x s"
proof (induction "length s" arbitrary: s rule: less_induct)
  case less
  show ?case
  proof (cases s)
    case (Cons c cs)
    show ?thesis
    proof (cases "prefix old s")
      case True
      then obtain r where r: "s = old @ r" by (auto simp: prefix_def)
      with less.prems assms have "sublist x (replace_all old redacted r)"
        by (simp add: replace_all_hit sublist_redacted_append)
      moreover have "length r < length s" using r assms(2) by simp
      ultimately have "sublist x r" using less.hyps by blast
      with r show ?thesis by (simp add: sublist_append)
    next
      case False
      with Cons assms(2) less.prems
      have "prefix x (replace_all old redacted s) \<or> sublist x (replace_all old redacted cs)"
        by (simp add: replace_all_miss sublist_Cons_right)
      then show ?thesis
      proof
        assume "prefix x (replace_all old redacted s)"
        then have "prefix x s"
          using prefix_replace_all [OF _ assms(2), of x s] assms(1) by (simp add: plain_secret_def)
        then show ?thesis by simp
      next
        assume "sublist x (replace_all old redacted cs)"
        with less.hyps [of cs] Cons show ?thesis by (simp add: sublist_Cons_right)
      qed
    qed
  qed (use less.prems in simp)
qed

text \<open>Replacing a plain secret removes it.\<close>

lemma replace_all_removes:
  assumes "plain_secret x"
  shows "\<not> sublist x (replace_all x redacted s)"
proof (induction "length s" arbitrary: s rule: less_induct)
  case less
  have x: "x \<noteq> []" using assms by (simp add: plain_secret_def)
  show ?case
  proof (cases s)
    case Nil
    then show ?thesis using x by simp
  next
    case (Cons c cs)
    show ?thesis
    proof (cases "prefix x s")
      case True
      then obtain r where r: "s = x @ r" by (auto simp: prefix_def)
      then have "length r < length s" using x by simp
      then show ?thesis using less.hyps r x assms
        by (auto simp: replace_all_hit dest: sublist_redacted_append)
    next
      case False
      have "\<not> prefix x (replace_all x redacted s)"
        using False prefix_replace_all [of x x s] assms x by (auto simp: plain_secret_def)
      with less.hyps [of cs] Cons False x show ?thesis
        by (simp add: replace_all_miss sublist_Cons_right)
    qed
  qed
qed

lemma sublist_redact_one:
  "plain_secret x \<Longrightarrow> old \<noteq> [] \<Longrightarrow> sublist x (redact_one old t) \<Longrightarrow> sublist x t"
  by (auto simp: redact_one_def split: if_splits dest: sublist_replace_all)

lemma sublist_redact:
  "plain_secret x \<Longrightarrow> [] \<notin> set secrets \<Longrightarrow> sublist x (redact secrets t) \<Longrightarrow> sublist x t"
proof (induction secrets rule: rev_induct)
  case (snoc old secrets)
  have "sublist x (redact_one old (redact secrets t))" using snoc.prems by (simp add: redact_def)
  then have "sublist x (redact secrets t)"
    using snoc.prems sublist_redact_one [of x old "redact secrets t"] by auto
  with snoc show ?case by simp
qed (simp add: redact_def)

lemma redact_removes:
  assumes "secret \<in> set secrets" "plain_secret secret" "[] \<notin> set secrets"
  shows "\<not> sublist secret (redact secrets t)"
proof -
  obtain us vs where split: "secrets = us @ secret # vs" using assms(1) by (meson split_list)
  let ?t = "redact_one secret (redact us t)"
  have "\<not> sublist secret ?t"
    using assms(2) replace_all_removes by (auto simp: redact_one_def)
  moreover have "redact secrets t = redact vs ?t" by (simp add: redact_def split)
  ultimately show ?thesis using assms split sublist_redact [of secret vs ?t] by auto
qed

lemma add_secret_nonempty: "[] \<notin> set ss \<Longrightarrow> [] \<notin> set (add_secret v ss)"
  by (auto simp: add_secret_def registrable_def split: option.splits)

lemma startup_secrets_nonempty: "[] \<notin> set (startup_secrets cfg)"
proof -
  have "[] \<notin> set ss \<Longrightarrow> [] \<notin> set (foldl (\<lambda>ss (c, key). add_secret (Some key) ss) ss kvs)"
    for ss and kvs :: "(string \<times> string) list"
    by (induction kvs arbitrary: ss) (auto intro!: add_secret_nonempty)
  then show ?thesis by (simp add: startup_secrets_def)
qed

lemma log_payload_no_float:
  "list_all (\<lambda>(k, v). no_float v) (lr_extra r) \<Longrightarrow>
   no_float (JObj (log_payload timestamp svc domain env r x))"
proof -
  assume a: "list_all (\<lambda>(k, v). no_float v) (lr_extra r)"
  have d: "no_float (dget k (lr_extra r))" for k
    using a by (auto simp: dget_def list_all_iff split: option.splits dest!: map_of_SomeD)
  then have "no_float (attr_or k r var)" for k var by (auto simp: attr_or_def Let_def split: option.splits)
  with d show ?thesis by (simp add: log_payload_def split: option.splits)
qed

lemma is_ascii_sublist: "is_ascii t \<Longrightarrow> sublist s t \<Longrightarrow> is_ascii s"
  by (auto simp: sublist_def)

section \<open>Properties\<close>

text \<open>
  Redaction is absolute. Whatever the record, the context and the order in which the registry
  is iterated, no registered secret that has no bracket in it and is not a part of the word
  \<open>REDACTED\<close> occurs in the line that is written: not in the message, the extras or the exception
  text.
\<close>

theorem log_line_redacted:
  assumes "secret \<in> set secrets" "plain_secret secret" "[] \<notin> set secrets"
  shows "\<not> sublist secret (format_record secrets timestamp svc domain env r x)"
  unfolding format_record_def using assms by (rule redact_removes)

theorem log_line_redacted_witness:
  "\<not> sublist ''super-secret-pat-123''
     (format_record [''api-key-1'', ''super-secret-pat-123''] ''t'' ''svc'' ''jira'' ''dev''
        \<lparr>lr_level = INFO, lr_message = ''token super-secret-pat-123 rejected'', lr_extra = [],
          lr_exc_text = Some ''ValueError: super-secret-pat-123''\<rparr> empty_ctx)"
proof (rule log_line_redacted)
  show "plain_secret ''super-secret-pat-123''"
    unfolding plain_secret_def by code_simp
qed auto

text \<open>
  The limit of it: the registry holds raw values, the scrubbed text is JSON. A secret with a
  character that JSON escapes never occurs in the text, so it is not scrubbed, and its escaped form
  is written out.
\<close>

lemma escaped_secret_not_redacted:
  assumes "\<not> is_ascii secret" "list_all (\<lambda>(k, v). no_float v) (lr_extra r)"
  shows "format_record [secret] timestamp svc domain env r x =
           dumps '','' '':'' (JObj (log_payload timestamp svc domain env r x))"
proof -
  let ?line = "dumps '','' '':'' (JObj (log_payload timestamp svc domain env r x))"
  have "is_ascii ?line" using log_payload_no_float [OF assms(2)] by (rule dumps_ascii) auto
  then have "\<not> sublist secret ?line" using assms(1) is_ascii_sublist by blast
  then show ?thesis by (simp add: format_record_def redact_def redact_one_def)
qed

text \<open>When building a record from \<open>extra\<close> fails.\<close>

lemma make_record_error_iff:
  "(\<exists>k. make_record lvl msg extra = Inl (KeyError k)) \<longleftrightarrow>
     (\<exists>(k, v) \<in> set extra. reserved k)"
proof (cases "List.find (\<lambda>(k, v). reserved k) extra")
  case None
  then have "\<forall>(k, v) \<in> set extra. \<not> reserved k" by (auto simp: find_None_iff)
  with None show ?thesis by (auto simp: make_record_def)
next
  case (Some kv)
  then have "kv \<in> set extra \<and> reserved (fst kv)" by (auto simp: find_Some_iff in_set_conv_nth)
  with Some show ?thesis by (cases kv) (auto simp: make_record_def)
qed

lemma log_event_fields_ok:
  assumes "set (map fst extra) \<subseteq> {''event'', ''job_id'', ''action_id'', ''status'', ''duration_ms''}"
  shows "\<nexists>k. make_record lvl msg extra = Inl (KeyError k)"
proof -
  have "\<not> reserved k" if "(k, v) \<in> set extra" for k v
  proof -
    have "k \<in> {''event'', ''job_id'', ''action_id'', ''status'', ''duration_ms''}"
      using assms that by force
    then show ?thesis by (auto simp: reserved_def record_attributes_def)
  qed
  then show ?thesis unfolding make_record_error_iff by fastforce
qed

end
