(* ===== verification/Redis_Store.thy ===== *)
theory Redis_Store
  imports Logging
begin

text \<open>
  \<^verbatim>\<open>app/state/redis_store.py\<close>: the keys, the job record and its state machine, results, staged
  tokens, cancellation flags, proposals, idempotency records. The store object is the settings it
  was built from; every method is a program over the Redis commands.
\<close>

section \<open>Keys\<close>

definition key_of :: "settings \<Rightarrow> string \<Rightarrow> string \<Rightarrow> string" where
  "key_of cfg kind ident = cf_domain cfg @ '':'' @ kind @ '':'' @ ident"

definition token_key :: "settings \<Rightarrow> string \<Rightarrow> string" where
  "token_key cfg j = key_of cfg ''tok'' j"

definition job_ttl :: "settings \<Rightarrow> int" where
  "job_ttl cfg = cf_result_ttl_s cfg + cf_job_timeout_s cfg * cf_job_max_attempts cfg"

definition token_ttl :: "settings \<Rightarrow> int" where
  "token_ttl cfg = cf_job_timeout_s cfg * cf_job_max_attempts cfg + 120"

text \<open>Redis refuses a life of zero seconds or less; the settings must give positive ones.\<close>

definition settings_ok :: "settings \<Rightarrow> bool" where
  "settings_ok cfg \<longleftrightarrow> 0 < cf_result_ttl_s cfg \<and> 0 < cf_proposal_ttl_s cfg \<and>
     0 < cf_idempotency_ttl_s cfg \<and> 0 < cf_job_timeout_s cfg \<and> 0 < cf_job_max_attempts cfg"

section \<open>The state machine\<close>

fun allowed_transitions :: "job_status \<Rightarrow> job_status set" where
  "allowed_transitions QUEUED = {RUNNING, CANCELLED, FAILED}"
| "allowed_transitions RUNNING = {RUNNING, COMPLETED, FAILED, CANCELLED}"
| "allowed_transitions COMPLETED = {}"
| "allowed_transitions FAILED = {}"
| "allowed_transitions CANCELLED = {}"

section \<open>Operations\<close>

text \<open>\<open>model_validate_json\<close> of something that is not the record expected there.\<close>

definition validation_error :: exn where
  "validation_error = OtherError ''ValidationError''"

definition create_job :: "settings \<Rightarrow> job_record \<Rightarrow> unit prog" where
  "create_job cfg r = redis_set_ex (key_of cfg ''job'' (job_id r)) (VJob r) (job_ttl cfg)"

definition get_job :: "settings \<Rightarrow> string \<Rightarrow> job_record option prog" where
  "get_job cfg j =
     bind (redis_get (key_of cfg ''job'' j)) (\<lambda>raw.
       case raw of None \<Rightarrow> Ret None | Some (VJob r) \<Rightarrow> Ret (Some r)
       | Some (VStr []) \<Rightarrow> Ret None | Some _ \<Rightarrow> Raise validation_error)"

definition save_job :: "settings \<Rightarrow> job_record \<Rightarrow> unit prog" where
  "save_job cfg r = redis_set_keepttl (key_of cfg ''job'' (job_id r)) (VJob r)"

definition purge_token :: "settings \<Rightarrow> string \<Rightarrow> unit prog" where
  "purge_token cfg j =
     bind (redis_del (token_key cfg j)) (\<lambda>removed.
       when_do (removed \<noteq> 0) (log_event INFO ''token_purged'' [] [(''job_id'', j)]))"

definition transition ::
    "settings \<Rightarrow> string \<Rightarrow> job_status \<Rightarrow> int option \<Rightarrow> job_error option \<Rightarrow> job_record prog" where
  "transition cfg j new_status attempt err =
     bind (get_job cfg j) (\<lambda>found.
     case found of
       None \<Rightarrow> Raise (JobNotFound j)
     | Some record \<Rightarrow>
         if new_status \<notin> allowed_transitions (job_status record)
         then Raise (InvalidTransition j (job_status record) new_status)
         else
           let record = record\<lparr>job_status := new_status,
                 job_attempt := (case attempt of Some n \<Rightarrow> n | None \<Rightarrow> job_attempt record),
                 job_error := (case err of Some e \<Rightarrow> Some e | None \<Rightarrow> job_error record)\<rparr> in
           bind (if new_status = RUNNING \<and> job_started_at record = None
                 then bind utcnow (\<lambda>now. Ret (record\<lparr>job_started_at := Some now\<rparr>))
                 else Ret record) (\<lambda>record.
           bind (if new_status \<in> terminal_states
                 then bind utcnow (\<lambda>now. Ret (record\<lparr>job_finished_at := Some now\<rparr>))
                 else Ret record) (\<lambda>record.
           bind (save_job cfg record) (\<lambda>_.
           bind (when_do (new_status \<in> terminal_states)
                  (bind (purge_token cfg j) (\<lambda>_.
                   bind (redis_del (key_of cfg ''cancel'' j)) (\<lambda>_. Ret ())))) (\<lambda>_.
           bind (log_event INFO (''job_'' @ status_value new_status) []
                  [(''job_id'', j), (''status'', status_value new_status)]) (\<lambda>_.
           Ret record))))))"

definition set_progress :: "settings \<Rightarrow> string \<Rightarrow> string option \<Rightarrow> nat \<Rightarrow> unit prog" where
  "set_progress cfg j last_tool steps =
     bind (get_job cfg j) (\<lambda>found.
     case found of
       None \<Rightarrow> Ret ()
     | Some record \<Rightarrow>
         save_job cfg (record\<lparr>job_progress := \<lparr>pr_last_tool = last_tool, pr_steps = steps\<rparr>\<rparr>))"

definition save_result :: "settings \<Rightarrow> string \<Rightarrow> job_result_doc \<Rightarrow> unit prog" where
  "save_result cfg j res = redis_set_ex (key_of cfg ''result'' j) (VResult res) (cf_result_ttl_s cfg)"

definition get_result :: "settings \<Rightarrow> string \<Rightarrow> job_result_doc option prog" where
  "get_result cfg j =
     bind (redis_get (key_of cfg ''result'' j)) (\<lambda>raw.
       case raw of None \<Rightarrow> Ret None | Some (VResult r) \<Rightarrow> Ret (Some r)
       | Some (VStr []) \<Rightarrow> Ret None | Some _ \<Rightarrow> Raise validation_error)"

definition stage_token :: "settings \<Rightarrow> string \<Rightarrow> string \<Rightarrow> unit prog" where
  "stage_token cfg j ciphertext =
     bind (redis_set_ex (token_key cfg j) (VStr ciphertext) (token_ttl cfg)) (\<lambda>_.
     log_event INFO ''token_staged'' [] [(''job_id'', j)])"

definition load_token :: "settings \<Rightarrow> string \<Rightarrow> string option prog" where
  "load_token cfg j =
     bind (redis_get (token_key cfg j)) (\<lambda>raw.
       case raw of None \<Rightarrow> Ret None | Some (VStr s) \<Rightarrow> Ret (Some s)
       | Some _ \<Rightarrow> Raise (TypeError ''text''))"

definition request_cancel :: "settings \<Rightarrow> string \<Rightarrow> unit prog" where
  "request_cancel cfg j = redis_set_ex (key_of cfg ''cancel'' j) (VStr ''1'') (job_ttl cfg)"

definition is_cancel_requested :: "settings \<Rightarrow> string \<Rightarrow> bool prog" where
  "is_cancel_requested cfg j = bind (redis_exists (key_of cfg ''cancel'' j)) (\<lambda>n. Ret (n \<noteq> 0))"

definition save_proposal :: "settings \<Rightarrow> stored_proposal \<Rightarrow> unit prog" where
  "save_proposal cfg p =
     redis_set_ex (key_of cfg ''proposal'' (pa_action_id (sp_action p))) (VProposal p)
       (cf_proposal_ttl_s cfg)"

definition get_proposal :: "settings \<Rightarrow> string \<Rightarrow> stored_proposal option prog" where
  "get_proposal cfg a =
     bind (redis_get (key_of cfg ''proposal'' a)) (\<lambda>raw.
       case raw of None \<Rightarrow> Ret None | Some (VProposal p) \<Rightarrow> Ret (Some p)
       | Some (VStr []) \<Rightarrow> Ret None | Some _ \<Rightarrow> Raise validation_error)"

definition delete_proposal :: "settings \<Rightarrow> string \<Rightarrow> unit prog" where
  "delete_proposal cfg a = bind (redis_del (key_of cfg ''proposal'' a)) (\<lambda>_. Ret ())"

definition get_idempotency :: "settings \<Rightarrow> string \<Rightarrow> idempotency_record option prog" where
  "get_idempotency cfg k =
     bind (redis_get (key_of cfg ''idem'' k)) (\<lambda>raw.
       case raw of None \<Rightarrow> Ret None | Some (VIdem r) \<Rightarrow> Ret (Some r)
       | Some (VStr []) \<Rightarrow> Ret None | Some _ \<Rightarrow> Raise validation_error)"

definition put_idempotency :: "settings \<Rightarrow> string \<Rightarrow> idempotency_record \<Rightarrow> unit prog" where
  "put_idempotency cfg k r = redis_set_ex (key_of cfg ''idem'' k) (VIdem r) (cf_idempotency_ttl_s cfg)"

definition store_ping :: "bool prog" where
  "store_ping = catch redis_ping (\<lambda>_. Ret False)"

definition queue_depth :: "settings \<Rightarrow> int prog" where
  "queue_depth cfg = redis_zcard (cf_queue_name cfg)"

lemmas store_defs = create_job_def get_job_def save_job_def purge_token_def set_progress_def
  save_result_def get_result_def stage_token_def load_token_def request_cancel_def
  is_cancel_requested_def save_proposal_def get_proposal_def delete_proposal_def
  get_idempotency_def put_idempotency_def

section \<open>The keys do not collide\<close>

definition kinds :: "string list" where
  "kinds = [''job'', ''result'', ''tok'', ''proposal'', ''idem'', ''cancel'']"

lemma colon_split:
  "CHR '':'' \<notin> set a \<Longrightarrow> CHR '':'' \<notin> set b \<Longrightarrow>
   a @ CHR '':'' # s = b @ CHR '':'' # t \<longleftrightarrow> a = b \<and> s = t"
  by (induction a arbitrary: b; case_tac b) auto

lemma kinds_no_colon: "k \<in> set kinds \<Longrightarrow> CHR '':'' \<notin> set k"
  by (auto simp: kinds_def)

lemma key_of_inject [simp]:
  "k \<in> set kinds \<Longrightarrow> k' \<in> set kinds \<Longrightarrow> key_of cfg k i = key_of cfg k' i' \<longleftrightarrow> k = k' \<and> i = i'"
  using colon_split [OF kinds_no_colon kinds_no_colon, of k k'] by (auto simp: key_of_def)

lemma kinds_mem [simp]:
  "''job'' \<in> set kinds" "''result'' \<in> set kinds" "''tok'' \<in> set kinds"
  "''proposal'' \<in> set kinds" "''idem'' \<in> set kinds" "''cancel'' \<in> set kinds"
  by (simp_all add: kinds_def)

lemma job_ttl_pos [simp]: "settings_ok cfg \<Longrightarrow> 0 < job_ttl cfg"
  by (auto simp: settings_ok_def job_ttl_def intro!: add_pos_pos mult_pos_pos)

lemma token_ttl_pos [simp]: "settings_ok cfg \<Longrightarrow> 0 < token_ttl cfg"
  by (auto simp: settings_ok_def token_ttl_def intro!: add_pos_pos mult_pos_pos)

lemma other_ttls_pos [simp]:
  "settings_ok cfg \<Longrightarrow> 0 < cf_result_ttl_s cfg" "settings_ok cfg \<Longrightarrow> 0 < cf_proposal_ttl_s cfg"
  "settings_ok cfg \<Longrightarrow> 0 < cf_idempotency_ttl_s cfg"
  by (simp_all add: settings_ok_def)

lemma default_settings_ok [simp]: "settings_ok default_settings"
  by (simp add: settings_ok_def default_settings_def)

section \<open>The abstract store\<close>

text \<open>
  What the key space means: six independent maps. A key space is well typed when every value
  under a key of the domain is of the kind of the key and carries the identifier of the key;
  \<open>P\<close> is a further condition on every proposed action that is stored.
\<close>

type_synonym key_space = "string \<Rightarrow> (rval \<times> int option) option"

fun fits :: "(proposed_action \<Rightarrow> bool) \<Rightarrow> string \<Rightarrow> string \<Rightarrow> rval \<Rightarrow> bool" where
  "fits P k i (VJob r) = (k = ''job'' \<and> job_id r = i)"
| "fits P k i (VResult d) = (k = ''result'' \<and> list_all P (rd_proposed_actions d))"
| "fits P k i (VProposal p) =
     (k = ''proposal'' \<and> pa_action_id (sp_action p) = i \<and> P (sp_action p))"
| "fits P k i (VIdem r) = (k = ''idem'')"
| "fits P k i (VStr s) = (k = ''tok'' \<or> k = ''cancel'')"

definition well_typed :: "settings \<Rightarrow> (proposed_action \<Rightarrow> bool) \<Rightarrow> key_space \<Rightarrow> bool" where
  "well_typed cfg P ks \<longleftrightarrow>
     (\<forall>k i v t. k \<in> set kinds \<longrightarrow> ks (key_of cfg k i) = Some (v, t) \<longrightarrow> fits P k i v)"

record view =
  vw_job :: "string \<Rightarrow> job_record option"
  vw_result :: "string \<Rightarrow> job_result_doc option"
  vw_token :: "string \<Rightarrow> string option"
  vw_cancel :: "string \<Rightarrow> bool"
  vw_proposal :: "string \<Rightarrow> stored_proposal option"
  vw_idem :: "string \<Rightarrow> idempotency_record option"

definition view_of :: "settings \<Rightarrow> key_space \<Rightarrow> view" where
  "view_of cfg ks = \<lparr>
     vw_job = (\<lambda>j. case ks (key_of cfg ''job'' j) of Some (VJob r, _) \<Rightarrow> Some r | _ \<Rightarrow> None),
     vw_result = (\<lambda>j. case ks (key_of cfg ''result'' j) of Some (VResult d, _) \<Rightarrow> Some d | _ \<Rightarrow> None),
     vw_token = (\<lambda>j. case ks (key_of cfg ''tok'' j) of Some (VStr s, _) \<Rightarrow> Some s | _ \<Rightarrow> None),
     vw_cancel = (\<lambda>j. ks (key_of cfg ''cancel'' j) \<noteq> None),
     vw_proposal = (\<lambda>a. case ks (key_of cfg ''proposal'' a) of Some (VProposal p, _) \<Rightarrow> Some p | _ \<Rightarrow> None),
     vw_idem = (\<lambda>k. case ks (key_of cfg ''idem'' k) of Some (VIdem r, _) \<Rightarrow> Some r | _ \<Rightarrow> None)\<rparr>"

text \<open>What each writing operation does to the abstract store.\<close>

definition spec_transition ::
    "time \<Rightarrow> string \<Rightarrow> job_status \<Rightarrow> int option \<Rightarrow> job_error option \<Rightarrow> view \<Rightarrow> (exn + job_record) \<times> view" where
  "spec_transition now j t attempt err v =
     (case vw_job v j of
        None \<Rightarrow> (Inl (JobNotFound j), v)
      | Some r \<Rightarrow>
          if t \<notin> allowed_transitions (job_status r) then (Inl (InvalidTransition j (job_status r) t), v)
          else
            let r' = r\<lparr>job_status := t,
                  job_attempt := (case attempt of Some n \<Rightarrow> n | None \<Rightarrow> job_attempt r),
                  job_error := (case err of Some e \<Rightarrow> Some e | None \<Rightarrow> job_error r),
                  job_started_at := (if t = RUNNING \<and> job_started_at r = None then Some now
                                     else job_started_at r),
                  job_finished_at := (if t \<in> terminal_states then Some now else job_finished_at r)\<rparr>;
                v' = v\<lparr>vw_job := (vw_job v)(j \<mapsto> r')\<rparr>
            in (Inr r', if t \<in> terminal_states
                        then v'\<lparr>vw_token := (vw_token v)(j := None),
                                vw_cancel := (vw_cancel v)(j := False)\<rparr>
                        else v'))"

lemma view_of_update:
  "view_of cfg (ks(key_of cfg ''job'' j := jv)) =
     (view_of cfg ks)\<lparr>vw_job := (vw_job (view_of cfg ks))(j := case jv of Some (VJob r, _) \<Rightarrow> Some r | _ \<Rightarrow> None)\<rparr>"
  "view_of cfg (ks(key_of cfg ''result'' j := jv)) =
     (view_of cfg ks)\<lparr>vw_result := (vw_result (view_of cfg ks))(j := case jv of Some (VResult r, _) \<Rightarrow> Some r | _ \<Rightarrow> None)\<rparr>"
  "view_of cfg (ks(key_of cfg ''tok'' j := jv)) =
     (view_of cfg ks)\<lparr>vw_token := (vw_token (view_of cfg ks))(j := case jv of Some (VStr r, _) \<Rightarrow> Some r | _ \<Rightarrow> None)\<rparr>"
  "view_of cfg (ks(key_of cfg ''cancel'' j := jv)) =
     (view_of cfg ks)\<lparr>vw_cancel := (vw_cancel (view_of cfg ks))(j := jv \<noteq> None)\<rparr>"
  "view_of cfg (ks(key_of cfg ''proposal'' j := jv)) =
     (view_of cfg ks)\<lparr>vw_proposal := (vw_proposal (view_of cfg ks))(j := case jv of Some (VProposal r, _) \<Rightarrow> Some r | _ \<Rightarrow> None)\<rparr>"
  "view_of cfg (ks(key_of cfg ''idem'' j := jv)) =
     (view_of cfg ks)\<lparr>vw_idem := (vw_idem (view_of cfg ks))(j := case jv of Some (VIdem r, _) \<Rightarrow> Some r | _ \<Rightarrow> None)\<rparr>"
  by (simp_all add: view_of_def fun_eq_iff)

lemma well_typed_upd:
  "well_typed cfg P ks \<Longrightarrow> k \<in> set kinds \<Longrightarrow> fits P k i v \<Longrightarrow>
   well_typed cfg P (ks(key_of cfg k i \<mapsto> (v, t)))"
  by (auto simp: well_typed_def)

lemma well_typed_del: "well_typed cfg P ks \<Longrightarrow> well_typed cfg P (ks(key := None))"
  by (auto simp: well_typed_def)

lemma well_typed_empty [simp]: "well_typed cfg P (\<lambda>_. None)"
  by (simp add: well_typed_def)

text \<open>Time passes: a key whose remaining life is over disappears.\<close>

definition elapse :: "int \<Rightarrow> key_space \<Rightarrow> key_space" where
  "elapse n ks =
     (\<lambda>k. case ks k of
        Some (v, Some t) \<Rightarrow> if t \<le> n then None else Some (v, Some (t - n))
      | other \<Rightarrow> other)"

lemma elapse_Some: "elapse n ks k = Some (v, t) \<Longrightarrow> \<exists>t'. ks k = Some (v, t')"
  by (auto simp: elapse_def split: option.splits prod.splits if_splits)

lemma well_typed_elapse: "well_typed cfg P ks \<Longrightarrow> well_typed cfg P (elapse n ks)"
  unfolding well_typed_def by (meson elapse_Some)

section \<open>The operations implement the abstract store\<close>

context platform
begin

lemma typed_value:
  "well_typed cfg P (look s) \<Longrightarrow> k \<in> set kinds \<Longrightarrow> look s (key_of cfg k i) = Some (v, t) \<Longrightarrow> fits P k i v"
  by (auto simp: well_typed_def)

lemma run_get_job:
  "well_typed cfg P (look s) \<Longrightarrow>
   result_of W (get_job cfg j) s x = Inr (vw_job (view_of cfg (look s)) j)"
  "look (state_after W (get_job cfg j) s x) = look s"
  "ctx_after W (get_job cfg j) s x = x"
  using typed_value [of cfg P s "''job''" j]
  by (auto simp: get_job_def run_simps run_calls view_of_def split: option.split rval.split list.split)

lemma run_get_result:
  "well_typed cfg P (look s) \<Longrightarrow>
   result_of W (get_result cfg j) s x = Inr (vw_result (view_of cfg (look s)) j)"
  "look (state_after W (get_result cfg j) s x) = look s"
  "ctx_after W (get_result cfg j) s x = x"
  using typed_value [of cfg P s "''result''" j]
  by (auto simp: get_result_def run_simps run_calls view_of_def split: option.split rval.split list.split)

lemma run_load_token:
  "well_typed cfg P (look s) \<Longrightarrow>
   result_of W (load_token cfg j) s x = Inr (vw_token (view_of cfg (look s)) j)"
  "look (state_after W (load_token cfg j) s x) = look s"
  "ctx_after W (load_token cfg j) s x = x"
  using typed_value [of cfg P s "''tok''" j]
  by (auto simp: load_token_def token_key_def run_simps run_calls view_of_def split: option.split rval.split list.split)

lemma run_get_proposal:
  "well_typed cfg P (look s) \<Longrightarrow>
   result_of W (get_proposal cfg a) s x = Inr (vw_proposal (view_of cfg (look s)) a)"
  "look (state_after W (get_proposal cfg a) s x) = look s"
  "ctx_after W (get_proposal cfg a) s x = x"
  using typed_value [of cfg P s "''proposal''" a]
  by (auto simp: get_proposal_def run_simps run_calls view_of_def split: option.split rval.split list.split)

lemma run_get_idempotency:
  "well_typed cfg P (look s) \<Longrightarrow>
   result_of W (get_idempotency cfg k) s x = Inr (vw_idem (view_of cfg (look s)) k)"
  "look (state_after W (get_idempotency cfg k) s x) = look s"
  "ctx_after W (get_idempotency cfg k) s x = x"
  using typed_value [of cfg P s "''idem''" k]
  by (auto simp: get_idempotency_def run_simps run_calls view_of_def split: option.split rval.split list.split)

lemma run_is_cancel_requested:
  "result_of W (is_cancel_requested cfg j) s x = Inr (vw_cancel (view_of cfg (look s)) j)"
  "look (state_after W (is_cancel_requested cfg j) s x) = look s"
  "ctx_after W (is_cancel_requested cfg j) s x = x"
  by (auto simp: is_cancel_requested_def run_simps run_calls view_of_def)

lemma run_log_event:
  "result_of W (log_event l e m f) s x = Inr ()"
  "look (state_after W (log_event l e m f) s x) = look s"
  "ctx_after W (log_event l e m f) s x = x"
  by (simp_all add: log_event_def run_log)

lemma run_create_job:
  "settings_ok cfg \<Longrightarrow> result_of W (create_job cfg r) s x = Inr ()"
  "settings_ok cfg \<Longrightarrow> look (state_after W (create_job cfg r) s x) =
     (look s)(key_of cfg ''job'' (job_id r) \<mapsto> (VJob r, Some (job_ttl cfg)))"
  "ctx_after W (create_job cfg r) s x = x"
  by (simp_all add: create_job_def run_calls)

lemma run_save_job:
  "result_of W (save_job cfg r) s x = Inr ()"
  "look (state_after W (save_job cfg r) s x) =
     (look s)(key_of cfg ''job'' (job_id r) \<mapsto>
        (VJob r, Option.bind (look s (key_of cfg ''job'' (job_id r))) snd))"
  "ctx_after W (save_job cfg r) s x = x"
  by (simp_all add: save_job_def run_calls)

lemma run_purge_token:
  "result_of W (purge_token cfg j) s x = Inr ()"
  "look (state_after W (purge_token cfg j) s x) = (look s)(key_of cfg ''tok'' j := None)"
  "ctx_after W (purge_token cfg j) s x = x"
  by (simp_all add: purge_token_def token_key_def run_simps run_calls run_log_event)

lemma run_stage_token:
  "settings_ok cfg \<Longrightarrow> result_of W (stage_token cfg j c) s x = Inr ()"
  "settings_ok cfg \<Longrightarrow> look (state_after W (stage_token cfg j c) s x) =
     (look s)(key_of cfg ''tok'' j \<mapsto> (VStr c, Some (token_ttl cfg)))"
  "settings_ok cfg \<Longrightarrow> ctx_after W (stage_token cfg j c) s x = x"
  by (simp_all add: stage_token_def token_key_def run_simps run_calls run_log_event)

lemma run_request_cancel:
  "settings_ok cfg \<Longrightarrow> result_of W (request_cancel cfg j) s x = Inr ()"
  "settings_ok cfg \<Longrightarrow> look (state_after W (request_cancel cfg j) s x) =
     (look s)(key_of cfg ''cancel'' j \<mapsto> (VStr ''1'', Some (job_ttl cfg)))"
  "ctx_after W (request_cancel cfg j) s x = x"
  by (simp_all add: request_cancel_def run_calls)

lemma run_delete_proposal:
  "result_of W (delete_proposal cfg a) s x = Inr ()"
  "look (state_after W (delete_proposal cfg a) s x) = (look s)(key_of cfg ''proposal'' a := None)"
  "ctx_after W (delete_proposal cfg a) s x = x"
  by (simp_all add: delete_proposal_def run_simps run_calls)

lemma run_save_proposal:
  "settings_ok cfg \<Longrightarrow> result_of W (save_proposal cfg p) s x = Inr ()"
  "settings_ok cfg \<Longrightarrow> look (state_after W (save_proposal cfg p) s x) =
     (look s)(key_of cfg ''proposal'' (pa_action_id (sp_action p)) \<mapsto>
        (VProposal p, Some (cf_proposal_ttl_s cfg)))"
  "ctx_after W (save_proposal cfg p) s x = x"
  by (simp_all add: save_proposal_def run_calls)

lemma run_save_result:
  "settings_ok cfg \<Longrightarrow> result_of W (save_result cfg j d) s x = Inr ()"
  "settings_ok cfg \<Longrightarrow> look (state_after W (save_result cfg j d) s x) =
     (look s)(key_of cfg ''result'' j \<mapsto> (VResult d, Some (cf_result_ttl_s cfg)))"
  "ctx_after W (save_result cfg j d) s x = x"
  by (simp_all add: save_result_def run_calls)

lemma run_put_idempotency:
  "settings_ok cfg \<Longrightarrow> result_of W (put_idempotency cfg k r) s x = Inr ()"
  "settings_ok cfg \<Longrightarrow> look (state_after W (put_idempotency cfg k r) s x) =
     (look s)(key_of cfg ''idem'' k \<mapsto> (VIdem r, Some (cf_idempotency_ttl_s cfg)))"
  "ctx_after W (put_idempotency cfg k r) s x = x"
  by (simp_all add: put_idempotency_def run_calls)

lemmas run_store = run_get_job run_get_result run_load_token run_get_proposal run_get_idempotency
  run_is_cancel_requested run_log_event run_create_job run_save_job run_purge_token run_stage_token
  run_request_cancel run_delete_proposal run_save_proposal run_save_result run_put_idempotency

text \<open>The state machine's operation against its specification, on every branch.\<close>

lemma transition_spec:
  assumes "well_typed cfg P (look s)"
  shows "\<exists>now. (result_of W (transition cfg j t attempt err) s x,
                view_of cfg (look (state_after W (transition cfg j t attempt err) s x))) =
               spec_transition now j t attempt err (view_of cfg (look s))"
proof -
  have id: "job_id r = j" if "vw_job (view_of cfg (look s)) j = Some r" for r
    using that typed_value [OF assms, of "''job''" j]
    by (auto simp: view_of_def split: option.splits rval.splits)
  let ?v = "view_of cfg (look s)"
  let ?s = "state_after W (get_job cfg j) s x"
  obtain now where now: "result_of W utcnow ?s x = Inr now" using run_utcnow(1) by blast
  show ?thesis
  proof (cases "vw_job ?v j")
    case None
    then show ?thesis
      by (simp add: transition_def run_simps run_get_job(1) [OF assms] run_get_job(2,3)
          spec_transition_def)
  next
    case (Some r)
    show ?thesis
    proof (cases "t \<in> allowed_transitions (job_status r)")
      case False
      with Some show ?thesis
        by (simp add: transition_def run_simps run_get_job(1) [OF assms] run_get_job(2,3)
            spec_transition_def)
    next
      case True
      show ?thesis
        using Some True id [OF Some] now
        by (intro exI [of _ now], cases t)
          (auto simp: transition_def run_simps run_get_job(1) [OF assms] run_get_job(2,3)
            run_utcnow(2,3) run_save_job run_purge_token run_log_event run_calls Let_def
            spec_transition_def view_of_update)
    qed
  qed
qed

text \<open>A transition that fails changes nothing at all, not even a remaining life.\<close>

lemma failed_transition_changes_nothing:
  assumes "well_typed cfg P (look s)" "result_of W (transition cfg j t attempt err) s x = Inl e"
  shows "look (state_after W (transition cfg j t attempt err) s x) = look s"
proof (cases "\<exists>r. vw_job (view_of cfg (look s)) j = Some r \<and> t \<in> allowed_transitions (job_status r)")
  case True
  with transition_spec [OF assms(1), of j t attempt err x] assms(2) show ?thesis
    by (auto simp: spec_transition_def Let_def)
next
  case False
  then show ?thesis
    by (auto simp: transition_def run_simps run_get_job(1) [OF assms(1)] run_get_job(2,3)
        split: option.splits)
qed

end

section \<open>The commands of the store, in every environment\<close>

definition put_ok :: "settings \<Rightarrow> (proposed_action \<Rightarrow> bool) \<Rightarrow> string \<Rightarrow> rval \<Rightarrow> bool" where
  "put_ok cfg P key v \<longleftrightarrow> (\<exists>k i. k \<in> set kinds \<and> key = key_of cfg k i \<and> fits P k i v)"

definition deletable :: "settings \<Rightarrow> string \<Rightarrow> bool" where
  "deletable cfg key \<longleftrightarrow> (\<exists>k i. k \<in> {''tok'', ''cancel'', ''proposal''} \<and> key = key_of cfg k i)"

lemma deletable_keys [simp]:
  "deletable cfg (key_of cfg ''tok'' j)" "deletable cfg (key_of cfg ''cancel'' j)"
  "deletable cfg (key_of cfg ''proposal'' j)"
  by (auto simp: deletable_def)

fun store_cmd :: "settings \<Rightarrow> (proposed_action \<Rightarrow> bool) \<Rightarrow> cmd \<Rightarrow> bool" where
  "store_cmd cfg P (RSetEx key v t) = (put_ok cfg P key v \<and> 0 < t)"
| "store_cmd cfg P (RSetKeepTtl key v) = put_ok cfg P key v"
| "store_cmd cfg P (RDel key) = deletable cfg key"
| "store_cmd cfg P (EnqueueJob f a j) = False"
| "store_cmd cfg P (URandom n) = False"
| "store_cmd cfg P (WrapKey k b) = False"
| "store_cmd cfg P (UnwrapKey k b) = False"
| "store_cmd cfg P (HttpSend q) = False"
| "store_cmd cfg P (SleepFor d) = False"
| "store_cmd cfg P c = True"

lemma put_okI [intro]: "k \<in> set kinds \<Longrightarrow> fits P k i v \<Longrightarrow> put_ok cfg P (key_of cfg k i) v"
  by (auto simp: put_ok_def)

lemma safe_log_event [simp]: "(\<And>l e m f. Q (LogLine l e m f)) \<Longrightarrow> R () \<Longrightarrow> safe Q E R (log_event l e m f)"
  by (simp add: log_event_def emit_log_def)

lemmas store_cases = reply.split option.split rval.split list.split

lemma safe_store_reads:
  "safe (store_cmd cfg P) (\<lambda>_. True) (\<lambda>_. True) (get_job cfg j)"
  "safe (store_cmd cfg P) (\<lambda>_. True) (\<lambda>_. True) (get_result cfg j)"
  "safe (store_cmd cfg P) (\<lambda>_. True) (\<lambda>_. True) (load_token cfg j)"
  "safe (store_cmd cfg P) (\<lambda>_. True) (\<lambda>_. True) (get_proposal cfg j)"
  "safe (store_cmd cfg P) (\<lambda>_. True) (\<lambda>_. True) (get_idempotency cfg j)"
  "safe (store_cmd cfg P) (\<lambda>_. True) (\<lambda>_. True) (is_cancel_requested cfg j)"
  by (auto simp: store_defs call_defs intro!: safe_bind [where R = "\<lambda>_. True"] split: store_cases)

lemma safe_store_writes:
  assumes "settings_ok cfg"
  shows "safe (store_cmd cfg P) (\<lambda>_. True) (\<lambda>_. True) (create_job cfg r)"
    "safe (store_cmd cfg P) (\<lambda>_. True) (\<lambda>_. True) (save_job cfg r)"
    "list_all P (rd_proposed_actions d) \<Longrightarrow>
       safe (store_cmd cfg P) (\<lambda>_. True) (\<lambda>_. True) (save_result cfg j d)"
    "P (sp_action p) \<Longrightarrow> safe (store_cmd cfg P) (\<lambda>_. True) (\<lambda>_. True) (save_proposal cfg p)"
    "safe (store_cmd cfg P) (\<lambda>_. True) (\<lambda>_. True) (put_idempotency cfg k i)"
    "safe (store_cmd cfg P) (\<lambda>_. True) (\<lambda>_. True) (stage_token cfg j c)"
    "safe (store_cmd cfg P) (\<lambda>_. True) (\<lambda>_. True) (request_cancel cfg j)"
    "safe (store_cmd cfg P) (\<lambda>_. True) (\<lambda>_. True) (purge_token cfg j)"
    "safe (store_cmd cfg P) (\<lambda>_. True) (\<lambda>_. True) (delete_proposal cfg j)"
    "safe (store_cmd cfg P) (\<lambda>_. True) (\<lambda>_. True) (set_progress cfg j lt n)"
  using assms
  by (auto simp: store_defs token_key_def call_defs when_do_def log_event_def
      intro!: safe_bind [where R = "\<lambda>_. True"] split: store_cases)

lemma safe_transition:
  "safe (store_cmd cfg P) (\<lambda>_. True) (\<lambda>_. True) (transition cfg j t a e)"
proof -
  have save: "safe (store_cmd cfg P) (\<lambda>_. True) (\<lambda>_. True) (save_job cfg r)" for r
    by (auto simp: save_job_def call_defs split: reply.split)
  have purge: "safe (store_cmd cfg P) (\<lambda>_. True) (\<lambda>_. True) (purge_token cfg j)"
    by (auto simp: purge_token_def token_key_def call_defs when_do_def log_event_def
        intro!: safe_bind [where R = "\<lambda>_. True"] split: reply.split)
  show ?thesis
    unfolding transition_def Let_def
    by (rule safe_bind [where R = "\<lambda>_. True"], rule safe_store_reads)
      (auto simp: call_defs when_do_def log_event_def
        intro!: safe_bind [where R = "\<lambda>_. True"] save purge split: option.split reply.split)
qed

text \<open>Whatever issues only such commands keeps the key space well typed.\<close>

context redis_server
begin

lemma well_typed_step:
  "well_typed cfg P (look s) \<Longrightarrow> store_cmd cfg P c \<or> \<not> writes c \<Longrightarrow>
   well_typed cfg P (look (fst (W s c)))"
  by (cases c) (auto simp: look_set_ex look_set_keepttl look_del put_ok_def look_other
      intro: well_typed_upd well_typed_del)

lemma well_typed_after:
  "safe (\<lambda>c. store_cmd cfg P c \<or> \<not> writes c) E R p \<Longrightarrow> well_typed cfg P (look s) \<Longrightarrow>
   well_typed cfg P (look (state_after W p s x))"
  by (erule safe_state [where Inv = "\<lambda>s. well_typed cfg P (look s)"]) (auto intro: well_typed_step)

end

lemma keeps_ctx_store:
  "keeps_ctx (get_job cfg j)" "keeps_ctx (save_job cfg r)" "keeps_ctx (create_job cfg r)"
  "keeps_ctx (purge_token cfg j)" "keeps_ctx (stage_token cfg j c)" "keeps_ctx (load_token cfg j)"
  "keeps_ctx (request_cancel cfg j)" "keeps_ctx (is_cancel_requested cfg j)"
  "keeps_ctx (save_result cfg j d)" "keeps_ctx (get_result cfg j)"
  "keeps_ctx (save_proposal cfg p)" "keeps_ctx (get_proposal cfg a)" "keeps_ctx (delete_proposal cfg a)"
  "keeps_ctx (get_idempotency cfg k)" "keeps_ctx (put_idempotency cfg k i)"
  "keeps_ctx (set_progress cfg j lt n)"
  by (auto simp: store_defs call_defs when_do_def log_event_def intro!: keeps_ctx_bind
      split: store_cases)

lemma keeps_ctx_transition: "keeps_ctx (transition cfg j t a e)"
  unfolding transition_def Let_def
  by (rule keeps_ctx_bind, rule keeps_ctx_store)
    (auto simp: call_defs when_do_def log_event_def intro!: keeps_ctx_bind keeps_ctx_store
      split: option.split reply.split)

section \<open>The life of a job\<close>

text \<open>The statuses a job goes through, the latest first.\<close>

inductive life :: "job_status list \<Rightarrow> bool" where
  born: "life [QUEUED]"
| moved: "life (s # h) \<Longrightarrow> t \<in> allowed_transitions s \<Longrightarrow> life (t # s # h)"

inductive_cases lifeE: "life (t # h)"

lemma allowed_mono: "t \<in> allowed_transitions s \<Longrightarrow> s \<le> t \<and> s \<notin> terminal_states"
  by (cases s) (auto simp: less_eq_job_status_def)

lemma life_sorted: "life h \<Longrightarrow> sorted (rev h) \<and> (\<forall>s \<in> set (tl h). s \<notin> terminal_states)"
proof (induction rule: life.induct)
  case (moved s h t)
  then show ?case using allowed_mono [OF moved.hyps(2)]
    by (auto simp: sorted_append)
qed simp

lemma life_completed:
  assumes "life (COMPLETED # h)"
  shows "\<exists>h'. h = RUNNING # h'"
  using assms
proof (cases rule: life.cases)
  case (moved s h')
  then show ?thesis by (cases s) auto
qed

text \<open>What the specification gives.\<close>

lemma spec_transition_job:
  assumes "vw_job v j = Some r"
  shows "\<exists>r'. vw_job (snd (spec_transition now j t attempt err v)) j = Some r' \<and>
           (r' = r \<and> t \<notin> allowed_transitions (job_status r) \<or>
            job_status r' = t \<and> t \<in> allowed_transitions (job_status r))"
  using assms by (simp add: spec_transition_def Let_def)

lemma spec_transition_purges:
  assumes "spec_transition now j t attempt err v = (Inr r, v')" "t \<in> terminal_states"
  shows "vw_token v' j = None \<and> \<not> vw_cancel v' j"
proof (cases "vw_job v j")
  case None
  with assms show ?thesis by (simp add: spec_transition_def)
next
  case (Some r0)
  with assms have "t \<in> allowed_transitions (job_status r0)"
    by (cases "t \<in> allowed_transitions (job_status r0)") (simp_all add: spec_transition_def)
  with Some assms show ?thesis by (auto simp: spec_transition_def Let_def)
qed

context platform
begin

lemma transition_after:
  assumes "well_typed cfg P (look s)" "vw_job (view_of cfg (look s)) j = Some r"
  shows "\<exists>r'. vw_job (view_of cfg (look (state_after W (transition cfg j t attempt err) s x))) j = Some r' \<and>
           (r' = r \<and> t \<notin> allowed_transitions (job_status r) \<or>
            job_status r' = t \<and> t \<in> allowed_transitions (job_status r))"
proof -
  obtain now where "view_of cfg (look (state_after W (transition cfg j t attempt err) s x)) =
      snd (spec_transition now j t attempt err (view_of cfg (look s)))"
    using transition_spec [OF assms(1), of j t attempt err x] by (metis snd_conv)
  then show ?thesis using spec_transition_job [OF assms(2)] by metis
qed

lemma transition_purges:
  assumes "well_typed cfg P (look s)" "t \<in> terminal_states"
    "result_of W (transition cfg j t attempt err) s x = Inr r"
  shows "vw_token (view_of cfg (look (state_after W (transition cfg j t attempt err) s x))) j = None \<and>
         \<not> vw_cancel (view_of cfg (look (state_after W (transition cfg j t attempt err) s x))) j"
  using transition_spec [OF assms(1), of j t attempt err x] assms(2,3)
  by (metis spec_transition_purges)

end

lemma elapse_upd:
  "elapse n (ks(k \<mapsto> (v, Some t))) = (elapse n ks)(k := if t \<le> n then None else Some (v, Some (t - n)))"
  by (auto simp: elapse_def fun_eq_iff)

section \<open>Properties\<close>

text \<open>
  C3: the transition operation of the store refines its specification on every branch: an unknown
  job and a transition outside the table raise and leave all six maps as they were, a legal one
  stores the record with its status, attempt, error and time stamps set, and a terminal one also
  removes the staged token and the cancellation flag of that job and of no other.
\<close>

theorem transition_refines:
  assumes "platform W look" "well_typed cfg P (look s)"
  shows "\<exists>now. (result_of W (transition cfg j t attempt err) s x,
                view_of cfg (look (state_after W (transition cfg j t attempt err) s x))) =
               spec_transition now j t attempt err (view_of cfg (look s))"
  using assms by (rule platform.transition_spec)

theorem transition_refines_witness:
  "\<exists>now. (result_of mem_world (transition default_settings ''j'' RUNNING None None) mem_empty empty_ctx,
          view_of default_settings (mem_keys
            (state_after mem_world (transition default_settings ''j'' RUNNING None None) mem_empty empty_ctx))) =
         spec_transition now ''j'' RUNNING None None (view_of default_settings (mem_keys mem_empty))"
  by (rule transition_refines [OF platform_mem, where P = "\<lambda>_. True"]) (simp add: mem_empty_def)


definition demo_job :: job_record where
  "demo_job = \<lparr>job_id = ''j1'', job_domain = ''jira'', job_status = QUEUED, job_task = ''find it'',
     job_session_id = ''s1'', job_context = None, job_constraints = None, job_consumer_id = ''c1'',
     job_principal_hash = None, job_correlation_id = ''cid'', job_created_at = 0,
     job_started_at = None, job_finished_at = None, job_attempt = 0, job_max_attempts = 2,
     job_progress = \<lparr>pr_last_tool = None, pr_steps = 0\<rparr>, job_error = None\<rparr>"

definition demo_store :: mem where
  "demo_store = mem_empty\<lparr>mem_keys :=
     [key_of default_settings ''job'' ''j1'' \<mapsto> (VJob demo_job, Some 8400),
      key_of default_settings ''tok'' ''j1'' \<mapsto> (VStr ''blob'', Some 1320)]\<rparr>"

lemma demo_store_typed: "well_typed default_settings P (mem_keys demo_store)"
  by (auto simp: well_typed_def demo_store_def demo_job_def mem_empty_def)

lemma demo_store_job: "vw_job (view_of default_settings (mem_keys demo_store)) ''j1'' = Some demo_job"
  by (simp add: view_of_def demo_store_def)


text \<open>
  The moment a job reaches a terminal state its staged token ciphertext and its cancellation flag
  are gone from the store.
\<close>

theorem terminal_transition_purges:
  assumes "platform W look" "well_typed cfg P (look s)" "t \<in> terminal_states"
    and "result_of W (transition cfg j t attempt err) s x = Inr r"
  shows "vw_token (view_of cfg (look (state_after W (transition cfg j t attempt err) s x))) j = None \<and>
         \<not> vw_cancel (view_of cfg (look (state_after W (transition cfg j t attempt err) s x))) j"
  using assms by (rule platform.transition_purges)

theorem terminal_transition_purges_witness:
  "vw_token (view_of default_settings (mem_keys demo_store)) ''j1'' = Some ''blob'' \<and>
   vw_token (view_of default_settings (mem_keys (state_after mem_world
     (transition default_settings ''j1'' CANCELLED None None) demo_store empty_ctx))) ''j1'' = None"
proof -
  obtain now where "(result_of mem_world (transition default_settings ''j1'' CANCELLED None None) demo_store empty_ctx,
          view_of default_settings (mem_keys (state_after mem_world
            (transition default_settings ''j1'' CANCELLED None None) demo_store empty_ctx))) =
         spec_transition now ''j1'' CANCELLED None None (view_of default_settings (mem_keys demo_store))"
    using mem.transition_spec [OF demo_store_typed] by blast
  then obtain r where
    "result_of mem_world (transition default_settings ''j1'' CANCELLED None None) demo_store empty_ctx = Inr r"
    by (auto simp: spec_transition_def demo_store_job Let_def demo_job_def)
  then show ?thesis
    using terminal_transition_purges [OF platform_mem demo_store_typed, of CANCELLED "''j1''" None None empty_ctx r]
    by (simp add: view_of_def demo_store_def)
qed

text \<open>
  Keys never collide: for domains without a colon, two keys are the same only for the same domain,
  the same kind and the same identifier, whatever the identifier contains (an \<open>Idempotency-Key\<close> is
  chosen by the caller).
\<close>

theorem store_keys_disjoint:
  assumes "CHR '':'' \<notin> set (cf_domain cfg)" "CHR '':'' \<notin> set (cf_domain cfg')"
    and "k \<in> set kinds" "k' \<in> set kinds"
  shows "key_of cfg k i = key_of cfg' k' i' \<longleftrightarrow> cf_domain cfg = cf_domain cfg' \<and> k = k' \<and> i = i'"
  using colon_split [OF assms(1,2)] colon_split [OF kinds_no_colon [OF assms(3)] kinds_no_colon [OF assms(4)]]
  by (simp add: key_of_def)

theorem store_keys_disjoint_witness:
  "key_of default_settings ''idem'' ''x:job:1'' \<noteq> key_of default_settings ''job'' ''1''"
  using store_keys_disjoint [of default_settings default_settings "''idem''" "''job''" "''x:job:1''" "''1''"]
  by (simp add: default_settings_def kinds_def)

text \<open>
  A job record outlives its result exactly when the result is written within the run time the
  settings allow: created, left for \<open>wait\<close> seconds until the result is saved, the record is still
  readable as long as the result is if and only if \<open>wait\<close> is at most the time-out times the number
  of attempts. Time spent in the queue counts against it.
\<close>

theorem job_outlives_result_iff:
  assumes "platform W look" "settings_ok cfg" "0 \<le> wait"
    and "look s1 = elapse wait (look (state_after W (create_job cfg r) s x))"
  shows "(\<forall>n \<ge> 0. elapse n (look (state_after W (save_result cfg (job_id r) d) s1 x))
                    (key_of cfg ''result'' (job_id r)) \<noteq> None \<longrightarrow>
                 elapse n (look (state_after W (save_result cfg (job_id r) d) s1 x))
                    (key_of cfg ''job'' (job_id r)) \<noteq> None) \<longleftrightarrow>
         wait \<le> cf_job_timeout_s cfg * cf_job_max_attempts cfg"
proof -
  let ?T = "cf_job_timeout_s cfg * cf_job_max_attempts cfg"
  let ?ks = "\<lambda>n. elapse n (look (state_after W (save_result cfg (job_id r) d) s1 x))"
  note run = platform.run_create_job(1,2) [OF assms(1,2)] platform.run_save_result(1,2) [OF assms(1,2)]
  have res: "?ks n (key_of cfg ''result'' (job_id r)) \<noteq> None \<longleftrightarrow> n < cf_result_ttl_s cfg" for n
    by (simp add: run elapse_upd)
  have job: "?ks n (key_of cfg ''job'' (job_id r)) \<noteq> None \<longleftrightarrow>
      wait < job_ttl cfg \<and> n < job_ttl cfg - wait" for n
    by (auto simp: run assms(4) elapse_def)
  have "cf_result_ttl_s cfg - 1 < job_ttl cfg - wait \<longleftrightarrow> wait \<le> ?T"
    by (auto simp: job_ttl_def)
  moreover have "0 < cf_result_ttl_s cfg" using assms(2) by simp
  ultimately show ?thesis
    unfolding res job by (auto simp: job_ttl_def dest: spec [of _ "cf_result_ttl_s cfg - 1"])
qed

definition demo_result :: job_result_doc where
  "demo_result = \<lparr>rd_findings = \<lparr>fi_summary = ''found'', fi_sources = [], fi_details = []\<rparr>,
                  rd_proposed_actions = []\<rparr>"

theorem job_outlives_result_iff_witness:
  "\<exists>s1. mem_keys s1 = elapse 1201 (mem_keys (state_after mem_world
           (create_job default_settings demo_job) mem_empty empty_ctx)) \<and>
        \<not> (\<forall>n \<ge> 0. elapse n (mem_keys (state_after mem_world
             (save_result default_settings ''j1'' demo_result) s1 empty_ctx)) (key_of default_settings ''result'' ''j1'') \<noteq> None \<longrightarrow>
           elapse n (mem_keys (state_after mem_world
             (save_result default_settings ''j1'' demo_result) s1 empty_ctx)) (key_of default_settings ''job'' ''j1'') \<noteq> None)"
proof -
  let ?s1 = "mem_empty\<lparr>mem_keys := elapse 1201 (mem_keys (state_after mem_world
           (create_job default_settings demo_job) mem_empty empty_ctx))\<rparr>"
  have "settings_ok default_settings" by (simp add: settings_ok_def default_settings_def)
  then show ?thesis
    using job_outlives_result_iff [OF platform_mem, of default_settings 1201 ?s1 demo_job mem_empty empty_ctx demo_result]
    by (intro exI [of _ ?s1]) (simp add: demo_job_def default_settings_def)
qed

text \<open>
  C31: the read-modify-write of a job record is not atomic. A progress update that read the record
  before a concurrent cancellation writes the old status back: the terminal job is alive again, and
  its progress lands in a record that says running.
\<close>

definition running_store :: mem where
  "running_store = demo_store\<lparr>mem_keys := (mem_keys demo_store)
     (key_of default_settings ''job'' ''j1'' \<mapsto> (VJob (demo_job\<lparr>job_status := RUNNING\<rparr>), Some 8400))\<rparr>"


end
