(* ===== verification/Adapter_Base.thy ===== *)
theory Adapter_Base
  imports Redis_Store
begin

text \<open>
  \<^verbatim>\<open>app/adapters/base.py\<close>: the adapter contract. An adapter is a record of its operations
  (\<open>adapter\<close>); a Pydantic payload schema is the list of its fields with their constraints. The
  locale \<open>domain_adapter\<close> states what the base class asks of every implementation: research and
  precondition checks never mutate the target, execution sends at most one mutating request, and
  none before the payload has passed the schema. The shared concrete helpers \<open>validate_payload\<close>
  and \<open>read_request_with_backoff\<close> are here too.
\<close>

section \<open>Python's text of a value\<close>

definition hex2 :: "char \<Rightarrow> string" where
  "hex2 c = [hex_digit (of_char c div 16), hex_digit (of_char c mod 16)]"

definition repr_char :: "char \<Rightarrow> char \<Rightarrow> string" where
  "repr_char q c =
     (let n = (of_char c :: nat); b = char_of (92 :: nat) in
      if c = q \<or> n = 92 then [b, c]
      else if n = 10 then [b, CHR ''n''] else if n = 13 then [b, CHR ''r'']
      else if n = 9 then [b, CHR ''t'']
      else if n < 32 \<or> 127 \<le> n \<and> n \<le> 160 \<or> n = 173 then [b, CHR ''x''] @ hex2 c
      else [c])"

definition repr_str :: "string \<Rightarrow> string" where
  "repr_str s =
     (let a = char_of (39 :: nat); q = (if a \<in> set s \<and> dq \<notin> set s then dq else a) in
      q # concat (map (repr_char q) s) @ [q])"

fun py_repr :: "json \<Rightarrow> string" where
  "py_repr JNull = ''None''"
| "py_repr (JBool b) = (if b then ''True'' else ''False'')"
| "py_repr (JInt i) = show_int i"
| "py_repr (JFloat m e) = float_repr m e"
| "py_repr (JStr s) = repr_str s"
| "py_repr (JArr xs) = ''['' @ join '', '' (map py_repr xs) @ '']''"
| "py_repr (JObj d) = ''{'' @ join '', '' (map (\<lambda>(k, v). repr_str k @ '': '' @ py_repr v) d) @ ''}''"

definition py_str :: "json \<Rightarrow> string" where
  "py_str v = (case v of JStr s \<Rightarrow> s | _ \<Rightarrow> py_repr v)"

text \<open>\<open>v.get(k, dflt)\<close>, \<open>v[k]\<close> and \<open>iter(v)\<close> on an untyped value.\<close>

definition py_get :: "string \<Rightarrow> json \<Rightarrow> json \<Rightarrow> exn + json" where
  "py_get k dflt v =
     (case v of
        JObj d \<Rightarrow> Inr (case map_of d k of Some w \<Rightarrow> w | None \<Rightarrow> dflt)
      | _ \<Rightarrow> Inl (AttributeError ''get''))"

definition py_item :: "string \<Rightarrow> json \<Rightarrow> exn + json" where
  "py_item k v =
     (case v of
        JObj d \<Rightarrow> (case map_of d k of Some w \<Rightarrow> Inr w | None \<Rightarrow> Inl (KeyError k))
      | _ \<Rightarrow> Inl (TypeError ''indices''))"

definition py_iter :: "json \<Rightarrow> exn + json list" where
  "py_iter v =
     (case v of
        JArr xs \<Rightarrow> Inr xs
      | JObj d \<Rightarrow> Inr (map (\<lambda>(k, w). JStr k) d)
      | JStr s \<Rightarrow> Inr (map (\<lambda>c. JStr [c]) s)
      | _ \<Rightarrow> Inl (TypeError ''not iterable''))"

definition sbind :: "exn + 'a \<Rightarrow> ('a \<Rightarrow> exn + 'b) \<Rightarrow> exn + 'b" where
  "sbind x f = (case x of Inl e \<Rightarrow> Inl e | Inr a \<Rightarrow> f a)"

fun all_inr :: "(exn + 'a) list \<Rightarrow> exn + 'a list" where
  "all_inr [] = Inr []"
| "all_inr (Inl e # xs) = Inl e"
| "all_inr (Inr a # xs) = sbind (all_inr xs) (\<lambda>ys. Inr (a # ys))"

text \<open>\<open>str(exc)\<close>, for the exceptions whose text reaches a response.\<close>

definition exn_str :: "exn \<Rightarrow> string" where
  "exn_str e =
     (case e of
        UnsupportedActionError t \<Rightarrow> ''unsupported action_type: '' @ t
      | PayloadValidationError t errs \<Rightarrow> ''invalid payload for '' @ t
      | DownstreamError m s \<Rightarrow> m
      | ApiError s c m d \<Rightarrow> m
      | TokenVaultError m \<Rightarrow> m
      | RetryableJobError m \<Rightarrow> m
      | RuntimeError m \<Rightarrow> m
      | ValueError m \<Rightarrow> m
      | _ \<Rightarrow> [])"

section \<open>The contract\<close>

record credentials =
  cr_user_token :: "string option"
  cr_service_credential :: "string option"

record precondition_result =
  pc_ok :: bool
  pc_details :: dict

record execution_result =
  xr_result :: dict
  xr_resource_url :: "string option"

text \<open>Constraints of the fields of a payload schema: all of them are required; extras are ignored.\<close>

datatype field_rule = StrMin nat | DictMin nat

type_synonym schema = "(string \<times> field_rule) list"

text \<open>A read tool takes a text and, some of them, a limit; it answers a text.\<close>

type_synonym read_tool = "string \<times> (string \<Rightarrow> int option \<Rightarrow> string prog)"

record adapter =
  ad_name :: string
  ad_auth_mode :: auth_mode
  ad_read_tools :: "credentials \<Rightarrow> read_tool list"
  ad_instructions :: string
  ad_schemas :: "(string \<times> schema) list"
  ad_editable :: "string \<Rightarrow> string list"
  ad_check_preconditions :: "proposed_action \<Rightarrow> credentials \<Rightarrow> precondition_result prog"
  ad_execute :: "proposed_action \<Rightarrow> dict \<Rightarrow> credentials \<Rightarrow> execution_result prog"
  ad_service_credentials :: "exn + credentials"

text \<open>The defaults of the base class.\<close>

definition no_editable_fields :: "string \<Rightarrow> string list" where
  "no_editable_fields action_type = []"

definition no_service_credentials :: "string \<Rightarrow> exn + credentials" where
  "no_service_credentials name =
     Inl (NotImplementedError (name @ '': service_credentials not defined''))"

section \<open>Schema validation\<close>

text \<open>The kind of the failure of one field, \<open>None\<close> if it is valid.\<close>

definition field_failure :: "field_rule \<Rightarrow> json option \<Rightarrow> string option" where
  "field_failure rule v =
     (case v of
        None \<Rightarrow> Some ''missing''
      | Some w \<Rightarrow>
          (case rule of
             StrMin n \<Rightarrow>
               (case w of JStr s \<Rightarrow> if n \<le> length s then None else Some ''string_too_short''
                | _ \<Rightarrow> Some ''string_type'')
           | DictMin n \<Rightarrow>
               (case w of JObj d \<Rightarrow> if n \<le> length d then None else Some ''too_short''
                | _ \<Rightarrow> Some ''dict_type'')))"

text \<open>\<open>ValidationError.errors()\<close>, each entry with its kind and its location.\<close>

definition schema_errors :: "schema \<Rightarrow> dict \<Rightarrow> dict list" where
  "schema_errors sch p =
     concat (map (\<lambda>(k, rule).
       case field_failure rule (map_of p k) of
         None \<Rightarrow> [] | Some t \<Rightarrow> [[(''type'', JStr t), (''loc'', JArr [JStr k])]]) sch)"

text \<open>The validated model: the declared fields, in the order of declaration.\<close>

definition validate_payload :: "adapter \<Rightarrow> string \<Rightarrow> dict \<Rightarrow> exn + dict" where
  "validate_payload ad action_type p =
     (case map_of (ad_schemas ad) action_type of
        None \<Rightarrow> Inl (UnsupportedActionError action_type)
      | Some sch \<Rightarrow>
          if schema_errors sch p = [] then Inr (map (\<lambda>(k, rule). (k, dget k p)) sch)
          else Inl (PayloadValidationError action_type (schema_errors sch p)))"

definition valid_payload :: "adapter \<Rightarrow> string \<Rightarrow> dict \<Rightarrow> bool" where
  "valid_payload ad t p \<longleftrightarrow> (case validate_payload ad t p of Inr v \<Rightarrow> True | Inl e \<Rightarrow> False)"

section \<open>Backoff of read calls\<close>

text \<open>\<open>float(text)\<close> for decimal literals; digit groups with underscores are outside the model.\<close>

definition is_digits :: "string \<Rightarrow> bool" where
  "is_digits s \<longleftrightarrow> list_all is_digit s"

definition split_at :: "char \<Rightarrow> string \<Rightarrow> string \<times> string option" where
  "split_at c s =
     (case find_char c s of None \<Rightarrow> (s, None) | Some n \<Rightarrow> (take n s, Some (drop (Suc n) s)))"

definition signed :: "string \<Rightarrow> int \<times> string" where
  "signed s = (case s of [] \<Rightarrow> (1, [])
     | c # t \<Rightarrow> if c = CHR ''-'' then (- 1, t) else if c = CHR ''+'' then (1, t) else (1, s))"

definition read_exponent :: "string option \<Rightarrow> int option" where
  "read_exponent x =
     (case x of
        None \<Rightarrow> Some 0
      | Some t \<Rightarrow> (case signed t of (sg, ds) \<Rightarrow>
          if ds \<noteq> [] \<and> is_digits ds then Some (sg * int (read_nat ds)) else None))"

definition parse_float :: "string \<Rightarrow> exn + int \<times> int" where
  "parse_float text =
     (let bad = Inl (ValueError (''could not convert string to float: '' @ repr_str text)) in
      case signed (lower (strip text)) of (sg, s) \<Rightarrow>
        if s = ''inf'' \<or> s = ''infinity'' then Inl (OtherError ''OverflowError'')
        else if s = ''nan'' then Inl (ValueError ''cannot convert float NaN to integer'')
        else
          (case split_at (CHR ''e'') s of (mant, x) \<Rightarrow>
           case split_at (CHR ''.'') mant of (whole, frac) \<Rightarrow>
             let fs = (case frac of None \<Rightarrow> [] | Some f \<Rightarrow> f); ds = whole @ fs in
             if ds = [] \<or> \<not> is_digits ds then bad
             else (case read_exponent x of
                     None \<Rightarrow> bad
                   | Some n \<Rightarrow> Inr (sg * int (read_nat ds), n - int (length fs)))))"

definition retryable_status :: "int \<Rightarrow> bool" where
  "retryable_status n \<longleftrightarrow> n \<in> {429, 502, 503, 504}"

definition round_dec :: "int \<times> int \<Rightarrow> int" where
  "round_dec d = (case d of (m, e) \<Rightarrow>
     if 0 \<le> e then m * 10 ^ nat e else round_div m (10 ^ nat (- e)))"

text \<open>\<open>response.headers.get\<close>: case-insensitive, the values of repeated headers joined.\<close>

definition response_header :: "string \<Rightarrow> http_resp \<Rightarrow> string option" where
  "response_header k r =
     (case map snd (filter (\<lambda>(n, v). lower n = lower k) (hr_headers r)) of
        [] \<Rightarrow> None | vs \<Rightarrow> Some (join '', '' vs))"

definition retry_delay :: "int \<times> int \<Rightarrow> nat \<Rightarrow> http_resp \<Rightarrow> exn + int \<times> int" where
  "retry_delay base attempt response =
     (case response_header ''Retry-After'' response of
        Some h \<Rightarrow> if h \<noteq> [] then parse_float h else Inr (fst base * 2 ^ attempt, snd base)
      | None \<Rightarrow> Inr (fst base * 2 ^ attempt, snd base))"

text \<open>The loop, with the number of retries left; \<open>attempt\<close> counts up.\<close>

primrec backoff_loop :: "http_resp prog \<Rightarrow> int \<times> int \<Rightarrow> nat \<Rightarrow> nat \<Rightarrow> http_resp prog" where
  "backoff_loop send base attempt 0 = send"
| "backoff_loop send base attempt (Suc left) =
     bind send (\<lambda>response.
       if \<not> retryable_status (hr_status response) then Ret response
       else
         bind (lift_result (retry_delay base attempt response)) (\<lambda>delay.
         bind (emit_log INFO ''read_backoff'' ''backing off read call''
                [(''status'', show_int (hr_status response)),
                 (''duration_ms'', show_int (round_dec (fst delay, snd delay + 3)))]) (\<lambda>_.
         bind (async_sleep delay) (\<lambda>_.
         backoff_loop send base (Suc attempt) left))))"

definition max_read_retries :: nat where
  "max_read_retries = 3"

definition read_request_with_backoff :: "http_resp prog \<Rightarrow> http_resp prog" where
  "read_request_with_backoff send = backoff_loop send (5, - 1) 0 max_read_retries"

section \<open>Responses\<close>

definition raise_for_status :: "http_resp \<Rightarrow> unit prog" where
  "raise_for_status r =
     (if 200 \<le> hr_status r \<and> hr_status r \<le> 299 then Ret () else Raise (HttpxError ''HTTPStatusError''))"

definition response_json :: "http_resp \<Rightarrow> json prog" where
  "response_json r = (case loads (hr_body r) of None \<Rightarrow> Raise JSONDecodeError | Some v \<Rightarrow> Ret v)"

section \<open>What every adapter promises\<close>

text \<open>The commands an adapter may issue: it never touches Redis, the queue or the vault.\<close>

fun adapter_cmd :: "cmd \<Rightarrow> bool" where
  "adapter_cmd (HttpSend q) = True"
| "adapter_cmd (SleepFor d) = True"
| "adapter_cmd (LogLine l e m f) = True"
| "adapter_cmd NewUuid = True"
| "adapter_cmd _ = False"

fun is_http :: "cmd \<Rightarrow> bool" where
  "is_http (HttpSend q) = True"
| "is_http _ = False"

text \<open>\<open>mut\<close> tells which requests change the target system.\<close>

fun mutating :: "(http_req \<Rightarrow> bool) \<Rightarrow> cmd \<Rightarrow> bool" where
  "mutating mut (HttpSend q) = mut q"
| "mutating mut _ = False"

definition reading :: "(http_req \<Rightarrow> bool) \<Rightarrow> cmd \<Rightarrow> bool" where
  "reading mut c \<longleftrightarrow> adapter_cmd c \<and> \<not> mutating mut c"

lemma reading_simps [simp]:
  "reading mut (HttpSend q) \<longleftrightarrow> \<not> mut q" "reading mut (SleepFor d)" "reading mut (LogLine l e m f)"
  "reading mut NewUuid" "\<not> reading mut (RGet k)" "\<not> reading mut (RSetEx k v t)"
  "\<not> reading mut (RSetKeepTtl k v)" "\<not> reading mut (RDel k)"
  by (simp_all add: reading_def)

lemma mutating_is_http: "mutating mut c \<Longrightarrow> is_http c"
  by (cases c) auto

locale domain_adapter =
  fixes ad :: adapter
    and mut :: "http_req \<Rightarrow> bool"
  assumes tools_read:
      "t \<in> snd ` set (ad_read_tools ad cr) \<Longrightarrow> safe (reading mut) (\<lambda>_. True) (\<lambda>_. True) (t q n)"
    and check_reads:
      "safe (reading mut) (\<lambda>_. True) (\<lambda>_. True) (ad_check_preconditions ad a cr)"
    and execute_cmds: "safe adapter_cmd (\<lambda>_. True) (\<lambda>_. True) (ad_execute ad a p cr)"
    and execute_once: "at_most (mutating mut) 1 (ad_execute ad a p cr)"
    and execute_validates:
      "\<not> valid_payload ad (pa_action_type a) p \<Longrightarrow> at_most is_http 0 (ad_execute ad a p cr)"
begin

lemma check_never_mutates: "at_most (mutating mut) 0 (ad_check_preconditions ad a cr)"
  by (rule at_most_none, rule safe_mono [OF check_reads]) (auto simp: reading_def)

lemma tool_never_mutates:
  "t \<in> snd ` set (ad_read_tools ad cr) \<Longrightarrow> at_most (mutating mut) 0 (t q n)"
  by (rule at_most_none, rule safe_mono [OF tools_read]) (auto simp: reading_def)

lemma check_adapter_cmd: "safe adapter_cmd (\<lambda>_. True) (\<lambda>_. True) (ad_check_preconditions ad a cr)"
  by (rule safe_mono [OF check_reads]) (auto simp: reading_def)

text \<open>The target system is touched by a check and an execution, in total at most one mutation.\<close>

lemma check_then_execute_once:
  "(\<And>pc. at_most (mutating mut) 0 (g pc)) \<Longrightarrow>
   at_most (mutating mut) 1
     (bind (ad_check_preconditions ad a cr) (\<lambda>pc. bind (g pc) (\<lambda>_. ad_execute ad a p cr)))"
  using at_most_bind [OF check_never_mutates, of 1] at_most_bind [of "mutating mut" 0 _ 1] execute_once
  by (metis add_0)

end

section \<open>Facts about the shared helpers\<close>

lemma validate_payload_cases:
  "(\<exists>v. validate_payload ad t p = Inr v) \<or> validate_payload ad t p = Inl (UnsupportedActionError t) \<or>
   (\<exists>errs. validate_payload ad t p = Inl (PayloadValidationError t errs))"
  by (auto simp: validate_payload_def split: option.split)

lemma valid_payload_iff: "valid_payload ad t p \<longleftrightarrow> (\<exists>v. validate_payload ad t p = Inr v)"
  by (auto simp: valid_payload_def split: sum.split)

lemma schema_errors_Nil:
  "schema_errors sch p = [] \<longleftrightarrow> (\<forall>(k, rule) \<in> set sch. field_failure rule (map_of p k) = None)"
  by (auto simp: schema_errors_def split: option.splits)

lemma field_failure_None:
  "field_failure (StrMin n) v = None \<longleftrightarrow> (\<exists>s. v = Some (JStr s) \<and> n \<le> length s)"
  "field_failure (DictMin n) v = None \<longleftrightarrow> (\<exists>d. v = Some (JObj d) \<and> n \<le> length d)"
  by (auto simp: field_failure_def split: option.splits json.splits)

lemma backoff_at_most:
  assumes "at_most Q 1 send" "\<And>l e m f. \<not> Q (LogLine l e m f)" "\<And>d. \<not> Q (SleepFor d)"
  shows "at_most Q (Suc left) (backoff_loop send base attempt left)"
proof (induction left arbitrary: attempt)
  case 0
  then show ?case using assms(1) by simp
next
  case (Suc left)
  have "at_most Q (1 + Suc left) (backoff_loop send base attempt (Suc left))"
    unfolding backoff_loop.simps
  proof (rule at_most_bind [OF assms(1)])
    fix r
    have rest: "at_most Q (Suc left) (backoff_loop send base (Suc attempt) left)" by (rule Suc.IH)
    then have "at_most Q (0 + Suc left) (bind (async_sleep d) (\<lambda>_. backoff_loop send base (Suc attempt) left))" for d
      by (intro at_most_bind) (auto simp: async_sleep_def assms(3) split: reply.split)
    then have "at_most Q (0 + Suc left) (bind (emit_log l e m f)
        (\<lambda>_. bind (async_sleep d) (\<lambda>_. backoff_loop send base (Suc attempt) left)))" for l e m f d
      by (intro at_most_bind) (auto simp: emit_log_def assms(2))
    then have "at_most Q (0 + Suc left) (bind (lift_result (retry_delay base attempt r)) (\<lambda>delay.
        bind (emit_log INFO ''read_backoff'' ''backing off read call''
                [(''status'', show_int (hr_status r)),
                 (''duration_ms'', show_int (round_dec (fst delay, snd delay + 3)))])
          (\<lambda>_. bind (async_sleep delay) (\<lambda>_. backoff_loop send base (Suc attempt) left))))"
      by (intro at_most_bind) auto
    then show "at_most Q (Suc left) (if \<not> retryable_status (hr_status r) then Ret r
         else bind (lift_result (retry_delay base attempt r)) (\<lambda>delay.
        bind (emit_log INFO ''read_backoff'' ''backing off read call''
                [(''status'', show_int (hr_status r)),
                 (''duration_ms'', show_int (round_dec (fst delay, snd delay + 3)))])
          (\<lambda>_. bind (async_sleep delay) (\<lambda>_. backoff_loop send base (Suc attempt) left))))"
      by simp
  qed
  then show ?case by simp
qed

lemma safe_backoff:
  assumes "safe Q (\<lambda>_. True) (\<lambda>_. True) send" "\<And>l e m f. Q (LogLine l e m f)" "\<And>d. Q (SleepFor d)"
  shows "safe Q (\<lambda>_. True) (\<lambda>_. True) (backoff_loop send base attempt left)"
proof (induction left arbitrary: attempt)
  case (Suc left)
  show ?case unfolding backoff_loop.simps
    by (rule safe_bind [OF assms(1)])
      (auto simp: call_defs assms(2,3) intro!: safe_bind [where R = "\<lambda>_. True"] safe_lift_result Suc.IH
        split: sum.split reply.split)
qed (simp add: assms(1))

lemma safe_downstream_headers: "Q NewUuid \<Longrightarrow> safe Q (\<lambda>_. True) (\<lambda>_. True) downstream_headers"
  by (auto simp: downstream_headers_def current_correlation_id_def new_id_def set_correlation_id_def
      call_defs split: option.split reply.split)

lemma safe_http_send: "Q (HttpSend q) \<Longrightarrow> safe Q (\<lambda>_. True) (\<lambda>_. True) (http_send q)"
  by (auto simp: http_send_def bad_reply_def split: reply.split)

lemma safe_response [simp]:
  "safe Q (\<lambda>_. True) (\<lambda>_. True) (raise_for_status r)"
  "safe Q (\<lambda>_. True) (\<lambda>_. True) (response_json r)"
  by (auto simp: raise_for_status_def response_json_def split: option.split)

lemma safe_lift [simp]: "safe Q (\<lambda>_. True) (\<lambda>_. True) (lift_result v)"
  by (rule safe_lift_result) (simp split: sum.split)

lemma safe_read:
  assumes "reading mut (HttpSend q)"
  shows "safe (reading mut) (\<lambda>_. True) (\<lambda>_. True) (read_request_with_backoff (http_send q))"
  unfolding read_request_with_backoff_def
  by (rule safe_backoff) (use assms in \<open>auto intro: safe_http_send\<close>)

lemma at_most_http_send: "at_most Q (Suc 0) (http_send q)"
  by (auto simp: http_send_def bad_reply_def split: reply.split)

lemma at_most_response [simp]: "at_most Q n (response_json r)"
  by (auto simp: response_json_def split: option.split)

lemma at_most_after: "at_most Q n p \<Longrightarrow> (\<And>a. at_most Q 0 (f a)) \<Longrightarrow> at_most Q n (bind p f)"
  using at_most_bind [of Q n p 0 f] by simp

lemma at_most_before: "at_most Q 0 p \<Longrightarrow> (\<And>a. at_most Q n (f a)) \<Longrightarrow> at_most Q n (bind p f)"
  using at_most_bind [of Q 0 p n f] by simp

text \<open>What the loop has sent when it returns.\<close>

definition http_replies :: "(cmd \<times> reply) list \<Rightarrow> reply list" where
  "http_replies tr = map snd (filter (\<lambda>(c, r). is_http c) tr)"

lemma http_replies_simps [simp]:
  "http_replies [] = []" "http_replies (a @ b) = http_replies a @ http_replies b"
  "http_replies ((HttpSend q, r) # tr) = r # http_replies tr"
  by (simp_all add: http_replies_def)

lemma http_send_Inr:
  assumes "result_of W (http_send q) s x = Inr r"
  shows "trace_of W (http_send q) s x = [(HttpSend q, RHttp r)]"
  using assms by (auto simp: http_send_def bad_reply_def split: reply.splits)

lemma silent_calls:
  "http_replies (trace_of W (emit_log l e m f) s x) = []"
  "http_replies (trace_of W (async_sleep d) s x) = []"
  by (auto simp: emit_log_def async_sleep_def http_replies_def split: reply.split)

lemma backoff_loop_replies:
  assumes "result_of W (backoff_loop (http_send q) base attempt left) s x = Inr r"
  shows "\<exists>rs. http_replies (trace_of W (backoff_loop (http_send q) base attempt left) s x) =
             map RHttp (rs @ [r]) \<and>
           (\<forall>y \<in> set rs. retryable_status (hr_status y)) \<and> length rs \<le> left \<and>
           (retryable_status (hr_status r) \<longrightarrow> length rs = left)"
  using assms
proof (induction left arbitrary: attempt s x)
  case 0
  then have "result_of W (http_send q) s x = Inr r" by simp
  then show ?case by (intro exI [of _ "[]"]) (simp add: http_send_Inr)
next
  case (Suc left)
  from Suc.prems obtain y where y: "result_of W (http_send q) s x = Inr y"
    by (auto simp: run_simps split: sum.splits)
  show ?case
  proof (cases "retryable_status (hr_status y)")
    case False
    with Suc.prems y have "r = y" by (simp add: run_simps)
    with False y show ?thesis
      by (intro exI [of _ "[]"]) (simp add: run_simps http_send_Inr)
  next
    case True
    let ?p = "backoff_loop (http_send q) base (Suc attempt) left"
    obtain d s' x' where more: "result_of W ?p s' x' = Inr r"
      and tr: "http_replies (trace_of W (backoff_loop (http_send q) base attempt (Suc left)) s x) =
               RHttp y # http_replies (trace_of W ?p s' x')"
      using Suc.prems y True
      by (auto simp: run_simps http_send_Inr silent_calls split: sum.splits)
    from Suc.IH [OF more] obtain rs where
      "http_replies (trace_of W ?p s' x') = map RHttp (rs @ [r])"
      "\<forall>y \<in> set rs. retryable_status (hr_status y)" "length rs \<le> left"
      "retryable_status (hr_status r) \<longrightarrow> length rs = left" by blast
    with True tr show ?thesis by (intro exI [of _ "y # rs"]) simp
  qed
qed

section \<open>Properties\<close>


definition demo_get :: http_req where
  "demo_get = \<lparr>hq_method = HGET, hq_url = ''https://jira/rest/api/2/issue/P-1'', hq_params = [],
               hq_json = None, hq_headers = []\<rparr>"

definition demo_resp :: "int \<Rightarrow> string \<Rightarrow> http_resp" where
  "demo_resp n body = \<lparr>hr_status = n, hr_headers = [(''retry-after'', ''2'')], hr_body = body\<rparr>"

definition busy_store :: mem where
  "busy_store = mem_empty\<lparr>mem_http := [RHttp (demo_resp 503 []), RHttp (demo_resp 429 []), RHttp (demo_resp 200 ''{}'')]\<rparr>"

lemma demo_retry: "retry_delay (5, - 1) n (demo_resp 503 []) = Inr (2, 0)"
  "retry_delay (5, - 1) n (demo_resp 429 []) = Inr (2, 0)"
  by code_simp+


end
