(* ===== verification/Jira_Adapter.thy ===== *)
theory Jira_Adapter
  imports Adapter_Base
begin

text \<open>
  \<^verbatim>\<open>app/adapters/jira.py\<close>: the reference adapter of the mode \<open>USER_PAT\<close>. Three read tools, two
  mutations with live precondition checks. The HTTP client is the world; its failures are answers of
  \<open>HttpSend\<close>.
\<close>

section \<open>The client\<close>

definition jira_api :: string where
  "jira_api = ''/rest/api/2''"

definition opt_text :: "string option \<Rightarrow> string" where
  "opt_text v = (case v of Some s \<Rightarrow> s | None \<Rightarrow> ''None'')"

definition jira_headers :: "credentials \<Rightarrow> (string \<times> string) list prog" where
  "jira_headers cr =
     bind downstream_headers (\<lambda>h.
     Ret ([(''Authorization'', ''Bearer '' @ opt_text (cr_user_token cr)),
           (''Accept'', ''application/json'')] @ h))"

definition jira_request ::
    "string \<Rightarrow> http_method \<Rightarrow> string \<Rightarrow> dict \<Rightarrow> json option \<Rightarrow> (string \<times> string) list \<Rightarrow> http_req" where
  "jira_request base m path params body h =
     \<lparr>hq_method = m, hq_url = base @ jira_api @ path, hq_params = params, hq_json = body, hq_headers = h\<rparr>"

section \<open>Read tools\<close>

definition or_empty :: "json \<Rightarrow> json" where
  "or_empty v = (if truthy v then v else JObj [])"

text \<open>\<open>(fields.get(k) or {}).get(name)\<close>\<close>

definition nested_get :: "string \<Rightarrow> string \<Rightarrow> json \<Rightarrow> exn + json" where
  "nested_get k name flds = sbind (py_get k JNull flds) (\<lambda>v. py_get name JNull (or_empty v))"

definition issue_row :: "json \<Rightarrow> exn + json" where
  "issue_row issue =
     sbind (py_item ''key'' issue) (\<lambda>key.
     sbind (py_item ''fields'' issue) (\<lambda>flds.
     sbind (py_get ''summary'' JNull flds) (\<lambda>summary.
     sbind (nested_get ''status'' ''name'' flds) (\<lambda>status.
     sbind (nested_get ''assignee'' ''displayName'' flds) (\<lambda>assignee.
     sbind (py_get ''updated'' JNull flds) (\<lambda>updated.
     Inr (JObj [(''key'', key), (''summary'', summary), (''status'', status),
                (''assignee'', assignee), (''updated'', updated)])))))))"

definition search_report :: "json \<Rightarrow> exn + string" where
  "search_report body =
     sbind (py_get ''issues'' (JArr []) body) (\<lambda>v.
     sbind (py_iter v) (\<lambda>xs.
     sbind (all_inr (map issue_row xs)) (\<lambda>rows.
     Inr (dumps_default (JObj [(''total'', JInt (int (length rows))), (''issues'', JArr rows)])))))"

definition tool_limit :: "int \<Rightarrow> int option \<Rightarrow> int" where
  "tool_limit dflt n = (case n of None \<Rightarrow> dflt | Some k \<Rightarrow> k)"

definition search_issues :: "string \<Rightarrow> credentials \<Rightarrow> string \<Rightarrow> int option \<Rightarrow> string prog" where
  "search_issues base cr jql max_results =
     bind (jira_headers cr) (\<lambda>h.
     bind (read_request_with_backoff (http_send (jira_request base HGET ''/search''
             [(''jql'', JStr jql), (''maxResults'', JInt (min (tool_limit 20 max_results) 50)),
              (''fields'', JStr ''summary,status,assignee,updated,issuetype'')] None h))) (\<lambda>response.
     bind (raise_for_status response) (\<lambda>_.
     bind (response_json response) (\<lambda>body.
     lift_result (search_report body)))))"

definition get_issue :: "string \<Rightarrow> credentials \<Rightarrow> string \<Rightarrow> int option \<Rightarrow> string prog" where
  "get_issue base cr issue_key n =
     bind (jira_headers cr) (\<lambda>h.
     bind (read_request_with_backoff
             (http_send (jira_request base HGET (''/issue/'' @ issue_key) [] None h))) (\<lambda>response.
     bind (raise_for_status response) (\<lambda>_.
     bind (response_json response) (\<lambda>body.
     Ret (dumps_default body)))))"

definition get_issue_comments :: "string \<Rightarrow> credentials \<Rightarrow> string \<Rightarrow> int option \<Rightarrow> string prog" where
  "get_issue_comments base cr issue_key max_results =
     bind (jira_headers cr) (\<lambda>h.
     bind (read_request_with_backoff
             (http_send (jira_request base HGET (''/issue/'' @ issue_key @ ''/comment'')
               [(''maxResults'', JInt (min (tool_limit 20 max_results) 50))] None h))) (\<lambda>response.
     bind (raise_for_status response) (\<lambda>_.
     bind (response_json response) (\<lambda>body.
     Ret (dumps_default body)))))"

definition jira_read_tools :: "string \<Rightarrow> credentials \<Rightarrow> read_tool list" where
  "jira_read_tools base cr =
     [(''search_issues'', search_issues base cr), (''get_issue'', get_issue base cr),
      (''get_issue_comments'', get_issue_comments base cr)]"

definition jira_instructions :: string where
  "jira_instructions =
     ''You are researching Jira. Use JQL via search_issues to locate '' @
     ''issues, then get_issue/get_issue_comments for detail. When you '' @
     ''propose update_issue or add_comment actions, include the issue's '' @
     ''current status as preconditions.expected_status so execution can '' @
     ''detect drift.''"

section \<open>Mutations\<close>

definition update_issue_schema :: schema where
  "update_issue_schema = [(''issue_key'', StrMin 1), (''fields'', DictMin 1)]"

definition add_comment_schema :: schema where
  "add_comment_schema = [(''issue_key'', StrMin 1), (''body'', StrMin 1)]"

definition jira_schemas :: "(string \<times> schema) list" where
  "jira_schemas = [(''update_issue'', update_issue_schema), (''add_comment'', add_comment_schema)]"

definition jira_editable :: "string \<Rightarrow> string list" where
  "jira_editable action_type = (if action_type = ''add_comment'' then [''body''] else [])"

text \<open>The first stated precondition that the live state contradicts; unknown names are skipped.\<close>

definition first_drift :: "dict \<Rightarrow> dict \<Rightarrow> (string \<times> json \<times> json) option" where
  "first_drift actual pres =
     (case List.find (\<lambda>(name, expected).
             case map_of actual name of None \<Rightarrow> False | Some v \<Rightarrow> \<not> pyeq v expected) pres of
        None \<Rightarrow> None
      | Some (name, expected) \<Rightarrow> Some (name, expected, dget name actual))"

definition live_state :: "json \<Rightarrow> exn + dict" where
  "live_state body =
     sbind (py_get ''fields'' (JObj []) body) (\<lambda>flds.
     sbind (nested_get ''status'' ''name'' flds) (\<lambda>status.
     sbind (py_get ''updated'' JNull flds) (\<lambda>updated.
     Inr [(''expected_status'', status), (''expected_updated'', updated)])))"

definition jira_check_preconditions ::
    "string \<Rightarrow> proposed_action \<Rightarrow> credentials \<Rightarrow> precondition_result prog" where
  "jira_check_preconditions base action cr =
     (let issue_key = dget ''issue_key'' (pa_payload action) in
      if \<not> truthy issue_key
      then Ret \<lparr>pc_ok = False, pc_details = [(''reason'', JStr ''payload missing issue_key'')]\<rparr>
      else
        bind (jira_headers cr) (\<lambda>h.
        bind (http_send (jira_request base HGET (''/issue/'' @ py_str issue_key) [] None h)) (\<lambda>response.
        if hr_status response = 404
        then Ret \<lparr>pc_ok = False,
                  pc_details = [(''reason'', JStr (''issue '' @ py_str issue_key @ '' not found''))]\<rparr>
        else if 400 \<le> hr_status response
        then Raise (DownstreamError
               (''Jira precondition check failed ('' @ show_int (hr_status response) @ '')'')
               (Some (hr_status response)))
        else
          bind (response_json response) (\<lambda>body.
          bind (lift_result (live_state body)) (\<lambda>actual.
          Ret (case first_drift actual (pa_preconditions action) of
                 Some (name, expected, v) \<Rightarrow>
                   \<lparr>pc_ok = False, pc_details = [(''precondition'', JStr name),
                      (''expected'', expected), (''actual'', v)]\<rparr>
               | None \<Rightarrow> \<lparr>pc_ok = True, pc_details = []\<rparr>))))))"

definition text_of :: "string \<Rightarrow> dict \<Rightarrow> string" where
  "text_of k v = (case dget k v of JStr s \<Rightarrow> s | _ \<Rightarrow> [])"

definition keys_of :: "string \<Rightarrow> dict \<Rightarrow> string list" where
  "keys_of k v = (case dget k v of JObj d \<Rightarrow> map fst d | _ \<Rightarrow> [])"

definition jira_execute ::
    "adapter \<Rightarrow> string \<Rightarrow> proposed_action \<Rightarrow> dict \<Rightarrow> credentials \<Rightarrow> execution_result prog" where
  "jira_execute self base action approved_payload cr =
     bind (lift_result (validate_payload self (pa_action_type action) approved_payload)) (\<lambda>payload.
     let issue_key = text_of ''issue_key'' payload in
     bind (jira_headers cr) (\<lambda>h.
     if pa_action_type action = ''update_issue'' then
       bind (http_send (jira_request base HPUT (''/issue/'' @ issue_key) []
               (Some (JObj [(''fields'', dget ''fields'' payload)])) h)) (\<lambda>response.
       if 400 \<le> hr_status response
       then Raise (DownstreamError
              (''Jira update_issue failed ('' @ show_int (hr_status response) @ '')'')
              (Some (hr_status response)))
       else
         Ret \<lparr>xr_result = [(''issue_key'', JStr issue_key),
                (''updated_fields'', JArr (map JStr (sort (keys_of ''fields'' payload))))],
              xr_resource_url = Some (base @ ''/browse/'' @ issue_key)\<rparr>)
     else
       bind (http_send (jira_request base HPOST (''/issue/'' @ issue_key @ ''/comment'') []
               (Some (JObj [(''body'', dget ''body'' payload)])) h)) (\<lambda>response.
       if 400 \<le> hr_status response
       then Raise (DownstreamError
              (''Jira add_comment failed ('' @ show_int (hr_status response) @ '')'')
              (Some (hr_status response)))
       else
         bind (response_json response) (\<lambda>body.
         bind (lift_result (py_get ''id'' JNull body)) (\<lambda>comment_id.
         Ret \<lparr>xr_result = [(''issue_key'', JStr issue_key), (''comment_id'', comment_id)],
              xr_resource_url = Some (base @ ''/browse/'' @ issue_key @ ''?focusedCommentId='' @
                                      py_str comment_id)\<rparr>)))))"

text \<open>The adapter object. \<open>execute\<close> calls back \<open>self.validate_payload\<close>, which reads the schemas.\<close>

definition jira_self :: adapter where
  "jira_self = \<lparr>ad_name = ''jira'', ad_auth_mode = USER_PAT, ad_read_tools = (\<lambda>cr. []),
     ad_instructions = jira_instructions, ad_schemas = jira_schemas, ad_editable = jira_editable,
     ad_check_preconditions = (\<lambda>a cr. Raise (NotImplementedError [])),
     ad_execute = (\<lambda>a p cr. Raise (NotImplementedError [])),
     ad_service_credentials = no_service_credentials ''jira''\<rparr>"

definition jira_adapter :: "string \<Rightarrow> adapter" where
  "jira_adapter base_url =
     (let base = rstrip_char (CHR ''/'') base_url in
      jira_self\<lparr>ad_read_tools := jira_read_tools base,
                ad_check_preconditions := jira_check_preconditions base,
                ad_execute := jira_execute jira_self base\<rparr>)"

section \<open>The contract holds\<close>

definition jira_mutates :: "http_req \<Rightarrow> bool" where
  "jira_mutates q \<longleftrightarrow> hq_method q \<noteq> HGET"

lemma jira_mutates_request [simp]:
  "jira_mutates (jira_request base m path params body h) \<longleftrightarrow> m \<noteq> HGET"
  by (simp add: jira_mutates_def jira_request_def)

lemma validate_payload_jira [simp]:
  "validate_payload (jira_adapter base) = validate_payload jira_self"
  by (simp add: fun_eq_iff validate_payload_def jira_adapter_def Let_def)

lemma safe_jira_headers: "Q NewUuid \<Longrightarrow> safe Q (\<lambda>_. True) (\<lambda>_. True) (jira_headers cr)"
  unfolding jira_headers_def by (rule safe_bind, erule safe_downstream_headers) simp

lemma jira_tools_read:
  "t \<in> snd ` set (jira_read_tools base cr) \<Longrightarrow> safe (reading jira_mutates) (\<lambda>_. True) (\<lambda>_. True) (t q n)"
  by (auto simp: jira_read_tools_def search_issues_def get_issue_def get_issue_comments_def
      intro!: safe_bind [where R = "\<lambda>_. True"] safe_jira_headers safe_read)

lemma jira_check_reads:
  "safe (reading jira_mutates) (\<lambda>_. True) (\<lambda>_. True) (jira_check_preconditions base a cr)"
  by (auto simp: jira_check_preconditions_def Let_def
      intro!: safe_bind [where R = "\<lambda>_. True"] safe_jira_headers safe_http_send)

lemma jira_execute_cmds: "safe adapter_cmd (\<lambda>_. True) (\<lambda>_. True) (jira_execute self base a p cr)"
  by (auto simp: jira_execute_def Let_def
      intro!: safe_bind [where R = "\<lambda>_. True"] safe_jira_headers safe_http_send)

lemma at_most_jira_headers: "at_most (mutating mut) 0 (jira_headers cr)"
  by (rule at_most_none, rule safe_jira_headers) simp

lemma jira_execute_once: "at_most (mutating jira_mutates) (Suc 0) (jira_execute self base a p cr)"
  unfolding jira_execute_def Let_def
  by (auto intro!: at_most_before [OF at_most_lift_result] at_most_before [OF at_most_jira_headers]
      at_most_after [OF at_most_http_send] at_most_before [OF at_most_response])

lemma jira_execute_validates:
  "\<not> valid_payload self (pa_action_type a) p \<Longrightarrow> at_most is_http 0 (jira_execute self base a p cr)"
  using validate_payload_cases [of self "pa_action_type a" p]
  by (auto simp: jira_execute_def valid_payload_def lift_result_def)

interpretation jira: domain_adapter "jira_adapter base" jira_mutates
proof
  show "t \<in> snd ` set (ad_read_tools (jira_adapter base) cr) \<Longrightarrow>
      safe (reading jira_mutates) (\<lambda>_. True) (\<lambda>_. True) (t q n)" for t cr q n
    by (auto simp: jira_adapter_def Let_def dest: imageI [THEN jira_tools_read])
  show "\<not> valid_payload (jira_adapter base) (pa_action_type a) p \<Longrightarrow>
      at_most is_http 0 (ad_execute (jira_adapter base) a p cr)" for a p cr
    using jira_execute_validates [of jira_self a p]
    by (simp add: valid_payload_def) (simp add: jira_adapter_def Let_def)
qed (simp_all add: jira_adapter_def Let_def jira_check_reads jira_execute_cmds
  jira_execute_once)

section \<open>What a check and an execution have sent\<close>

definition http_calls :: "(cmd \<times> reply) list \<Rightarrow> (cmd \<times> reply) list" where
  "http_calls tr = filter (\<lambda>(c, r). is_http c) tr"

lemma http_calls_simps [simp]:
  "http_calls [] = []" "http_calls (a @ b) = http_calls a @ http_calls b"
  "http_calls ((HttpSend q, r) # tr) = (HttpSend q, r) # http_calls tr"
  by (simp_all add: http_calls_def)

lemma http_calls_none: "at_most is_http 0 p \<Longrightarrow> http_calls (trace_of W p s x) = []"
  using at_most_trace [of is_http 0 p W s x] by (simp add: http_calls_def)

lemma http_calls_headers: "http_calls (trace_of W (jira_headers cr) s x) = []"
  by (rule http_calls_none, rule at_most_none, rule safe_jira_headers) simp

lemma http_calls_send:
  assumes "result_of W (http_send q) s x = Inr r"
  shows "http_calls (trace_of W (http_send q) s x) = [(HttpSend q, RHttp r)]"
  using http_send_Inr [OF assms] by simp

lemma http_calls_quiet [simp]:
  "http_calls (trace_of W (response_json r) s x) = []" "http_calls (trace_of W (lift_result v) s x) = []"
  by (simp_all add: http_calls_none)

lemma first_drift_None:
  "first_drift actual pres = None \<longleftrightarrow>
     (\<forall>(name, expected) \<in> set pres. \<forall>v. map_of actual name = Some v \<longrightarrow> pyeq v expected)"
proof -
  let ?P = "\<lambda>(name, expected). case map_of actual name of None \<Rightarrow> False | Some v \<Rightarrow> \<not> pyeq v expected"
  have "first_drift actual pres = None \<longleftrightarrow> List.find ?P pres = None"
    by (auto simp: first_drift_def split: option.split)
  then show ?thesis unfolding find_None_iff by (auto split: option.splits)
qed

text \<open>The request each action stands for.\<close>

definition intended_request :: "string \<Rightarrow> proposed_action \<Rightarrow> dict \<Rightarrow> (string \<times> string) list \<Rightarrow> http_req" where
  "intended_request base a p h =
     (if pa_action_type a = ''update_issue''
      then jira_request base HPUT (''/issue/'' @ text_of ''issue_key'' p) []
             (Some (JObj [(''fields'', dget ''fields'' p)])) h
      else jira_request base HPOST (''/issue/'' @ text_of ''issue_key'' p @ ''/comment'') []
             (Some (JObj [(''body'', dget ''body'' p)])) h)"

lemma validated_fields:
  assumes "validate_payload jira_self t p = Inr v"
  shows "text_of ''issue_key'' v = text_of ''issue_key'' p"
    and "t = ''update_issue'' \<Longrightarrow> dget ''fields'' v = dget ''fields'' p"
    and "t \<noteq> ''update_issue'' \<Longrightarrow> dget ''body'' v = dget ''body'' p"
  using assms
  by (auto simp: validate_payload_def jira_self_def jira_schemas_def update_issue_schema_def
      add_comment_schema_def text_of_def dget_def split: if_splits)

lemma jira_execute_sent:
  assumes "result_of W (jira_execute jira_self base a p cr) s x = Inr out"
  shows "\<exists>h r. http_calls (trace_of W (jira_execute jira_self base a p cr) s x) =
           [(HttpSend (intended_request base a p h), RHttp r)] \<and> hr_status r < 400"
proof -
  obtain v where v: "validate_payload jira_self (pa_action_type a) p = Inr v"
    using assms by (auto simp: jira_execute_def run_simps split: sum.splits)
  note fields = validated_fields [OF v]
  show ?thesis
  proof (cases "pa_action_type a = ''update_issue''")
    case True
    with assms v show ?thesis
      by (auto simp: jira_execute_def run_simps Let_def http_calls_headers http_calls_send
          intended_request_def fields split: sum.splits if_splits)
  next
    case False
    with assms v show ?thesis
      by (auto simp: jira_execute_def run_simps Let_def http_calls_headers http_calls_send
          intended_request_def fields split: sum.splits if_splits)
  qed
qed

lemma jira_auth_mode [simp]: "ad_auth_mode (jira_adapter base) = USER_PAT"
  by (simp add: jira_adapter_def jira_self_def Let_def)

section \<open>Properties\<close>

text \<open>
  The payloads the Jira adapter accepts are exactly these: an \<open>update_issue\<close> with a non-empty issue
  key and a non-empty object of fields, or an \<open>add_comment\<close> with a non-empty issue key and a
  non-empty body.
\<close>

theorem jira_valid_payload_iff:
  "valid_payload (jira_adapter base) t p \<longleftrightarrow>
     (\<exists>k. map_of p ''issue_key'' = Some (JStr k) \<and> k \<noteq> [] \<and>
        (t = ''update_issue'' \<and> (\<exists>d. map_of p ''fields'' = Some (JObj d) \<and> d \<noteq> []) \<or>
         t = ''add_comment'' \<and> (\<exists>b. map_of p ''body'' = Some (JStr b) \<and> b \<noteq> [])))"
  by (auto simp: valid_payload_def validate_payload_def jira_adapter_def jira_self_def Let_def
      jira_schemas_def update_issue_schema_def add_comment_schema_def schema_errors_Nil
      field_failure_None Suc_le_eq)

definition demo_action :: proposed_action where
  "demo_action = \<lparr>pa_action_id = ''a1'', pa_action_type = ''update_issue'', pa_target = [],
     pa_payload = [(''issue_key'', JStr ''P-1''), (''fields'', JObj [(''priority'', JStr ''High'')])],
     pa_preview = [], pa_preconditions = [(''expected_status'', JStr ''Open'')],
     pa_expires_at = 1800000000, pa_editable_fields = [], pa_correlation_id = ''cid''\<rparr>"

definition demo_credentials :: credentials where
  "demo_credentials = \<lparr>cr_user_token = Some ''pat'', cr_service_credential = None\<rparr>"

definition demo_ctx :: ctx where
  "demo_ctx = empty_ctx\<lparr>cx_correlation_id := Some ''cid''\<rparr>"

definition demo_issue :: json where
  "demo_issue = JObj [(''fields'', JObj [(''status'', JObj [(''name'', JStr ''Open'')])])]"

definition demo_issue_resp :: http_resp where
  "demo_issue_resp = \<lparr>hr_status = 200, hr_headers = [], hr_body = dumps_default demo_issue\<rparr>"

definition demo_done_resp :: http_resp where
  "demo_done_resp = \<lparr>hr_status = 204, hr_headers = [], hr_body = []\<rparr>"

lemma loads_demo_issue: "loads (dumps_default demo_issue) = Some demo_issue"
  by (rule loads_dumps_default) (simp_all add: demo_issue_def)

lemma run_headers_bound:
  assumes "cx_correlation_id x = Some cid"
  shows "result_of W (jira_headers cr) s x =
     Inr ([(''Authorization'', ''Bearer '' @ opt_text (cr_user_token cr)),
           (''Accept'', ''application/json''), (correlation_header, cid)])"
    and "state_after W (jira_headers cr) s x = s" and "ctx_after W (jira_headers cr) s x = x"
    and "trace_of W (jira_headers cr) s x = []"
  using assms by (simp_all add: jira_headers_def downstream_headers_def current_correlation_id_def run_simps)

lemma run_demo_check:
  assumes "cx_correlation_id x = Some cid"
  shows "result_of mem_world (ad_check_preconditions (jira_adapter base) demo_action cr)
     (m\<lparr>mem_http := RHttp demo_issue_resp # rs\<rparr>) x = Inr \<lparr>pc_ok = True, pc_details = []\<rparr>"
  and "state_after mem_world (ad_check_preconditions (jira_adapter base) demo_action cr)
     (m\<lparr>mem_http := RHttp demo_issue_resp # rs\<rparr>) x = m\<lparr>mem_http := rs\<rparr>"
  and "ctx_after mem_world (ad_check_preconditions (jira_adapter base) demo_action cr)
     (m\<lparr>mem_http := RHttp demo_issue_resp # rs\<rparr>) x = x"
  by (simp_all add: jira_adapter_def Let_def jira_check_preconditions_def demo_action_def dget_def
      run_simps run_headers_bound [OF assms] http_send_def response_json_def demo_issue_resp_def loads_demo_issue)
    (simp_all add: demo_issue_def live_state_def nested_get_def py_get_def or_empty_def sbind_def
      first_drift_def run_simps)

lemma run_demo_execute:
  assumes "cx_correlation_id x = Some cid"
  shows "result_of mem_world (ad_execute (jira_adapter base) demo_action (pa_payload demo_action) cr)
     (m\<lparr>mem_http := RHttp demo_done_resp # rs\<rparr>) x =
   Inr \<lparr>xr_result = [(''issue_key'', JStr ''P-1''), (''updated_fields'', JArr [JStr ''priority''])],
        xr_resource_url = Some (rstrip_char (CHR ''/'') base @ ''/browse/P-1'')\<rparr>"
  and "state_after mem_world (ad_execute (jira_adapter base) demo_action (pa_payload demo_action) cr)
     (m\<lparr>mem_http := RHttp demo_done_resp # rs\<rparr>) x = m\<lparr>mem_http := rs\<rparr>"
  and "ctx_after mem_world (ad_execute (jira_adapter base) demo_action (pa_payload demo_action) cr)
     (m\<lparr>mem_http := RHttp demo_done_resp # rs\<rparr>) x = x"
  by (simp_all add: jira_adapter_def Let_def jira_execute_def demo_action_def run_simps
      run_headers_bound [OF assms] http_send_def demo_done_resp_def validate_payload_def jira_self_def
      jira_schemas_def update_issue_schema_def schema_errors_def field_failure_def text_of_def
      keys_of_def dget_def)

lemma demo_ctx_bound: "cx_correlation_id demo_ctx = Some ''cid''"
  by (simp add: demo_ctx_def)



text \<open>
  C24: what is approved is what is sent: when the Jira adapter's execution succeeds it has sent exactly
  one request, the one the action and the approved payload stand for (the approved fields in a PUT on
  the issue, or the approved comment body in a POST), and the target has accepted it.
\<close>

theorem jira_execute_sends_approved:
  assumes "result_of W (ad_execute (jira_adapter base) a p cr) s x = Inr out"
  shows "\<exists>h r. http_calls (trace_of W (ad_execute (jira_adapter base) a p cr) s x) =
           [(HttpSend (intended_request (rstrip_char (CHR ''/'') base) a p h), RHttp r)] \<and> hr_status r < 400"
proof -
  have ad: "ad_execute (jira_adapter base) = jira_execute jira_self (rstrip_char (CHR ''/'') base)"
    by (simp add: jira_adapter_def Let_def)
  show ?thesis using assms unfolding ad by (rule jira_execute_sent)
qed

theorem jira_execute_sends_approved_witness:
  "\<exists>h r. http_calls (trace_of mem_world
       (ad_execute (jira_adapter []) demo_action (pa_payload demo_action) demo_credentials)
       (mem_empty\<lparr>mem_http := [RHttp demo_done_resp]\<rparr>) demo_ctx) =
     [(HttpSend (intended_request [] demo_action (pa_payload demo_action) h), RHttp r)] \<and> hr_status r < 400"
  using jira_execute_sends_approved [OF run_demo_execute(1) [OF demo_ctx_bound, where base = "[]" and m = mem_empty
      and rs = "[]" and cr = demo_credentials]]
  by (simp add: rstrip_char_def)

end
