(* ===== verification/Websearch_Adapter.thy ===== *)
theory Websearch_Adapter
  imports Adapter_Base
begin

text \<open>
  \<^verbatim>\<open>app/adapters/websearch.py\<close>: the reference adapter of the mode \<open>SERVICE_CREDENTIAL\<close>. Two read
  tools, no action. Its searches are POST requests that change nothing, so no request of it mutates
  the target.
\<close>

definition opt_json :: "string option \<Rightarrow> json" where
  "opt_json v = (case v of Some s \<Rightarrow> JStr s | None \<Rightarrow> JNull)"

definition search_request :: "string \<Rightarrow> string \<Rightarrow> json \<Rightarrow> (string \<times> string) list \<Rightarrow> http_req" where
  "search_request base path body h =
     \<lparr>hq_method = HPOST, hq_url = base @ path, hq_params = [], hq_json = Some body, hq_headers = h\<rparr>"

definition result_row :: "json \<Rightarrow> exn + json" where
  "result_row r =
     sbind (py_get ''title'' JNull r) (\<lambda>title.
     sbind (py_get ''url'' JNull r) (\<lambda>url.
     sbind (py_get ''content'' JNull r) (\<lambda>content.
     Inr (JObj [(''title'', title), (''url'', url), (''content'', content)]))))"

definition results_report :: "json \<Rightarrow> exn + string" where
  "results_report data =
     sbind (py_get ''results'' (JArr []) data) (\<lambda>v.
     sbind (py_iter v) (\<lambda>xs.
     sbind (all_inr (map result_row xs)) (\<lambda>rows.
     Inr (dumps_default (JObj [(''results'', JArr rows)])))))"

definition web_search :: "string \<Rightarrow> credentials \<Rightarrow> string \<Rightarrow> int option \<Rightarrow> string prog" where
  "web_search base cr q max_results =
     bind downstream_headers (\<lambda>h.
     bind (read_request_with_backoff (http_send (search_request base ''/search''
             (JObj [(''api_key'', opt_json (cr_service_credential cr)), (''query'', JStr q),
                    (''max_results'',
                      JInt (min (case max_results of None \<Rightarrow> 5 | Some n \<Rightarrow> n) 10))]) h))) (\<lambda>response.
     bind (raise_for_status response) (\<lambda>_.
     bind (response_json response) (\<lambda>data.
     lift_result (results_report data)))))"

definition extract_page :: "string \<Rightarrow> credentials \<Rightarrow> string \<Rightarrow> int option \<Rightarrow> string prog" where
  "extract_page base cr url n =
     bind downstream_headers (\<lambda>h.
     bind (read_request_with_backoff (http_send (search_request base ''/extract''
             (JObj [(''api_key'', opt_json (cr_service_credential cr)),
                    (''urls'', JArr [JStr url])]) h))) (\<lambda>response.
     bind (raise_for_status response) (\<lambda>_.
     bind (response_json response) (\<lambda>body.
     Ret (dumps_default body)))))"

definition websearch_read_tools :: "string \<Rightarrow> credentials \<Rightarrow> read_tool list" where
  "websearch_read_tools base cr =
     [(''web_search'', web_search base cr), (''extract_page'', extract_page base cr)]"

definition websearch_instructions :: string where
  "websearch_instructions =
     ''You are a web research agent. Use web_search to find sources and '' @
     ''extract_page for detail. Always cite URLs in findings.sources. '' @
     ''This domain is read-only: never propose actions.''"

definition websearch_adapter :: "string \<Rightarrow> string \<Rightarrow> adapter" where
  "websearch_adapter api_key base_url =
     (let base = rstrip_char (CHR ''/'') base_url in
      \<lparr>ad_name = ''websearch'', ad_auth_mode = SERVICE_CREDENTIAL,
       ad_read_tools = websearch_read_tools base, ad_instructions = websearch_instructions,
       ad_schemas = [], ad_editable = no_editable_fields,
       ad_check_preconditions = (\<lambda>a cr. Raise (UnsupportedActionError (pa_action_type a))),
       ad_execute = (\<lambda>a p cr. Raise (UnsupportedActionError (pa_action_type a))),
       ad_service_credentials =
         Inr \<lparr>cr_user_token = None, cr_service_credential = Some api_key\<rparr>\<rparr>)"

section \<open>The contract holds\<close>

definition never_mutates :: "http_req \<Rightarrow> bool" where
  "never_mutates q = False"

lemma websearch_tools_read:
  "t \<in> snd ` set (websearch_read_tools base cr) \<Longrightarrow>
   safe (reading never_mutates) (\<lambda>_. True) (\<lambda>_. True) (t q n)"
  by (auto simp: websearch_read_tools_def web_search_def extract_page_def never_mutates_def
      intro!: safe_bind [where R = "\<lambda>_. True"] safe_downstream_headers safe_read)

interpretation websearch: domain_adapter "websearch_adapter key base" never_mutates
proof
  show "t \<in> snd ` set (ad_read_tools (websearch_adapter key base) cr) \<Longrightarrow>
      safe (reading never_mutates) (\<lambda>_. True) (\<lambda>_. True) (t q n)" for t cr q n
    by (auto simp: websearch_adapter_def Let_def dest: imageI [THEN websearch_tools_read])
qed (simp_all add: websearch_adapter_def)

text \<open>No payload is valid for it: there is nothing to execute.\<close>

lemma websearch_no_actions: "\<not> valid_payload (websearch_adapter key base) t p"
  by (simp add: valid_payload_def validate_payload_def websearch_adapter_def)

end
