(* ===== verification/Adapter_Registry.thy ===== *)
theory Adapter_Registry
  imports Jira_Adapter Websearch_Adapter
begin

text \<open>
  \<^verbatim>\<open>app/adapters/__init__.py\<close>: the registry that maps the configured domain to an adapter, and the
  resolution of the credentials of one call.
\<close>

definition adapter_builders :: "(string \<times> (settings \<Rightarrow> adapter)) list" where
  "adapter_builders =
     [(''jira'', \<lambda>cfg. jira_adapter (cf_jira_base_url cfg)),
      (''websearch'', \<lambda>cfg. websearch_adapter (cf_websearch_api_key cfg) (cf_websearch_base_url cfg))]"

definition single_quote :: char where
  "single_quote = char_of (39 :: nat)"

definition build_adapter :: "settings \<Rightarrow> exn + adapter" where
  "build_adapter cfg =
     (case map_of adapter_builders (cf_domain cfg) of
        Some b \<Rightarrow> Inr (b cfg)
      | None \<Rightarrow> Inl (ValueError (''Unknown DOMAIN '' @ [single_quote] @ cf_domain cfg @ [single_quote] @
                  ''. Registered: ['' @ join '', '' (map repr_str (sort (map fst adapter_builders))) @ '']'')))"

definition resolve_credentials :: "adapter \<Rightarrow> string option \<Rightarrow> exn + credentials" where
  "resolve_credentials ad user_token =
     (case ad_auth_mode ad of
        USER_PAT \<Rightarrow> Inr \<lparr>cr_user_token = user_token, cr_service_credential = None\<rparr>
      | SERVICE_CREDENTIAL \<Rightarrow> ad_service_credentials ad
      | NONE \<Rightarrow> Inr \<lparr>cr_user_token = None, cr_service_credential = None\<rparr>)"

text \<open>Which requests of the configured domain's adapter change the target.\<close>

definition domain_mutates :: "settings \<Rightarrow> http_req \<Rightarrow> bool" where
  "domain_mutates cfg = (if cf_domain cfg = ''jira'' then jira_mutates else never_mutates)"

lemma build_adapter_cases:
  "build_adapter cfg = Inr ad \<Longrightarrow>
   cf_domain cfg = ''jira'' \<and> ad = jira_adapter (cf_jira_base_url cfg) \<or>
   cf_domain cfg = ''websearch'' \<and>
     ad = websearch_adapter (cf_websearch_api_key cfg) (cf_websearch_base_url cfg)"
  by (auto simp: build_adapter_def adapter_builders_def split: if_splits)

text \<open>Every adapter the service can be started with satisfies the contract.\<close>

lemma built_adapter_contract:
  "build_adapter cfg = Inr ad \<Longrightarrow> domain_adapter ad (domain_mutates cfg)"
  by (auto simp: domain_mutates_def dest!: build_adapter_cases
      intro: jira.domain_adapter_axioms websearch.domain_adapter_axioms)

text \<open>
  A token the caller sent is in the credentials exactly when the mode is \<open>USER_PAT\<close>; a service
  credential never comes from the caller.
\<close>

lemma resolve_credentials_user_token:
  assumes "build_adapter cfg = Inr ad" "resolve_credentials ad tok = Inr cr"
  shows "cr_user_token cr = (if ad_auth_mode ad = USER_PAT then tok else None) \<and>
         (ad_auth_mode ad = USER_PAT \<longrightarrow> cr_service_credential cr = None)"
  using assms
  by (auto simp: resolve_credentials_def jira_adapter_def jira_self_def websearch_adapter_def Let_def
      dest!: build_adapter_cases)

end
