(* ===== verification/Token_Vault.thy ===== *)
theory Token_Vault
  imports World
begin

text \<open>
  \<^verbatim>\<open>app/state/token_vault.py\<close>: the salted principal hash and the three token vaults. AES-GCM is
  code of the package \<^verbatim>\<open>cryptography\<close> and the key wrap is a call to Azure Key Vault: the
  first is the parameter \<open>crypto\<close> of the definitions, the second a command of the world. The
  locale \<open>aead\<close> states that decryption undoes encryption, \<open>key_vault\<close> that unwrapping undoes
  wrapping, \<open>token_vault\<close> is the contract the rest of the service relies on.
\<close>

section \<open>Hashing and packing\<close>

definition principal_hash :: "string \<Rightarrow> string \<Rightarrow> string" where
  "principal_hash token salt = sha256_hex (utf8_encode (salt @ '':'' @ token))"

definition pack :: "dict \<Rightarrow> string" where
  "pack envelope = b64_encode (utf8_encode (dumps_default (JObj envelope)))"

definition unpack :: "string \<Rightarrow> json option" where
  "unpack blob =
     (if is_ascii blob then Option.bind (b64_decode blob) (\<lambda>b. Option.bind (utf8_decode b) loads)
      else None)"

section \<open>The vaults\<close>

text \<open>\<open>AESGCM(key).encrypt(nonce, data, None)\<close> and \<open>.decrypt\<close>; \<open>None\<close> is \<open>InvalidTag\<close>.\<close>

record crypto =
  aes_enc :: "bytes \<Rightarrow> bytes \<Rightarrow> bytes \<Rightarrow> bytes"
  aes_dec :: "bytes \<Rightarrow> bytes \<Rightarrow> bytes \<Rightarrow> bytes option"

definition nonce_len :: nat where
  "nonce_len = 12"

definition dek_len :: nat where
  "dek_len = 32"

datatype vault = KeyVaultTokenVault string | LocalTokenVault bytes | NullTokenVault

text \<open>\<open>base64.b64decode(envelope[k])\<close>; \<open>None\<close> is any exception it can raise.\<close>

definition env_bytes :: "string \<Rightarrow> json \<Rightarrow> bytes option" where
  "env_bytes k envelope =
     (case envelope of
        JObj d \<Rightarrow>
          (case map_of d k of
             Some (JStr s) \<Rightarrow> if is_ascii s then b64_decode s else None
           | _ \<Rightarrow> None)
      | _ \<Rightarrow> None)"

definition some_or_raise :: "exn \<Rightarrow> 'a option \<Rightarrow> 'a prog" where
  "some_or_raise e x = (case x of None \<Rightarrow> Raise e | Some a \<Rightarrow> Ret a)"

definition kv_encrypt :: "crypto \<Rightarrow> string \<Rightarrow> string \<Rightarrow> string prog" where
  "kv_encrypt cr key_id plaintext =
     catch
       (bind (urandom dek_len) (\<lambda>dek.
        bind (urandom nonce_len) (\<lambda>nonce.
        let ct = aes_enc cr dek nonce (utf8_encode plaintext) in
        bind (kv_wrap key_id dek) (\<lambda>wrapped.
        Ret (pack
          [(''v'', JInt 1), (''alg'', JStr ''kv-rsa-oaep-256+aesgcm''), (''kid'', JStr key_id),
           (''wrapped_dek'', JStr (b64_encode wrapped)), (''nonce'', JStr (b64_encode nonce)),
           (''ct'', JStr (b64_encode ct))])))))
       (\<lambda>e. Raise (TokenVaultError ''Key Vault token encryption failed''))"

definition kv_decrypt :: "crypto \<Rightarrow> string \<Rightarrow> string \<Rightarrow> string prog" where
  "kv_decrypt cr key_id blob =
     catch
       (bind (some_or_raise (ValueError ''envelope'') (unpack blob)) (\<lambda>envelope.
        bind (some_or_raise (KeyError ''wrapped_dek'') (env_bytes ''wrapped_dek'' envelope)) (\<lambda>w.
        bind (kv_unwrap key_id w) (\<lambda>dek.
        bind (some_or_raise (KeyError ''nonce'') (env_bytes ''nonce'' envelope)) (\<lambda>nonce.
        bind (some_or_raise (KeyError ''ct'') (env_bytes ''ct'' envelope)) (\<lambda>ct.
        bind (some_or_raise (OtherError ''InvalidTag'') (aes_dec cr dek nonce ct)) (\<lambda>b.
        some_or_raise (ValueError ''UnicodeDecodeError'') (utf8_decode b))))))))
       (\<lambda>e. Raise (TokenVaultError ''Key Vault token decryption failed''))"

definition local_vault :: "bytes \<Rightarrow> exn + vault" where
  "local_vault key =
     (if length key \<noteq> dek_len then Inl (TokenVaultError ''LocalTokenVault requires a 32-byte key'')
      else Inr (LocalTokenVault key))"

definition local_encrypt :: "crypto \<Rightarrow> bytes \<Rightarrow> string \<Rightarrow> string prog" where
  "local_encrypt cr kek plaintext =
     bind (urandom dek_len) (\<lambda>dek.
     bind (urandom nonce_len) (\<lambda>nonce.
     let ct = aes_enc cr dek nonce (utf8_encode plaintext) in
     bind (urandom nonce_len) (\<lambda>wrap_nonce.
     let wrapped = aes_enc cr kek wrap_nonce dek in
     Ret (pack
       [(''v'', JInt 1), (''alg'', JStr ''local-aesgcm+aesgcm''),
        (''wrapped_dek'', JStr (b64_encode (wrap_nonce @ wrapped))),
        (''nonce'', JStr (b64_encode nonce)), (''ct'', JStr (b64_encode ct))]))))"

definition local_decrypt :: "crypto \<Rightarrow> bytes \<Rightarrow> string \<Rightarrow> string prog" where
  "local_decrypt cr kek blob =
     catch
       (bind (some_or_raise (ValueError ''envelope'') (unpack blob)) (\<lambda>envelope.
        bind (some_or_raise (KeyError ''wrapped_dek'') (env_bytes ''wrapped_dek'' envelope)) (\<lambda>w.
        bind (some_or_raise (OtherError ''InvalidTag'')
               (aes_dec cr kek (take nonce_len w) (drop nonce_len w))) (\<lambda>dek.
        bind (some_or_raise (KeyError ''nonce'') (env_bytes ''nonce'' envelope)) (\<lambda>nonce.
        bind (some_or_raise (KeyError ''ct'') (env_bytes ''ct'' envelope)) (\<lambda>ct.
        bind (some_or_raise (OtherError ''InvalidTag'') (aes_dec cr dek nonce ct)) (\<lambda>b.
        some_or_raise (ValueError ''UnicodeDecodeError'') (utf8_decode b))))))))
       (\<lambda>e. Raise (TokenVaultError ''local token decryption failed''))"

definition null_error :: exn where
  "null_error = TokenVaultError ''token staging is not available for this auth_mode''"

fun vault_encrypt :: "crypto \<Rightarrow> vault \<Rightarrow> string \<Rightarrow> string prog" where
  "vault_encrypt cr (KeyVaultTokenVault kid) t = kv_encrypt cr kid t"
| "vault_encrypt cr (LocalTokenVault kek) t = local_encrypt cr kek t"
| "vault_encrypt cr NullTokenVault t = Raise null_error"

fun vault_decrypt :: "crypto \<Rightarrow> vault \<Rightarrow> string \<Rightarrow> string prog" where
  "vault_decrypt cr (KeyVaultTokenVault kid) blob = kv_decrypt cr kid blob"
| "vault_decrypt cr (LocalTokenVault kek) blob = local_decrypt cr kek blob"
| "vault_decrypt cr NullTokenVault blob = Raise null_error"

definition build_token_vault :: "settings \<Rightarrow> exn + vault" where
  "build_token_vault cfg =
     (if cf_azure_keyvault_key_id cfg \<noteq> [] then Inr (KeyVaultTokenVault (cf_azure_keyvault_key_id cfg))
      else if cf_local_crypto_key_b64 cfg \<noteq> [] then
        (if cf_env cfg = ''prod'' then
           Inl (TokenVaultError ''LOCAL_CRYPTO_KEY_B64 is forbidden when ENV=prod'')
         else (case b64_decode (cf_local_crypto_key_b64 cfg) of
                 None \<Rightarrow> Inl (ValueError ''binascii.Error'')
               | Some key \<Rightarrow> local_vault key))
      else Inr NullTokenVault)"

section \<open>Facts\<close>

lemma unpack_pack: "no_float (JObj d) \<Longrightarrow> wf_json (JObj d) \<Longrightarrow> unpack (pack d) = Some (JObj d)"
proof -
  assume d: "no_float (JObj d)" "wf_json (JObj d)"
  have a: "is_ascii (pack d)" unfolding pack_def by (rule b64_encode_ascii)
  show ?thesis using a loads_dumps_default [OF d] by (simp add: unpack_def pack_def)
qed

lemma env_bytes_get:
  "map_of d k = Some (JStr (b64_encode b)) \<Longrightarrow> env_bytes k (JObj d) = Some b"
  by (simp add: env_bytes_def)

lemma run_some_or_raise [run_simps]:
  "result_of W (some_or_raise e y) s x = (case y of None \<Rightarrow> Inl e | Some a \<Rightarrow> Inr a)"
  "state_after W (some_or_raise e y) s x = s" "ctx_after W (some_or_raise e y) s x = x"
  by (simp_all add: some_or_raise_def split: option.split)

lemma principal_hash_length [simp]: "length (principal_hash token salt) = 64"
  by (simp add: principal_hash_def)

text \<open>
  What the hash identifies: two presentations get the same hash exactly when SHA-256 maps the two
  salted texts to the same digest; equal tokens always do.
\<close>

lemma principal_hash_eq_iff:
  "principal_hash t salt = principal_hash t' salt \<longleftrightarrow>
     sha256_hex (utf8_encode (salt @ '':'' @ t)) = sha256_hex (utf8_encode (salt @ '':'' @ t'))"
  by (simp add: principal_hash_def)

lemma result_catch_Raise:
  "result_of W (catch p (\<lambda>e. Raise (g e))) s x = Inr b \<longleftrightarrow> result_of W p s x = Inr b"
  by (simp add: run_simps split: sum.split)

lemma result_calls:
  "result_of W (urandom n) s x = Inr b \<longleftrightarrow> snd (W s (URandom n)) = RStr b"
  "result_of W (kv_wrap kid d) s x = Inr b \<longleftrightarrow> snd (W s (WrapKey kid d)) = RStr b"
  by (auto simp: urandom_def kv_wrap_def bad_reply_def split: reply.split)

text \<open>Every failure of an encryption in the Key Vault is the one typed error.\<close>

lemma kv_encrypt_raises:
  "safe (\<lambda>_. True) (\<lambda>e. e = TokenVaultError ''Key Vault token encryption failed'') (\<lambda>_. True)
     (kv_encrypt cr kid t)"
  unfolding kv_encrypt_def
  by (rule safe_catch [where E = "\<lambda>_. True"])
    (auto simp: Let_def call_defs intro!: safe_bind [where R = "\<lambda>_. True"] split: reply.split)

lemma kv_decrypt_raises:
  "safe (\<lambda>_. True) (\<lambda>e. e = TokenVaultError ''Key Vault token decryption failed'') (\<lambda>_. True)
     (kv_decrypt cr kid blob)"
  unfolding kv_decrypt_def
  by (rule safe_catch [where E = "\<lambda>_. True"])
    (auto simp: call_defs some_or_raise_def intro!: safe_bind [where R = "\<lambda>_. True"]
      split: reply.split option.split)

lemma local_decrypt_raises:
  "safe (\<lambda>_. True) (\<lambda>e. e = TokenVaultError ''local token decryption failed'') (\<lambda>_. True)
     (local_decrypt cr kek blob)"
  unfolding local_decrypt_def
  by (rule safe_catch [where E = "\<lambda>_. True"])
    (auto simp: some_or_raise_def intro!: safe_bind [where R = "\<lambda>_. True"] split: option.split)

text \<open>A vault issues no command but requests for randomness and key (un)wrapping.\<close>

fun vault_cmd :: "cmd \<Rightarrow> bool" where
  "vault_cmd (URandom n) = True"
| "vault_cmd (WrapKey k b) = True"
| "vault_cmd (UnwrapKey k b) = True"
| "vault_cmd _ = False"

lemma safe_vault_encrypt: "safe vault_cmd (\<lambda>_. True) (\<lambda>_. True) (vault_encrypt cr v t)"
  by (cases v) (auto simp: kv_encrypt_def local_encrypt_def Let_def call_defs
      intro!: safe_bind [where R = "\<lambda>_. True"] safe_catch [where E = "\<lambda>_. True"] split: reply.split)

lemma safe_vault_decrypt: "safe vault_cmd (\<lambda>_. True) (\<lambda>_. True) (vault_decrypt cr v b)"
  by (cases v) (auto simp: kv_decrypt_def local_decrypt_def call_defs some_or_raise_def
      intro!: safe_bind [where R = "\<lambda>_. True"] safe_catch [where E = "\<lambda>_. True"]
      split: reply.split option.split)

section \<open>The contract and its providers\<close>

locale token_vault =
  fixes W :: "'s \<Rightarrow> cmd \<Rightarrow> 's \<times> reply"
    and encrypt :: "string \<Rightarrow> string prog"
    and decrypt :: "string \<Rightarrow> string prog"
  assumes decrypt_encrypt:
    "result_of W (encrypt t) s x = Inr blob \<Longrightarrow> result_of W (decrypt blob) s' x' = Inr t"
begin

text \<open>Two tokens never share a blob, whenever they were encrypted.\<close>

lemma blob_identifies_token:
  "result_of W (encrypt t) s x = Inr blob \<Longrightarrow> result_of W (encrypt t') s' x' = Inr blob \<Longrightarrow> t = t'"
  by (metis decrypt_encrypt sum.inject(2))

end

locale aead =
  fixes cr :: crypto
  assumes dec_enc: "aes_dec cr k n (aes_enc cr k n m) = Some m"

locale key_vault = aead cr for cr +
  fixes W :: "'s \<Rightarrow> cmd \<Rightarrow> 's \<times> reply"
  assumes unwrap_wrap:
    "snd (W s (WrapKey kid d)) = RStr w \<Longrightarrow> snd (W s' (UnwrapKey kid w)) = RStr d"
begin

lemma kv_roundtrip:
  assumes "result_of W (kv_encrypt cr kid t) s x = Inr blob"
  shows "result_of W (kv_decrypt cr kid blob) s' x' = Inr t"
proof -
  obtain dek nonce s1 w where w: "snd (W s1 (WrapKey kid dek)) = RStr w"
    and b: "blob = pack
          [(''v'', JInt 1), (''alg'', JStr ''kv-rsa-oaep-256+aesgcm''), (''kid'', JStr kid),
           (''wrapped_dek'', JStr (b64_encode w)), (''nonce'', JStr (b64_encode nonce)),
           (''ct'', JStr (b64_encode (aes_enc cr dek nonce (utf8_encode t))))]"
    using assms unfolding kv_encrypt_def Let_def
    by (auto simp: result_catch_Raise result_bind_Inr result_calls)
  then show ?thesis
    using unwrap_wrap [OF w]
    by (simp add: kv_decrypt_def run_simps unpack_pack env_bytes_get kv_unwrap_def dec_enc)
qed

lemma local_roundtrip:
  assumes "result_of W (local_encrypt cr kek t) s x = Inr blob"
    and "\<And>s' b. snd (W s' (URandom nonce_len)) = RStr b \<Longrightarrow> length b = nonce_len"
  shows "result_of W (local_decrypt cr kek blob) s' x' = Inr t"
proof -
  obtain dek nonce s1 wn where l: "snd (W s1 (URandom nonce_len)) = RStr wn"
    and b: "blob = pack
          [(''v'', JInt 1), (''alg'', JStr ''local-aesgcm+aesgcm''),
           (''wrapped_dek'', JStr (b64_encode (wn @ aes_enc cr kek wn dek))),
           (''nonce'', JStr (b64_encode nonce)),
           (''ct'', JStr (b64_encode (aes_enc cr dek nonce (utf8_encode t))))]"
    using assms(1) unfolding local_encrypt_def Let_def
    by (auto simp: result_bind_Inr result_calls)
  have "length wn = nonce_len" using assms(2) l by blast
  with b show ?thesis
    by (simp add: local_decrypt_def run_simps unpack_pack env_bytes_get dec_enc)
qed

end

sublocale key_vault \<subseteq> kv: token_vault W "kv_encrypt cr kid" "kv_decrypt cr kid"
  by unfold_locales (rule kv_roundtrip)

text \<open>The stand-in cipher of the in-process world.\<close>

definition demo_crypto :: crypto where
  "demo_crypto = \<lparr>aes_enc = (\<lambda>k n m. CHR ''C'' # m),
                  aes_dec = (\<lambda>k n c. case c of [] \<Rightarrow> None | _ # m \<Rightarrow> Some m)\<rparr>"

interpretation demo: key_vault demo_crypto mem_world
  by unfold_locales (auto simp: demo_crypto_def)

definition demo_kek :: bytes where
  "demo_kek = replicate 32 (CHR ''k'')"

section \<open>Properties\<close>

text \<open>
  C17: whatever a vault encrypts it decrypts to the same token, at any later time and in any context:
  the envelope is encoded, written, read back and decoded without loss. It needs of the cipher that
  decryption undoes encryption under the same key and nonce, of Key Vault that unwrapping undoes
  wrapping, and of the operating system that it gives as many random bytes as asked for.
\<close>

theorem vault_roundtrip:
  assumes "key_vault cr W" "\<And>s' b. snd (W s' (URandom nonce_len)) = RStr b \<Longrightarrow> length b = nonce_len"
    and "result_of W (vault_encrypt cr v t) s x = Inr blob"
  shows "result_of W (vault_decrypt cr v blob) s' x' = Inr t"
proof (cases v)
  case (KeyVaultTokenVault kid)
  with assms(3) key_vault.kv_roundtrip [OF assms(1)] show ?thesis by simp
next
  case (LocalTokenVault kek)
  with assms(2,3) key_vault.local_roundtrip [OF assms(1)] show ?thesis by simp
next
  case NullTokenVault
  with assms(3) show ?thesis by simp
qed

theorem vault_roundtrip_witness:
  "\<exists>blob. result_of mem_world (vault_encrypt demo_crypto (LocalTokenVault demo_kek) ''my-pat'') mem_empty empty_ctx = Inr blob \<and>
          result_of mem_world (vault_decrypt demo_crypto (LocalTokenVault demo_kek) blob) mem_empty empty_ctx = Inr ''my-pat''"
proof -
  have "\<exists>blob. result_of mem_world (vault_encrypt demo_crypto (LocalTokenVault demo_kek) ''my-pat'') mem_empty empty_ctx = Inr blob"
    by (simp add: local_encrypt_def Let_def run_simps urandom_def)
  moreover have "\<And>s' b. snd (mem_world s' (URandom nonce_len)) = RStr b \<Longrightarrow> length b = nonce_len"
    by auto
  ultimately show ?thesis
    using vault_roundtrip [OF demo.key_vault_axioms] by blast
qed

text \<open>
  The vault the service starts with fails closed: in production it is never the one with a local
  key, a local key always has 32 bytes, and a Key Vault key, where one is configured, always wins.
  The service that has neither stages no token at all.
\<close>

theorem build_token_vault_safe:
  "case build_token_vault cfg of
     Inl e \<Rightarrow> cf_azure_keyvault_key_id cfg = [] \<and> cf_local_crypto_key_b64 cfg \<noteq> []
   | Inr (KeyVaultTokenVault kid) \<Rightarrow> kid = cf_azure_keyvault_key_id cfg \<and> kid \<noteq> []
   | Inr (LocalTokenVault key) \<Rightarrow>
       cf_azure_keyvault_key_id cfg = [] \<and> cf_env cfg \<noteq> ''prod'' \<and> length key = 32 \<and>
       b64_decode (cf_local_crypto_key_b64 cfg) = Some key
   | Inr NullTokenVault \<Rightarrow> cf_azure_keyvault_key_id cfg = [] \<and> cf_local_crypto_key_b64 cfg = []"
  by (auto simp: build_token_vault_def local_vault_def dek_len_def split: option.split sum.split)

end
