(* ===== verification/Auth.thy ===== *)
theory Auth
  imports Adapter_Registry Token_Vault
begin

text \<open>
  \<^verbatim>\<open>app/auth/api_key.py\<close>, \<^verbatim>\<open>app/auth/user_token.py\<close>, and the dependencies every handler reads from
  \<open>request.app.state.deps\<close>. A request is its header list; a header is looked up without regard to
  case and the first one of a name counts.
\<close>

type_synonym headers = "(string \<times> string) list"

definition request_header :: "string \<Rightarrow> headers \<Rightarrow> string option" where
  "request_header name hs =
     (case List.find (\<lambda>(k, v). lower k = lower name) hs of Some (k, v) \<Rightarrow> Some v | None \<Rightarrow> None)"

text \<open>\<open>app.main.Deps\<close>: settings, adapter, vault. The store and the queue are the settings over
  the world; \<open>dp_crypto\<close> is the cipher of the package \<^verbatim>\<open>cryptography\<close>.\<close>

record deps =
  dp_settings :: settings
  dp_adapter :: adapter
  dp_vault :: vault
  dp_crypto :: crypto

section \<open>Layer 1: the API key\<close>

definition compare_digest :: "bytes \<Rightarrow> bytes \<Rightarrow> bool" where
  "compare_digest a b \<longleftrightarrow> a = b"

definition verify_api_key :: "string \<Rightarrow> (string \<times> string) list \<Rightarrow> string option" where
  "verify_api_key presented api_keys =
     foldl (\<lambda>matched (consumer_id, secret).
       if compare_digest (utf8_encode secret) (utf8_encode presented) then Some consumer_id else matched)
       None api_keys"

definition require_api_key :: "settings \<Rightarrow> headers \<Rightarrow> string prog" where
  "require_api_key cfg hs =
     (case request_header ''X-Api-Key'' hs of
        None \<Rightarrow> Raise (ApiError 401 INVALID_API_KEY ''Missing X-Api-Key header.'' None)
      | Some presented \<Rightarrow>
          if presented = [] then Raise (ApiError 401 INVALID_API_KEY ''Missing X-Api-Key header.'' None)
          else
            (case verify_api_key presented (cf_api_keys cfg) of
               None \<Rightarrow>
                 bind (emit_log WARNING ''auth_rejected'' ''rejected API key'' []) (\<lambda>_.
                 Raise (ApiError 401 INVALID_API_KEY ''Invalid API key.'' None))
             | Some consumer_id \<Rightarrow>
                 bind (set_consumer_id consumer_id) (\<lambda>_. Ret consumer_id)))"

section \<open>Layer 2: the user's token\<close>

definition missing_token_error :: "adapter \<Rightarrow> exn" where
  "missing_token_error ad =
     ApiError 400 MISSING_USER_TOKEN
       (''X-User-Token header is required for the '' @ [single_quote] @ ad_name ad @ [single_quote] @
        '' domain (auth_mode=USER_PAT).'') None"

definition get_user_token :: "adapter \<Rightarrow> headers \<Rightarrow> string option prog" where
  "get_user_token ad hs =
     (let token = request_header ''X-User-Token'' hs in
      if ad_auth_mode ad \<noteq> USER_PAT then Ret None
      else
        (case token of
           None \<Rightarrow> Raise (missing_token_error ad)
         | Some t \<Rightarrow>
             if t = [] then Raise (missing_token_error ad)
             else bind (register_secret (Some t)) (\<lambda>_. Ret (Some t))))"

section \<open>Facts\<close>

lemma verify_fold:
  "foldl (\<lambda>matched (c, secret). if secret = p then Some c else matched) m ks =
     (case rev (filter (\<lambda>(c, secret). secret = p) ks) of [] \<Rightarrow> m | (c, s) # _ \<Rightarrow> Some c)"
proof (induction ks rule: rev_induct)
  case (snoc k ks)
  then show ?case by (cases k) auto
qed simp

lemma verify_api_key_eq:
  "verify_api_key p ks =
     (case rev (filter (\<lambda>(c, secret). secret = p) ks) of [] \<Rightarrow> None | (c, s) # _ \<Rightarrow> Some c)"
  unfolding verify_api_key_def compare_digest_def utf8_encode_inject by (rule verify_fold)

lemma verify_api_key_None: "verify_api_key p ks = None \<longleftrightarrow> p \<notin> snd ` set ks"
proof -
  have "verify_api_key p ks = None \<longleftrightarrow> filter (\<lambda>(c, secret). secret = p) ks = []"
    by (auto simp: verify_api_key_eq split: list.split)
  then show ?thesis by (force simp: filter_empty_conv)
qed

lemma verify_api_key_Some: "verify_api_key p ks = Some c \<Longrightarrow> (c, p) \<in> set ks"
proof -
  assume "verify_api_key p ks = Some c"
  then obtain s t where "rev (filter (\<lambda>(c, secret). secret = p) ks) = (c, s) # t"
    by (auto simp: verify_api_key_eq split: list.splits)
  then have "(c, s) \<in> set (filter (\<lambda>(c, secret). secret = p) ks)" by (metis list.set_intros(1) set_rev)
  then show ?thesis by auto
qed

text \<open>Neither dependency touches anything but the log, the context and the registry of secrets.\<close>

fun auth_cmd :: "cmd \<Rightarrow> bool" where
  "auth_cmd (LogLine l e m f) = True"
| "auth_cmd (RegisterSecret v) = True"
| "auth_cmd _ = False"

lemma safe_require_api_key:
  "safe auth_cmd (\<lambda>e. \<exists>m. e = ApiError 401 INVALID_API_KEY m None)
     (\<lambda>c. \<exists>p. request_header ''X-Api-Key'' hs = Some p \<and> p \<noteq> [] \<and> (c, p) \<in> set (cf_api_keys cfg))
     (require_api_key cfg hs)"
  by (auto simp: require_api_key_def emit_log_def set_consumer_id_def modify_ctx_def
      dest: verify_api_key_Some split: option.split)

lemma safe_get_user_token:
  "safe auth_cmd (\<lambda>e. e = missing_token_error ad)
     (\<lambda>t. if ad_auth_mode ad = USER_PAT
          then \<exists>p. t = Some p \<and> p \<noteq> [] \<and> request_header ''X-User-Token'' hs = Some p else t = None)
     (get_user_token ad hs)"
  by (auto simp: get_user_token_def Let_def register_secret_def register_secret_value_def when_do_def
      split: option.split)

section \<open>Properties\<close>

text \<open>
  An API key lets a request in exactly when it is one of the configured secrets, compared as a
  whole, and the consumer it is charged to is one that owns that secret, never another.
\<close>

theorem verify_api_key_correct:
  "(verify_api_key p ks = None \<longleftrightarrow> p \<notin> snd ` set ks) \<and>
   (\<forall>c. distinct (map snd ks) \<longrightarrow> (verify_api_key p ks = Some c \<longleftrightarrow> (c, p) \<in> set ks))"
proof (intro conjI allI impI verify_api_key_None iffI verify_api_key_Some)
  fix c assume d: "distinct (map snd ks)" and c: "(c, p) \<in> set ks"
  then have "verify_api_key p ks \<noteq> None" unfolding verify_api_key_None by force
  then obtain c' where c': "verify_api_key p ks = Some c'" by auto
  with d c verify_api_key_Some [OF c'] have "c' = c"
    by (metis distinct_map inj_onD snd_conv prod.inject)
  with c' show "verify_api_key p ks = Some c" by simp
qed

theorem verify_api_key_correct_witness:
  "verify_api_key ''new'' [(''alpha'', ''old''), (''beta'', ''new'')] = Some ''beta''"
  using verify_api_key_correct [of "''new''" "[(''alpha'', ''old''), (''beta'', ''new'')]"] by simp

end
