(* ===== verification/Job_Queue.thy ===== *)
theory Job_Queue
  imports Logging
begin

text \<open>
  \<^verbatim>\<open>app/state/queue.py\<close>: enqueueing over arq. The API only enqueues and reads the depth; arq
  deduplicates on the job id it is given.
\<close>

definition research_queue_id :: "string \<Rightarrow> string" where
  "research_queue_id j = ''research:'' @ j"

definition enqueue_research :: "string \<Rightarrow> unit prog" where
  "enqueue_research j =
     bind (catch (arq_enqueue ''research_job'' j (research_queue_id j))
             (\<lambda>exc. Raise (QueueUnavailable ''failed to enqueue research job''))) (\<lambda>job.
     case job of
       None \<Rightarrow> Raise (QueueUnavailable (''job '' @ j @ '' already enqueued''))
     | Some _ \<Rightarrow> Ret ())"

definition queue_size :: "string \<Rightarrow> int prog" where
  "queue_size queue_name = redis_zcard queue_name"

text \<open>Every failure is the one typed error, and the only call is the one to arq.\<close>

fun enqueue_cmd :: "cmd \<Rightarrow> bool" where
  "enqueue_cmd (EnqueueJob f a j) = True"
| "enqueue_cmd _ = False"

lemma safe_enqueue_research:
  "safe (\<lambda>c. c = EnqueueJob ''research_job'' j (''research:'' @ j))
     (\<lambda>e. \<exists>m. e = QueueUnavailable m) (\<lambda>_. True) (enqueue_research j)"
  unfolding enqueue_research_def research_queue_id_def
  by (rule safe_bind [where R = "\<lambda>_. True"], rule safe_catch [where E = "\<lambda>_. True"])
    (auto simp: arq_enqueue_def bad_reply_def split: reply.split option.split)

lemma keeps_ctx_enqueue: "keeps_ctx (enqueue_research j)"
  unfolding enqueue_research_def
  by (auto simp: arq_enqueue_def bad_reply_def intro!: keeps_ctx_bind keeps_ctx_catch
      split: reply.split option.split)

lemma look_enqueue:
  assumes "redis_server W look"
  shows "look (state_after W (enqueue_research j) s x) = look s"
  by (rule redis_server.look_unchanged [OF assms safe_mono [OF safe_enqueue_research]]) auto

end
