(* ===== verification/Research_Api.thy ===== *)
theory Research_Api
  imports Auth Job_Queue
begin

text \<open>
  \<^verbatim>\<open>app/api/research.py\<close>: submit, poll and cancel. The handlers are programs over the store, the
  queue and the vault; FastAPI's resolution of their dependencies is the order of the calls in the
  \<open>..._endpoint\<close> definitions: API key, user token, then the validated body.
\<close>

section \<open>Submit\<close>

definition new_job_record ::
    "deps \<Rightarrow> string \<Rightarrow> research_request \<Rightarrow> string \<Rightarrow> string option \<Rightarrow> string \<Rightarrow> time \<Rightarrow> job_record" where
  "new_job_record dp j body consumer_id user_token correlation_id now =
     \<lparr>job_id = j, job_domain = cf_domain (dp_settings dp), job_status = QUEUED,
      job_task = rq_task body, job_session_id = rq_session_id body, job_context = rq_context body,
      job_constraints = rq_constraints body, job_consumer_id = consumer_id,
      job_principal_hash =
        (case user_token of
           Some t \<Rightarrow> if t = [] then None
                     else Some (principal_hash t (cf_principal_hash_salt (dp_settings dp)))
         | None \<Rightarrow> None),
      job_correlation_id = correlation_id, job_created_at = now, job_started_at = None,
      job_finished_at = None, job_attempt = 0,
      job_max_attempts = cf_job_max_attempts (dp_settings dp),
      job_progress = \<lparr>pr_last_tool = None, pr_steps = 0\<rparr>, job_error = None\<rparr>"

text \<open>In the mode \<open>USER_PAT\<close> the dependency \<open>get_user_token\<close> never gives \<open>None\<close>.\<close>

definition encrypt_token :: "deps \<Rightarrow> string option \<Rightarrow> string prog" where
  "encrypt_token dp user_token =
     catch
       (case user_token of
          Some t \<Rightarrow> vault_encrypt (dp_crypto dp) (dp_vault dp) t
        | None \<Rightarrow> Raise (AttributeError ''encode''))
       (\<lambda>exc. case exc of
          TokenVaultError m \<Rightarrow>
            Raise (ApiError 503 DEPENDENCY_UNAVAILABLE
                     ''Token protection is unavailable; research cannot be accepted.'' None)
        | _ \<Rightarrow> Raise exc)"

definition stage_user_token :: "deps \<Rightarrow> string \<Rightarrow> string option \<Rightarrow> unit prog" where
  "stage_user_token dp j user_token =
     when_do (ad_auth_mode (dp_adapter dp) = USER_PAT)
       (bind (encrypt_token dp user_token) (\<lambda>ciphertext.
        stage_token (dp_settings dp) j ciphertext))"

definition enqueue_or_roll_back :: "deps \<Rightarrow> string \<Rightarrow> unit prog" where
  "enqueue_or_roll_back dp j =
     catch (enqueue_research j)
       (\<lambda>exc. case exc of
          QueueUnavailable m \<Rightarrow>
            bind (purge_token (dp_settings dp) j) (\<lambda>_.
            bind (transition (dp_settings dp) j FAILED None
                   (Some \<lparr>je_code = DEPENDENCY_UNAVAILABLE, je_message = ''enqueue failed at submit''\<rparr>)) (\<lambda>_.
            Raise (ApiError 503 DEPENDENCY_UNAVAILABLE ''Job queue is unavailable; retry later.'' None)))
        | _ \<Rightarrow> Raise exc)"

definition submit_research ::
    "deps \<Rightarrow> research_request \<Rightarrow> string \<Rightarrow> string option \<Rightarrow> research_accepted prog" where
  "submit_research dp body consumer_id user_token =
     bind uuid4 (\<lambda>j.
     bind (set_job_id j) (\<lambda>_.
     bind current_correlation_id (\<lambda>correlation_id.
     bind utcnow (\<lambda>now.
     bind (stage_user_token dp j user_token) (\<lambda>_.
     bind (create_job (dp_settings dp)
             (new_job_record dp j body consumer_id user_token correlation_id now)) (\<lambda>_.
     bind (enqueue_or_roll_back dp j) (\<lambda>_.
     bind (log_event INFO ''job_submitted'' (''session_id='' @ rq_session_id body) []) (\<lambda>_.
     Ret \<lparr>ra_job_id = j, ra_status = QUEUED, ra_poll_url = ''/research/'' @ j,
          ra_estimated_wait_s = cf_estimated_wait_s (dp_settings dp),
          ra_correlation_id = correlation_id\<rparr>))))))))"

section \<open>Authorization of poll and cancel\<close>

definition unknown_job :: "string \<Rightarrow> exn" where
  "unknown_job j = ApiError 404 JOB_NOT_FOUND (''Unknown or expired job: '' @ j) None"

definition presented_hash :: "deps \<Rightarrow> string option \<Rightarrow> string option" where
  "presented_hash dp user_token =
     Some (principal_hash (case user_token of Some t \<Rightarrow> t | None \<Rightarrow> [])
             (cf_principal_hash_salt (dp_settings dp)))"

definition authorized_job ::
    "deps \<Rightarrow> string \<Rightarrow> string \<Rightarrow> string option \<Rightarrow> job_record prog" where
  "authorized_job dp j consumer_id user_token =
     bind (get_job (dp_settings dp) j) (\<lambda>found.
     case found of
       None \<Rightarrow> Raise (unknown_job j)
     | Some record \<Rightarrow>
         if ad_auth_mode (dp_adapter dp) = USER_PAT \<and>
            presented_hash dp user_token \<noteq> job_principal_hash record
         then bind (log_event WARNING ''poll_principal_mismatch'' [] [(''job_id'', j)]) (\<lambda>_.
              Raise (unknown_job j))
         else if ad_auth_mode (dp_adapter dp) \<noteq> USER_PAT \<and> job_consumer_id record \<noteq> consumer_id
         then bind (log_event WARNING ''poll_consumer_mismatch'' [] [(''job_id'', j)]) (\<lambda>_.
              Raise (unknown_job j))
         else bind (set_correlation_id (Some (job_correlation_id record))) (\<lambda>_.
              bind (set_job_id j) (\<lambda>_.
              Ret record)))"

section \<open>Poll and cancel\<close>

definition status_response :: "job_record \<Rightarrow> bool \<Rightarrow> job_status_response" where
  "status_response record cancel_requested =
     \<lparr>js_job_id = job_id record, js_status = job_status record,
      js_session_id = job_session_id record, js_correlation_id = job_correlation_id record,
      js_created_at = job_created_at record, js_started_at = job_started_at record,
      js_finished_at = job_finished_at record, js_attempt = job_attempt record,
      js_cancel_requested = cancel_requested,
      js_progress = (if job_status record = RUNNING then Some (job_progress record) else None),
      js_findings = None, js_proposed_actions = None, js_error = job_error record\<rparr>"

definition poll_research ::
    "deps \<Rightarrow> string \<Rightarrow> string \<Rightarrow> string option \<Rightarrow> job_status_response prog" where
  "poll_research dp j consumer_id user_token =
     bind (authorized_job dp j consumer_id user_token) (\<lambda>record.
     bind (is_cancel_requested (dp_settings dp) j) (\<lambda>cancelled.
     let response = status_response record cancelled in
     if job_status record = COMPLETED then
       bind (get_result (dp_settings dp) j) (\<lambda>found.
       case found of
         Some result \<Rightarrow>
           Ret (response\<lparr>js_findings := Some (rd_findings result),
                         js_proposed_actions := Some (rd_proposed_actions result)\<rparr>)
       | None \<Rightarrow> Ret response)
     else Ret response))"

definition cancel_research ::
    "deps \<Rightarrow> string \<Rightarrow> string \<Rightarrow> string option \<Rightarrow> job_status_response prog" where
  "cancel_research dp j consumer_id user_token =
     bind (authorized_job dp j consumer_id user_token) (\<lambda>record.
     if job_status record \<in> terminal_states then Ret (status_response record False)
     else
       bind (purge_token (dp_settings dp) j) (\<lambda>_.
       if job_status record = QUEUED then
         bind (request_cancel (dp_settings dp) j) (\<lambda>_.
         bind (transition (dp_settings dp) j CANCELLED None None) (\<lambda>record.
         Ret (status_response record False)))
       else
         bind (request_cancel (dp_settings dp) j) (\<lambda>_.
         bind (log_event INFO ''job_cancel_requested'' [] [(''job_id'', j)]) (\<lambda>_.
         Ret (status_response record True)))))"

section \<open>The endpoints with their dependencies\<close>

definition with_caller :: "deps \<Rightarrow> headers \<Rightarrow> (string \<Rightarrow> string option \<Rightarrow> 'a prog) \<Rightarrow> 'a prog" where
  "with_caller dp hs handler =
     bind (require_api_key (dp_settings dp) hs) (\<lambda>consumer_id.
     bind (get_user_token (dp_adapter dp) hs) (\<lambda>user_token.
     handler consumer_id user_token))"

definition submit_endpoint :: "deps \<Rightarrow> headers \<Rightarrow> json \<Rightarrow> research_accepted prog" where
  "submit_endpoint dp hs body =
     with_caller dp hs (\<lambda>consumer_id user_token.
       case Option.bind (as_dict body) validate_research_request of
         None \<Rightarrow> Raise RequestValidationError
       | Some b \<Rightarrow> submit_research dp b consumer_id user_token)"

definition poll_endpoint :: "deps \<Rightarrow> headers \<Rightarrow> string \<Rightarrow> job_status_response prog" where
  "poll_endpoint dp hs j = with_caller dp hs (poll_research dp j)"

definition cancel_endpoint :: "deps \<Rightarrow> headers \<Rightarrow> string \<Rightarrow> job_status_response prog" where
  "cancel_endpoint dp hs j = with_caller dp hs (cancel_research dp j)"

section \<open>What the handlers may do\<close>

definition research_cmd :: "settings \<Rightarrow> (proposed_action \<Rightarrow> bool) \<Rightarrow> cmd \<Rightarrow> bool" where
  "research_cmd cfg P c \<longleftrightarrow> store_cmd cfg P c \<or> auth_cmd c \<or> vault_cmd c \<or> enqueue_cmd c"

lemma research_cmd_http [simp]: "\<not> research_cmd cfg P (HttpSend q)"
  by (simp add: research_cmd_def)

lemma safe_in_research:
  "safe (store_cmd cfg P) (\<lambda>_. True) (\<lambda>_. True) p \<Longrightarrow>
   safe (research_cmd cfg P) (\<lambda>_. True) (\<lambda>_. True) p"
  by (erule safe_mono) (auto simp: research_cmd_def)

lemma safe_encrypt_token: "safe vault_cmd (\<lambda>_. True) (\<lambda>_. True) (encrypt_token dp t)"
  unfolding encrypt_token_def
  by (rule safe_catch [where E = "\<lambda>_. True"]) (auto split: option.split exn.split intro: safe_vault_encrypt)

lemma safe_any_auth:
  "safe (research_cmd cfg P) (\<lambda>_. True) (\<lambda>_. True) (require_api_key cfg' hs)"
  "safe (research_cmd cfg P) (\<lambda>_. True) (\<lambda>_. True) (get_user_token ad hs)"
  by (rule safe_mono [OF safe_require_api_key] safe_mono [OF safe_get_user_token];
      auto simp: research_cmd_def)+

lemma safe_calls [intro!]:
  "Q NewUuid \<Longrightarrow> safe Q (\<lambda>_. True) (\<lambda>_. True) uuid4" "Q UtcNow \<Longrightarrow> safe Q (\<lambda>_. True) (\<lambda>_. True) utcnow"
  "Q PerfCounter \<Longrightarrow> safe Q (\<lambda>_. True) (\<lambda>_. True) perf_counter"
  "safe Q (\<lambda>_. True) (\<lambda>_. True) (set_job_id j)" "safe Q (\<lambda>_. True) (\<lambda>_. True) (set_action_id j)"
  "safe Q (\<lambda>_. True) (\<lambda>_. True) (set_consumer_id j)"
  "safe Q (\<lambda>_. True) (\<lambda>_. True) (set_correlation_id c)"
  by (auto simp: call_defs set_job_id_def set_action_id_def set_consumer_id_def set_correlation_id_def
      split: reply.split)

lemma safe_current_correlation_id [intro!]:
  "Q NewUuid \<Longrightarrow> safe Q (\<lambda>_. True) (\<lambda>_. True) current_correlation_id"
  by (auto simp: current_correlation_id_def new_id_def intro!: safe_bind [where R = "\<lambda>_. True"]
      split: option.split)

lemma safe_with_caller:
  "(\<And>c t. safe (research_cmd cfg P) (\<lambda>_. True) (\<lambda>_. True) (h c t)) \<Longrightarrow>
   safe (research_cmd cfg P) (\<lambda>_. True) (\<lambda>_. True) (with_caller dp hs h)"
  unfolding with_caller_def
  by (intro safe_bind [where R = "\<lambda>_. True"] safe_any_auth)

lemma safe_log_research [simp]:
  "safe (research_cmd cfg P) (\<lambda>_. True) (\<lambda>_. True) (log_event l e m f)"
  by (simp add: research_cmd_def)

lemmas safe_steps = safe_bind [where R = "\<lambda>_. True"]

lemmas safe_store_in_research = safe_store_reads [THEN safe_in_research]
  safe_store_writes [THEN safe_in_research] safe_transition [THEN safe_in_research]

lemma safe_authorized_job:
  "safe (research_cmd (dp_settings dp) P) (\<lambda>_. True) (\<lambda>_. True) (authorized_job dp j c t)"
  unfolding authorized_job_def
  by (auto intro!: safe_steps safe_store_in_research split: option.split)

lemma safe_submit_research:
  assumes "settings_ok (dp_settings dp)"
  shows "safe (research_cmd (dp_settings dp) P) (\<lambda>_. True) (\<lambda>_. True) (submit_research dp b c t)"
proof -
  let ?Q = "research_cmd (dp_settings dp) P"
  have enc: "safe ?Q (\<lambda>_. True) (\<lambda>_. True) (encrypt_token dp t)"
    by (rule safe_mono [OF safe_encrypt_token]) (auto simp: research_cmd_def)
  have stage: "safe ?Q (\<lambda>_. True) (\<lambda>_. True) (stage_user_token dp j t)" for j
    unfolding stage_user_token_def when_do_def
    by (auto intro!: safe_steps enc safe_store_in_research assms)
  have enq: "safe ?Q (\<lambda>_. True) (\<lambda>_. True) (enqueue_research j)" for j
    by (rule safe_mono [OF safe_enqueue_research]) (auto simp: research_cmd_def)
  have roll: "safe ?Q (\<lambda>_. True) (\<lambda>_. True) (enqueue_or_roll_back dp j)" for j
    unfolding enqueue_or_roll_back_def
    by (rule safe_catch [OF enq]) (auto intro!: safe_steps safe_store_in_research assms split: exn.split)
  show ?thesis
    unfolding submit_research_def
    by (intro safe_steps safe_calls safe_current_correlation_id stage roll safe_store_in_research assms
        safe_log_research) (simp_all add: research_cmd_def)
qed

lemma safe_poll_research:
  "safe (research_cmd (dp_settings dp) P) (\<lambda>_. True) (\<lambda>_. True) (poll_research dp j c t)"
  unfolding poll_research_def Let_def
  by (auto intro!: safe_steps safe_authorized_job safe_store_in_research split: option.split)

lemma safe_cancel_research:
  assumes "settings_ok (dp_settings dp)"
  shows "safe (research_cmd (dp_settings dp) P) (\<lambda>_. True) (\<lambda>_. True) (cancel_research dp j c t)"
  unfolding cancel_research_def
  by (auto intro!: safe_steps safe_authorized_job safe_store_in_research assms)

lemma safe_research_endpoints:
  assumes "settings_ok (dp_settings dp)"
  shows "safe (research_cmd (dp_settings dp) P) (\<lambda>_. True) (\<lambda>_. True) (submit_endpoint dp hs body)"
    "safe (research_cmd (dp_settings dp) P) (\<lambda>_. True) (\<lambda>_. True) (poll_endpoint dp hs j)"
    "safe (research_cmd (dp_settings dp) P) (\<lambda>_. True) (\<lambda>_. True) (cancel_endpoint dp hs j)"
  unfolding submit_endpoint_def poll_endpoint_def cancel_endpoint_def
  by (rule safe_with_caller;
      auto intro: safe_submit_research safe_poll_research safe_cancel_research assms split: option.split)+

section \<open>What the handlers do\<close>

text \<open>Who may see a job: the principal that submitted it, or the consumer where there is no user.\<close>

definition permitted :: "deps \<Rightarrow> job_record \<Rightarrow> string \<Rightarrow> string option \<Rightarrow> bool" where
  "permitted dp r consumer_id user_token \<longleftrightarrow>
     (if ad_auth_mode (dp_adapter dp) = USER_PAT
      then job_principal_hash r = presented_hash dp user_token
      else job_consumer_id r = consumer_id)"

lemma keeps_ctx_encrypt:
  "keeps_ctx (vault_encrypt cr v t)"
  by (cases v) (auto simp: kv_encrypt_def local_encrypt_def call_defs Let_def
      intro!: keeps_ctx_bind keeps_ctx_catch split: reply.split)

lemma keeps_ctx_stage: "keeps_ctx (stage_user_token dp j t)"
  by (auto simp: stage_user_token_def when_do_def encrypt_token_def
      intro!: keeps_ctx_bind keeps_ctx_catch keeps_ctx_encrypt keeps_ctx_store split: option.split exn.split)

text \<open>
  What a submit that drew the id \<open>j\<close> may leave behind, from the result and the two views of the store:
  accepted, the new job is queued and, in the mode \<open>USER_PAT\<close>, a ciphertext staged; refused, nothing at
  all, or one failed job with no token. Nothing else in the store changes.
\<close>

definition submit_outcome ::
    "deps \<Rightarrow> research_request \<Rightarrow> string \<Rightarrow> string option \<Rightarrow> string \<Rightarrow> view \<Rightarrow> view \<Rightarrow>
     exn + research_accepted \<Rightarrow> bool" where
  "submit_outcome dp body c t j v v' res \<longleftrightarrow>
     (case res of
        Inr acc \<Rightarrow> ra_job_id acc = j \<and> (\<exists>now ct. v' =
          v\<lparr>vw_job := (vw_job v)(j \<mapsto> new_job_record dp j body c t (ra_correlation_id acc) now),
            vw_token := (if ad_auth_mode (dp_adapter dp) = USER_PAT then (vw_token v)(j \<mapsto> ct) else vw_token v)\<rparr>)
      | Inl e \<Rightarrow> v' = v \<or> (\<exists>r. job_status r = FAILED \<and> v' =
          v\<lparr>vw_job := (vw_job v)(j \<mapsto> r), vw_token := (vw_token v)(j := None),
            vw_cancel := (vw_cancel v)(j := False)\<rparr>))"

text \<open>What a poll answers, and what a cancellation does to the store.\<close>

definition poll_answer :: "view \<Rightarrow> string \<Rightarrow> job_record \<Rightarrow> job_status_response" where
  "poll_answer v j r =
     (let response = status_response r (vw_cancel v j) in
      if job_status r = COMPLETED then
        (case vw_result v j of
           Some d \<Rightarrow> response\<lparr>js_findings := Some (rd_findings d),
                               js_proposed_actions := Some (rd_proposed_actions d)\<rparr>
         | None \<Rightarrow> response)
      else response)"

definition cancel_outcome :: "view \<Rightarrow> view \<Rightarrow> string \<Rightarrow> job_record \<Rightarrow> exn + job_status_response \<Rightarrow> bool" where
  "cancel_outcome v v' j r res \<longleftrightarrow>
     (case job_status r of
        QUEUED \<Rightarrow> \<exists>r'. res = Inr (status_response r' False) \<and> job_status r' = CANCELLED \<and>
          v' = v\<lparr>vw_job := (vw_job v)(j \<mapsto> r'), vw_token := (vw_token v)(j := None),
                 vw_cancel := (vw_cancel v)(j := False)\<rparr>
      | RUNNING \<Rightarrow> res = Inr (status_response r True) \<and>
          v' = v\<lparr>vw_token := (vw_token v)(j := None), vw_cancel := (vw_cancel v)(j := True)\<rparr>
      | _ \<Rightarrow> res = Inr (status_response r False) \<and> v' = v)"

context platform
begin

lemma run_authorized_job:
  assumes "well_typed (dp_settings dp) P (look s)"
  shows "result_of W (authorized_job dp j c t) s x =
           (case vw_job (view_of (dp_settings dp) (look s)) j of
              None \<Rightarrow> Inl (unknown_job j)
            | Some r \<Rightarrow> if permitted dp r c t then Inr r else Inl (unknown_job j))"
    and "look (state_after W (authorized_job dp j c t) s x) = look s"
    and "vw_job (view_of (dp_settings dp) (look s)) j = Some r \<Longrightarrow> permitted dp r c t \<Longrightarrow>
         cx_correlation_id (ctx_after W (authorized_job dp j c t) s x) = Some (job_correlation_id r)"
  by (auto simp: authorized_job_def run_simps run_get_job(1) [OF assms] run_get_job(2,3) run_log_event
      permitted_def split: option.split)

lemma run_encrypt_token: "look (state_after W (encrypt_token dp t) s x) = look s"
  by (rule look_unchanged, rule safe_mono [OF safe_encrypt_token]) (auto elim: vault_cmd.elims)

lemma run_stage_user_token:
  assumes "settings_ok (dp_settings dp)"
  shows "result_of W (stage_user_token dp j t) s x = Inl e \<Longrightarrow>
           look (state_after W (stage_user_token dp j t) s x) = look s"
    and "result_of W (stage_user_token dp j t) s x = Inr () \<Longrightarrow> \<exists>c.
           look (state_after W (stage_user_token dp j t) s x) =
             (if ad_auth_mode (dp_adapter dp) = USER_PAT
              then (look s)(key_of (dp_settings dp) ''tok'' j \<mapsto> (VStr c, Some (token_ttl (dp_settings dp))))
              else look s)"
  using assms
  by (auto simp: stage_user_token_def run_simps run_encrypt_token run_stage_token split: sum.splits if_splits)

lemma run_enqueue:
  "result_of W (enqueue_research j) s x = Inl e \<Longrightarrow> \<exists>m. e = QueueUnavailable m"
  "look (state_after W (enqueue_research j) s x) = look s"
  "ctx_after W (enqueue_research j) s x = x"
  using safe_result [OF safe_enqueue_research [of j], of W s x]
  by (auto simp: look_enqueue [OF redis_server_axioms] keeps_ctx_after [OF keeps_ctx_enqueue])

lemma transition_ends:
  assumes "well_typed cfg P (look s)" "vw_job (view_of cfg (look s)) j = Some r"
    and "t \<in> allowed_transitions (job_status r)" "t \<in> terminal_states"
  defines "v \<equiv> view_of cfg (look s)"
  shows "\<exists>r'. result_of W (transition cfg j t a e) s x = Inr r' \<and> job_status r' = t \<and>
           view_of cfg (look (state_after W (transition cfg j t a e) s x)) =
             v\<lparr>vw_job := (vw_job v)(j \<mapsto> r'), vw_token := (vw_token v)(j := None),
               vw_cancel := (vw_cancel v)(j := False)\<rparr>"
  using transition_spec [OF assms(1), of j t a e x] assms(2-4)
  by (auto simp: spec_transition_def Let_def v_def)

lemma run_enqueue_or_roll_back:
  assumes "well_typed (dp_settings dp) P (look s)"
    and "vw_job (view_of (dp_settings dp) (look s)) j = Some r" "job_status r = QUEUED"
  defines "v \<equiv> view_of (dp_settings dp) (look s)"
  shows "result_of W (enqueue_or_roll_back dp j) s x = Inr () \<and>
           look (state_after W (enqueue_or_roll_back dp j) s x) = look s \<or>
         (\<exists>r'. result_of W (enqueue_or_roll_back dp j) s x =
             Inl (ApiError 503 DEPENDENCY_UNAVAILABLE ''Job queue is unavailable; retry later.'' None) \<and>
           job_status r' = FAILED \<and>
           view_of (dp_settings dp) (look (state_after W (enqueue_or_roll_back dp j) s x)) =
             v\<lparr>vw_job := (vw_job v)(j \<mapsto> r'), vw_token := (vw_token v)(j := None),
               vw_cancel := (vw_cancel v)(j := False)\<rparr>)"
proof (cases "result_of W (enqueue_research j) s x")
  case (Inr u)
  then show ?thesis by (simp add: enqueue_or_roll_back_def run_simps run_enqueue)
next
  case (Inl e)
  let ?cfg = "dp_settings dp"
  let ?s1 = "state_after W (purge_token ?cfg j) (state_after W (enqueue_research j) s x) x"
  obtain m where e: "e = QueueUnavailable m" using run_enqueue(1) [OF Inl] by blast
  have look1: "look ?s1 = (look s)(key_of ?cfg ''tok'' j := None)"
    by (simp add: run_enqueue run_purge_token)
  have typed1: "well_typed ?cfg P (look ?s1)"
    unfolding look1 using assms(1) by (rule well_typed_del)
  have job1: "vw_job (view_of ?cfg (look ?s1)) j = Some r"
    using assms(2) by (simp add: look1 view_of_update)
  have "FAILED \<in> allowed_transitions (job_status r)" "FAILED \<in> terminal_states"
    by (simp_all add: assms(3) terminal_states_def)
  from transition_ends [OF typed1 job1 this, of None
      "Some \<lparr>je_code = DEPENDENCY_UNAVAILABLE, je_message = ''enqueue failed at submit''\<rparr>" x]
  show ?thesis
    by (auto simp: enqueue_or_roll_back_def run_simps Inl e run_enqueue run_purge_token look1
        view_of_update v_def)
qed

lemma run_correlation_id:
  "\<exists>c. result_of W current_correlation_id s x = Inr c"
  "look (state_after W current_correlation_id s x) = look s"
  "cx_job_id (ctx_after W current_correlation_id s x) = cx_job_id x"
proof -
  obtain u where "result_of W uuid4 s x = Inr u" using run_uuid4(1) by blast
  then show "\<exists>c. result_of W current_correlation_id s x = Inr c"
    "look (state_after W current_correlation_id s x) = look s"
    "cx_job_id (ctx_after W current_correlation_id s x) = cx_job_id x"
    by (auto simp: current_correlation_id_def new_id_def run_simps run_uuid4 split: option.split)
qed

text \<open>Everything a submit can do to the store.\<close>

lemma submit_outcomes:
  assumes "settings_ok (dp_settings dp)" "well_typed (dp_settings dp) P (look s)"
  shows "\<exists>j. result_of W uuid4 s x = Inr j \<and>
         submit_outcome dp body c t j (view_of (dp_settings dp) (look s))
           (view_of (dp_settings dp) (look (state_after W (submit_research dp body c t) s x)))
           (result_of W (submit_research dp body c t) s x)"
proof -
  let ?cfg = "dp_settings dp"
  obtain j where j: "result_of W uuid4 s x = Inr j" using run_uuid4(1) by blast
  define s1 where "s1 = state_after W uuid4 s x"
  define x1 where "x1 = x\<lparr>cx_job_id := Some j\<rparr>"
  obtain cid where cid: "result_of W current_correlation_id s1 x1 = Inr cid"
    using run_correlation_id(1) by blast
  define s2 where "s2 = state_after W current_correlation_id s1 x1"
  define x2 where "x2 = ctx_after W current_correlation_id s1 x1"
  obtain now where now: "result_of W utcnow s2 x2 = Inr now" using run_utcnow(1) by blast
  define s3 where "s3 = state_after W utcnow s2 x2"
  have look3: "look s3 = look s"
    by (simp add: s3_def s2_def s1_def run_utcnow run_correlation_id run_uuid4)
  define r where "r = new_job_record dp j body c t cid now"
  have rj: "job_id r = j" "job_status r = QUEUED" by (simp_all add: r_def new_job_record_def)
  define s4 where "s4 = state_after W (stage_user_token dp j t) s3 x2"
  define s5 where "s5 = state_after W (create_job ?cfg r) s4 x2"
  have x4: "ctx_after W (stage_user_token dp j t) s3 x2 = x2"
    by (rule keeps_ctx_after [OF keeps_ctx_stage])
  note unfold = submit_research_def run_simps j cid now run_uuid4(3) run_utcnow(3)
    s1_def [symmetric] x1_def [symmetric] s2_def [symmetric] x2_def [symmetric] s3_def [symmetric]
    s4_def [symmetric] x4 r_def [symmetric]
  have "submit_outcome dp body c t j (view_of ?cfg (look s))
      (view_of ?cfg (look (state_after W (submit_research dp body c t) s x)))
      (result_of W (submit_research dp body c t) s x)"
  proof (cases "result_of W (stage_user_token dp j t) s3 x2")
    case (Inl e)
    have "look s4 = look s"
      using run_stage_user_token(1) [OF assms(1) Inl] by (simp add: s4_def look3)
    with Inl show ?thesis by (simp add: unfold submit_outcome_def)
  next
    case (Inr u)
    then have ok: "result_of W (stage_user_token dp j t) s3 x2 = Inr ()" by simp
    from run_stage_user_token(2) [OF assms(1) ok] obtain ct where look4: "look s4 = (if ad_auth_mode (dp_adapter dp) = USER_PAT
        then (look s)(key_of ?cfg ''tok'' j \<mapsto> (VStr ct, Some (token_ttl ?cfg))) else look s)"
      unfolding s4_def look3 by blast
    have look5: "look s5 = (look s4)(key_of ?cfg ''job'' j \<mapsto> (VJob r, Some (job_ttl ?cfg)))"
      by (simp add: s5_def run_create_job assms(1) rj)
    have typed5: "well_typed ?cfg P (look s5)"
      unfolding look5 look4 using assms(2) by (auto intro!: well_typed_upd simp: rj)
    have job5: "vw_job (view_of ?cfg (look s5)) j = Some r" by (simp add: look5 view_of_update)
    note unfold' = unfold Inr run_create_job assms(1) s5_def [symmetric]
    let ?acc = "\<lparr>ra_job_id = j, ra_status = QUEUED, ra_poll_url = ''/research/'' @ j,
          ra_estimated_wait_s = cf_estimated_wait_s ?cfg, ra_correlation_id = cid\<rparr>"
    have res: "result_of W (submit_research dp body c t) s x =
        (case result_of W (enqueue_or_roll_back dp j) s5 x2 of Inl e \<Rightarrow> Inl e | Inr u \<Rightarrow> Inr ?acc)"
      by (simp add: unfold' run_log_event split: sum.split)
    have st: "look (state_after W (submit_research dp body c t) s x) =
        look (state_after W (enqueue_or_roll_back dp j) s5 x2)"
      by (simp add: unfold' run_log_event split: sum.split)
    have view5: "view_of ?cfg (look s5) =
        (view_of ?cfg (look s))\<lparr>vw_job := (vw_job (view_of ?cfg (look s)))(j \<mapsto> r),
          vw_token := (if ad_auth_mode (dp_adapter dp) = USER_PAT
             then (vw_token (view_of ?cfg (look s)))(j \<mapsto> ct) else vw_token (view_of ?cfg (look s)))\<rparr>"
      by (simp add: look5 look4 view_of_update)
    from run_enqueue_or_roll_back [OF typed5 job5 rj(2), of x2] show ?thesis
    proof (elim disjE conjE exE)
      assume "result_of W (enqueue_or_roll_back dp j) s5 x2 = Inr ()"
        "look (state_after W (enqueue_or_roll_back dp j) s5 x2) = look s5"
      then show ?thesis
        unfolding submit_outcome_def res st
        by (simp add: view5) (intro conjI impI exI [of _ now] exI [of _ ct]; simp add: r_def)
    next
      fix r'
      assume "result_of W (enqueue_or_roll_back dp j) s5 x2 =
          Inl (ApiError 503 DEPENDENCY_UNAVAILABLE ''Job queue is unavailable; retry later.'' None)"
        "job_status r' = FAILED"
        "view_of ?cfg (look (state_after W (enqueue_or_roll_back dp j) s5 x2)) =
           (view_of ?cfg (look s5))\<lparr>vw_job := (vw_job (view_of ?cfg (look s5)))(j \<mapsto> r'),
             vw_token := (vw_token (view_of ?cfg (look s5)))(j := None),
             vw_cancel := (vw_cancel (view_of ?cfg (look s5)))(j := False)\<rparr>"
      then show ?thesis
        unfolding submit_outcome_def res st
        by (simp add: view5) (rule disjI2, rule exI [of _ r'], simp)
    qed
  qed
  with j show ?thesis by blast
qed

lemma run_poll_research:
  assumes "well_typed (dp_settings dp) P (look s)"
  shows "result_of W (poll_research dp j c t) s x =
           (case vw_job (view_of (dp_settings dp) (look s)) j of
              None \<Rightarrow> Inl (unknown_job j)
            | Some r \<Rightarrow> if permitted dp r c t
                then Inr (poll_answer (view_of (dp_settings dp) (look s)) j r) else Inl (unknown_job j))"
    and "look (state_after W (poll_research dp j c t) s x) = look s"
proof -
  let ?s1 = "state_after W (authorized_job dp j c t) s x"
  have typed1: "well_typed (dp_settings dp) P
      (look (state_after W (is_cancel_requested (dp_settings dp) j) ?s1 y))" for y
    by (simp add: run_is_cancel_requested run_authorized_job(2) [OF assms] assms)
  show "result_of W (poll_research dp j c t) s x =
           (case vw_job (view_of (dp_settings dp) (look s)) j of
              None \<Rightarrow> Inl (unknown_job j)
            | Some r \<Rightarrow> if permitted dp r c t
                then Inr (poll_answer (view_of (dp_settings dp) (look s)) j r) else Inl (unknown_job j))"
    "look (state_after W (poll_research dp j c t) s x) = look s"
    by (auto simp: poll_research_def run_simps run_authorized_job(1,2) [OF assms] Let_def
        run_is_cancel_requested run_get_result(1) [OF typed1] run_get_result(2) poll_answer_def
        split: option.split)
qed

lemma run_cancel_research:
  assumes "settings_ok (dp_settings dp)" "well_typed (dp_settings dp) P (look s)"
  shows "vw_job (view_of (dp_settings dp) (look s)) j = Some r \<Longrightarrow> permitted dp r c t \<Longrightarrow>
         cancel_outcome (view_of (dp_settings dp) (look s))
           (view_of (dp_settings dp) (look (state_after W (cancel_research dp j c t) s x))) j r
           (result_of W (cancel_research dp j c t) s x)"
    and "\<nexists>r. vw_job (view_of (dp_settings dp) (look s)) j = Some r \<and> permitted dp r c t \<Longrightarrow>
         result_of W (cancel_research dp j c t) s x = Inl (unknown_job j) \<and>
         look (state_after W (cancel_research dp j c t) s x) = look s"
proof -
  let ?cfg = "dp_settings dp"
  note auth = run_authorized_job(1,2) [OF assms(2)]
  assume r: "vw_job (view_of ?cfg (look s)) j = Some r" "permitted dp r c t"
  define x1 where "x1 = ctx_after W (authorized_job dp j c t) s x"
  define s1 where "s1 = state_after W (authorized_job dp j c t) s x"
  define s3 where "s3 = state_after W (request_cancel ?cfg j) (state_after W (purge_token ?cfg j) s1 x1) x1"
  have ok: "result_of W (authorized_job dp j c t) s x = Inr r" by (simp add: auth r)
  have look3: "look s3 = (look s)(key_of ?cfg ''tok'' j := None, key_of ?cfg ''cancel'' j \<mapsto> (VStr ''1'', Some (job_ttl ?cfg)))"
    by (simp add: s3_def run_request_cancel assms(1) run_purge_token s1_def auth)
  have typed3: "well_typed ?cfg P (look s3)"
    unfolding look3 using assms(2) by (auto intro!: well_typed_upd well_typed_del)
  have job3: "vw_job (view_of ?cfg (look s3)) j = Some r" by (simp add: look3 view_of_update r)
  note unfold = cancel_research_def run_simps ok auth(2) s1_def [symmetric] x1_def [symmetric]
    run_purge_token(1,3) run_request_cancel(1,3) assms(1) s3_def [symmetric]
  show "cancel_outcome (view_of ?cfg (look s)) (view_of ?cfg (look (state_after W (cancel_research dp j c t) s x)))
      j r (result_of W (cancel_research dp j c t) s x)"
  proof (cases "job_status r")
    case QUEUED
    then have "CANCELLED \<in> allowed_transitions (job_status r)" "CANCELLED \<in> terminal_states"
      by (simp_all add: terminal_states_def)
    from transition_ends [OF typed3 job3 this, of None None x1] QUEUED show ?thesis
      by (auto simp: unfold cancel_outcome_def look3 view_of_update)
  next
    case RUNNING
    then show ?thesis
      by (simp add: unfold cancel_outcome_def run_log_event look3 view_of_update)
  qed (simp_all add: unfold cancel_outcome_def, simp_all add: s1_def auth)
next
  assume no: "\<nexists>r. vw_job (view_of (dp_settings dp) (look s)) j = Some r \<and> permitted dp r c t"
  then show "result_of W (cancel_research dp j c t) s x = Inl (unknown_job j) \<and>
         look (state_after W (cancel_research dp j c t) s x) = look s"
    using run_authorized_job(1,2) [OF assms(2)]
    by (auto simp: cancel_research_def run_simps split: option.splits)
qed

end

section \<open>Properties\<close>


definition demo_deps :: deps where
  "demo_deps = \<lparr>dp_settings = default_settings, dp_adapter = jira_adapter ''https://jira'',
     dp_vault = LocalTokenVault (replicate 32 (CHR ''k'')), dp_crypto = demo_crypto\<rparr>"

lemma demo_deps_simps [simp]:
  "dp_settings demo_deps = default_settings" "dp_adapter demo_deps = jira_adapter ''https://jira''"
  by (simp_all add: demo_deps_def)

definition owned_job :: job_record where
  "owned_job = demo_job\<lparr>job_principal_hash := presented_hash demo_deps (Some ''my-pat'')\<rparr>"

definition owned_store :: mem where
  "owned_store = demo_store\<lparr>mem_keys :=
     (mem_keys demo_store)(key_of default_settings ''job'' ''j1'' \<mapsto> (VJob owned_job, Some 8400))\<rparr>"

lemma owned_store_typed: "well_typed default_settings P (mem_keys owned_store)"
  using well_typed_upd [OF demo_store_typed, of "''job''" P "''j1''" "VJob owned_job" "Some 8400"]
  by (simp add: owned_store_def) (simp add: owned_job_def demo_job_def)

lemma owned_store_job: "vw_job (view_of default_settings (mem_keys owned_store)) ''j1'' = Some owned_job"
  by (simp add: owned_store_def view_of_update)

lemma owned_job_status [simp]: "job_status owned_job = QUEUED"
  by (simp add: owned_job_def demo_job_def)


text \<open>
  C25: a job is shown to whoever may see it and to nobody else. A poll by the principal that submitted
  it (or the consumer, where there is no user) gets the stored record, with the progress only while it
  runs and the findings only when it is completed; to anybody else the job does not exist: the answer is
  the same 404, to the letter, as for an unknown id. Polling changes nothing.
\<close>

theorem poll_shows_own_jobs_only:
  assumes "platform W look" "well_typed (dp_settings dp) P (look s)"
  shows "result_of W (poll_research dp j c t) s x =
           (case vw_job (view_of (dp_settings dp) (look s)) j of
              None \<Rightarrow> Inl (unknown_job j)
            | Some r \<Rightarrow> if permitted dp r c t
                then Inr (poll_answer (view_of (dp_settings dp) (look s)) j r) else Inl (unknown_job j)) \<and>
         look (state_after W (poll_research dp j c t) s x) = look s"
  using platform.run_poll_research [OF assms] by blast

theorem poll_shows_own_jobs_only_witness:
  "result_of mem_world (poll_research demo_deps ''j1'' ''c1'' (Some ''my-pat'')) owned_store empty_ctx =
     Inr (status_response owned_job False)"
  using poll_shows_own_jobs_only [OF platform_mem, where dp = demo_deps and s = owned_store and j = "''j1''"
      and t = "Some ''my-pat''"]
  by (simp add: owned_store_typed owned_store_job permitted_def)
    (simp add: owned_job_def presented_hash_def poll_answer_def view_of_def owned_store_def demo_store_def
      mem_empty_def demo_job_def)

text \<open>
  C26: cancelling. A caller who may not see the job changes nothing and gets the 404 of an unknown one.
  Otherwise the staged token is gone as soon as the call returns: a queued job is cancelled for good, a
  running one keeps its record and gets its cancellation flag, a finished one is left alone.
\<close>

theorem cancel_effect:
  assumes "platform W look" "settings_ok (dp_settings dp)" "well_typed (dp_settings dp) P (look s)"
  shows "case vw_job (view_of (dp_settings dp) (look s)) j of
      Some r \<Rightarrow>
        if permitted dp r c t
        then cancel_outcome (view_of (dp_settings dp) (look s))
               (view_of (dp_settings dp) (look (state_after W (cancel_research dp j c t) s x))) j r
               (result_of W (cancel_research dp j c t) s x)
        else result_of W (cancel_research dp j c t) s x = Inl (unknown_job j) \<and>
             look (state_after W (cancel_research dp j c t) s x) = look s
    | None \<Rightarrow> result_of W (cancel_research dp j c t) s x = Inl (unknown_job j) \<and>
              look (state_after W (cancel_research dp j c t) s x) = look s"
  using platform.run_cancel_research [OF assms, where j = j and c = c and t = t and x = x]
  by (auto split: option.split)

theorem cancel_effect_witness:
  "cancel_outcome (view_of default_settings (mem_keys owned_store))
     (view_of default_settings (mem_keys (state_after mem_world
        (cancel_research demo_deps ''j1'' ''c1'' (Some ''my-pat'')) owned_store empty_ctx)))
     ''j1'' owned_job
     (result_of mem_world (cancel_research demo_deps ''j1'' ''c1'' (Some ''my-pat'')) owned_store empty_ctx)"
  using cancel_effect [OF platform_mem, where dp = demo_deps and s = owned_store and j = "''j1''"
      and t = "Some ''my-pat''" and c = "''c1''" and x = empty_ctx]
  by (simp add: owned_store_typed owned_store_job permitted_def) (simp add: owned_job_def)

end
