(* ===== verification/Execute_Api.thy ===== *)
theory Execute_Api
  imports Research_Api
begin

text \<open>
  \<^verbatim>\<open>app/api/execute.py\<close>: the synchronous execution of an approved action, its status and its
  rejection. The numbered steps of the handler are the definitions below, composed in the order of
  the code: replay check, authorization and expiry, payload against proposal, schema, live
  preconditions, the one mutation, outcome recorded before the proposal is consumed.
\<close>

section \<open>Hashing and authorization\<close>

definition canonical :: "dict \<Rightarrow> string" where
  "canonical payload = dumps_sorted (JObj payload)"

definition request_hash :: "string \<Rightarrow> dict \<Rightarrow> string" where
  "request_hash action_id payload = sha256_hex (utf8_encode (action_id @ '':'' @ canonical payload))"

definition expired_action :: "string \<Rightarrow> exn" where
  "expired_action a =
     ApiError 409 ACTION_EXPIRED (''Unknown, expired, or already-consumed action: '' @ a) None"

definition authorized_proposal ::
    "deps \<Rightarrow> string \<Rightarrow> string \<Rightarrow> string option \<Rightarrow> stored_proposal prog" where
  "authorized_proposal dp a consumer_id user_token =
     bind (get_proposal (dp_settings dp) a) (\<lambda>found.
     case found of
       None \<Rightarrow> Raise (expired_action a)
     | Some stored \<Rightarrow>
         if ad_auth_mode (dp_adapter dp) = USER_PAT \<and>
            presented_hash dp user_token \<noteq> sp_principal_hash stored
         then bind (log_event WARNING ''action_principal_mismatch'' [] [(''action_id'', a)]) (\<lambda>_.
              Raise (expired_action a))
         else if ad_auth_mode (dp_adapter dp) \<noteq> USER_PAT \<and> sp_consumer_id stored \<noteq> consumer_id
         then bind (log_event WARNING ''action_consumer_mismatch'' [] [(''action_id'', a)]) (\<lambda>_.
              Raise (expired_action a))
         else
           bind (set_action_id a) (\<lambda>_.
           bind (set_job_id (sp_job_id stored)) (\<lambda>_.
           GetCtx (\<lambda>x.
           bind (when_do (\<not> cx_from_header x)
                  (set_correlation_id (Some (pa_correlation_id (sp_action stored))))) (\<lambda>_.
           Ret stored)))))"

section \<open>The steps of an execution\<close>

text \<open>Top-level fields that differ from the proposal and are not editable, in order.\<close>

definition unexpected_fields :: "proposed_action \<Rightarrow> dict \<Rightarrow> string list" where
  "unexpected_fields action approved =
     sort (remdups (filter (\<lambda>k. k \<notin> set (pa_editable_fields action) \<and>
                               \<not> pyeq (dget k (pa_payload action)) (dget k approved))
            (map fst (pa_payload action) @ map fst approved)))"

definition verify_payload_against_proposal :: "stored_proposal \<Rightarrow> dict \<Rightarrow> exn + unit" where
  "verify_payload_against_proposal stored approved =
     (let unexpected = unexpected_fields (sp_action stored) approved in
      if unexpected \<noteq> [] then
        Inl (ApiError 409 PAYLOAD_MISMATCH
               ''approved_payload differs from the stored proposal on non-editable fields.''
               (Some [(''fields'', JArr (map JStr unexpected)),
                      (''editable_fields'',
                        JArr (map JStr (sort (remdups (pa_editable_fields (sp_action stored))))))]))
      else Inr ())"

definition validate_approved :: "adapter \<Rightarrow> stored_proposal \<Rightarrow> dict \<Rightarrow> exn + unit" where
  "validate_approved ad stored approved =
     (case validate_payload ad (pa_action_type (sp_action stored)) approved of
        Inr v \<Rightarrow> Inr ()
      | Inl e \<Rightarrow>
          (case e of
             UnsupportedActionError t \<Rightarrow> Inl (ApiError 409 UNSUPPORTED_ACTION (exn_str e) None)
           | PayloadValidationError t errs \<Rightarrow>
               Inl (ApiError 422 VALIDATION_ERROR
                      (''approved_payload failed schema validation for '' @ t)
                      (Some [(''errors'', JArr (map JObj errs))]))
           | _ \<Rightarrow> Inl e))"

definition precheck :: "adapter \<Rightarrow> proposed_action \<Rightarrow> credentials \<Rightarrow> unit prog" where
  "precheck ad action cr =
     bind (catch (ad_check_preconditions ad action cr)
             (\<lambda>exc. case exc of
                DownstreamError m st \<Rightarrow> Raise (ApiError 502 DOWNSTREAM_ERROR (exn_str exc) None)
              | _ \<Rightarrow> Raise exc)) (\<lambda>pc.
     if \<not> pc_ok pc
     then Raise (ApiError 409 STALE_TARGET
                   ''Target state drifted since research; re-run research and re-approve.''
                   (Some (pc_details pc)))
     else Ret ())"

definition mutate ::
    "adapter \<Rightarrow> string \<Rightarrow> proposed_action \<Rightarrow> dict \<Rightarrow> credentials \<Rightarrow> execution_result prog" where
  "mutate ad a action approved cr =
     catch (ad_execute ad action approved cr)
       (\<lambda>exc. case exc of
          UnsupportedActionError t \<Rightarrow> Raise (ApiError 409 UNSUPPORTED_ACTION (exn_str exc) None)
        | DownstreamError m st \<Rightarrow>
            bind (log_event ERROR ''execute_failed'' []
                   [(''action_id'', a),
                    (''status'', case st of Some n \<Rightarrow> show_int n | None \<Rightarrow> ''null'')]) (\<lambda>_.
            Raise (ApiError 502 DOWNSTREAM_ERROR (exn_str exc) None))
        | _ \<Rightarrow> Raise exc)"

definition record_outcome ::
    "deps \<Rightarrow> execute_request \<Rightarrow> string \<Rightarrow> string \<Rightarrow> int \<Rightarrow> execution_result \<Rightarrow> execute_response prog" where
  "record_outcome dp body key rh started outcome =
     (let a = er_action_id body in
      bind current_correlation_id (\<lambda>cid.
      let response = \<lparr>ex_status = ''executed'', ex_action_id = a, ex_result = xr_result outcome,
            ex_resource_url = xr_resource_url outcome, ex_idempotent_replay = False,
            ex_correlation_id = cid\<rparr> in
      bind utcnow (\<lambda>now.
      bind (put_idempotency (dp_settings dp) key
              \<lparr>id_request_hash = rh, id_response = response, id_created_at = now\<rparr>) (\<lambda>_.
      bind (delete_proposal (dp_settings dp) a) (\<lambda>_.
      bind perf_counter (\<lambda>finished.
      bind (log_event INFO ''execute_succeeded'' (''approved_by='' @ er_approved_by body)
             [(''action_id'', a),
              (''duration_ms'', show_int (round_div (finished - started) 1000))]) (\<lambda>_.
      bind (log_event INFO ''proposal_consumed'' [] [(''action_id'', a)]) (\<lambda>_.
      Ret response))))))))"

text \<open>Steps 1 to 6, when the idempotency key is new.\<close>

definition execute_fresh ::
    "deps \<Rightarrow> execute_request \<Rightarrow> string \<Rightarrow> string option \<Rightarrow> string \<Rightarrow> string \<Rightarrow> execute_response prog" where
  "execute_fresh dp body consumer_id user_token key rh =
     (let a = er_action_id body; approved = er_approved_payload body; ad = dp_adapter dp in
      bind (authorized_proposal dp a consumer_id user_token) (\<lambda>stored.
      bind utcnow (\<lambda>now.
      if pa_expires_at (sp_action stored) \<le> now
      then bind (delete_proposal (dp_settings dp) a) (\<lambda>_. Raise (expired_action a))
      else
        bind (lift_result (verify_payload_against_proposal stored approved)) (\<lambda>_.
        bind (lift_result (validate_approved ad stored approved)) (\<lambda>_.
        bind (log_event INFO ''execute_validated'' [] [(''action_id'', a)]) (\<lambda>_.
        bind (lift_result (resolve_credentials ad user_token)) (\<lambda>cr.
        bind (precheck ad (sp_action stored) cr) (\<lambda>_.
        bind perf_counter (\<lambda>started.
        bind (mutate ad a (sp_action stored) approved cr) (\<lambda>outcome.
        record_outcome dp body key rh started outcome))))))))))"

text \<open>Step 0.\<close>

definition replay :: "execute_request \<Rightarrow> string \<Rightarrow> idempotency_record \<Rightarrow> execute_response prog" where
  "replay body rh existing =
     (if id_request_hash existing \<noteq> rh
      then Raise (ApiError 409 IDEMPOTENT_REPLAY
                    ''Idempotency-Key was already used for a different action/payload.'' None)
      else
        bind (log_event INFO ''execute_replayed'' [] [(''action_id'', er_action_id body)]) (\<lambda>_.
        bind current_correlation_id (\<lambda>cid.
        Ret ((id_response existing)\<lparr>ex_idempotent_replay := True, ex_correlation_id := cid\<rparr>))))"

definition execute_action ::
    "deps \<Rightarrow> execute_request \<Rightarrow> string \<Rightarrow> string option \<Rightarrow> string \<Rightarrow> execute_response prog" where
  "execute_action dp body consumer_id user_token key =
     bind (set_action_id (er_action_id body)) (\<lambda>_.
     let rh = request_hash (er_action_id body) (er_approved_payload body) in
     bind (log_event INFO ''execute_requested'' [] [(''action_id'', er_action_id body)]) (\<lambda>_.
     bind (get_idempotency (dp_settings dp) key) (\<lambda>found.
     case found of
       Some existing \<Rightarrow> replay body rh existing
     | None \<Rightarrow> execute_fresh dp body consumer_id user_token key rh)))"

section \<open>Status and rejection\<close>

definition get_action ::
    "deps \<Rightarrow> string \<Rightarrow> string \<Rightarrow> string option \<Rightarrow> action_status_response prog" where
  "get_action dp a consumer_id user_token =
     bind (authorized_proposal dp a consumer_id user_token) (\<lambda>stored.
     bind current_correlation_id (\<lambda>cid.
     Ret \<lparr>as_action_id = a, as_status = ''proposed'',
          as_expires_at = Some (pa_expires_at (sp_action stored)), as_action = Some (sp_action stored),
          as_correlation_id = cid\<rparr>))"

definition reject_action ::
    "deps \<Rightarrow> string \<Rightarrow> string \<Rightarrow> string option \<Rightarrow> action_status_response prog" where
  "reject_action dp a consumer_id user_token =
     bind (authorized_proposal dp a consumer_id user_token) (\<lambda>stored.
     bind (delete_proposal (dp_settings dp) a) (\<lambda>_.
     bind (log_event INFO ''proposal_rejected_by_consumer'' [] [(''action_id'', a)]) (\<lambda>_.
     bind current_correlation_id (\<lambda>cid.
     Ret \<lparr>as_action_id = a, as_status = ''rejected'', as_expires_at = None, as_action = None,
          as_correlation_id = cid\<rparr>))))"

text \<open>\<open>parse_datetime\<close> is Pydantic's; the \<open>Idempotency-Key\<close> header is required.\<close>

definition execute_endpoint ::
    "(json \<Rightarrow> time option) \<Rightarrow> deps \<Rightarrow> headers \<Rightarrow> json \<Rightarrow> execute_response prog" where
  "execute_endpoint parse_datetime dp hs body =
     with_caller dp hs (\<lambda>consumer_id user_token.
       case (request_header ''Idempotency-Key'' hs,
             Option.bind (as_dict body) (validate_execute_request parse_datetime)) of
         (Some key, Some b) \<Rightarrow> execute_action dp b consumer_id user_token key
       | _ \<Rightarrow> Raise RequestValidationError)"

definition get_action_endpoint :: "deps \<Rightarrow> headers \<Rightarrow> string \<Rightarrow> action_status_response prog" where
  "get_action_endpoint dp hs a = with_caller dp hs (get_action dp a)"

definition reject_action_endpoint :: "deps \<Rightarrow> headers \<Rightarrow> string \<Rightarrow> action_status_response prog" where
  "reject_action_endpoint dp hs a = with_caller dp hs (reject_action dp a)"

section \<open>What the handlers may do\<close>

definition execute_cmd :: "settings \<Rightarrow> (proposed_action \<Rightarrow> bool) \<Rightarrow> cmd \<Rightarrow> bool" where
  "execute_cmd cfg P c \<longleftrightarrow> research_cmd cfg P c \<or> adapter_cmd c"

lemma research_in_execute:
  "safe (research_cmd cfg P) E R p \<Longrightarrow> safe (execute_cmd cfg P) E R p"
  by (erule safe_mono) (auto simp: execute_cmd_def)

lemma writes_in_execute: "execute_cmd cfg P c \<Longrightarrow> store_cmd cfg P c \<or> \<not> writes c"
  by (cases c) (auto simp: execute_cmd_def research_cmd_def)

lemma adapter_in_execute: "safe adapter_cmd E R p \<Longrightarrow> safe (execute_cmd cfg P) E R p"
  by (erule safe_mono) (auto simp: execute_cmd_def)

text \<open>The mutating requests of a trace; a program of the other handlers' commands sends none.\<close>

definition mutations :: "(http_req \<Rightarrow> bool) \<Rightarrow> (cmd \<times> reply) list \<Rightarrow> (cmd \<times> reply) list" where
  "mutations mut tr = filter (\<lambda>(c, r). mutating mut c) tr"

lemma mutations_simps [simp]:
  "mutations mut [] = []" "mutations mut (a @ b) = mutations mut a @ mutations mut b"
  "mutations mut ((c, r) # tr) = (if mutating mut c then (c, r) # mutations mut tr else mutations mut tr)"
  by (simp_all add: mutations_def)

lemma mutations_none:
  assumes "at_most (mutating mut) 0 p"
  shows "mutations mut (trace_of W p s x) = []"
  using at_most_trace [OF assms, of W s x] by (simp add: mutations_def)

lemma quiet_research: "safe (research_cmd cfg P) E R p \<Longrightarrow> at_most (mutating mut) 0 p"
  by (rule at_most_none, erule safe_mono) (auto elim: mutating.elims)

lemma quiet_silent [simp]:
  "at_most (mutating mut) n utcnow" "at_most (mutating mut) n perf_counter"
  "at_most (mutating mut) n (log_event l e m f)" "at_most (mutating mut) n (set_action_id a)"
  "at_most (mutating mut) n (set_job_id a)" "at_most (mutating mut) n (set_correlation_id c)"
  by (auto simp: call_defs log_event_def set_action_id_def set_job_id_def set_correlation_id_def
      split: reply.split)

lemma safe_authorized_proposal:
  "safe (research_cmd (dp_settings dp) P) (\<lambda>_. True) (\<lambda>_. True) (authorized_proposal dp a c t)"
  unfolding authorized_proposal_def
  by (auto intro!: safe_steps safe_store_in_research simp: when_do_def split: option.split)

lemma safe_current_research:
  "safe (research_cmd cfg P) (\<lambda>_. True) (\<lambda>_. True) current_correlation_id"
  by (rule safe_current_correlation_id) (simp add: research_cmd_def)

lemma safe_clock_research:
  "safe (research_cmd cfg P) (\<lambda>_. True) (\<lambda>_. True) utcnow"
  "safe (research_cmd cfg P) (\<lambda>_. True) (\<lambda>_. True) perf_counter"
  by (auto intro!: safe_calls simp: research_cmd_def)

lemma safe_record_outcome:
  assumes "settings_ok (dp_settings dp)"
  shows "safe (research_cmd (dp_settings dp) P) (\<lambda>_. True) (\<lambda>_. True)
           (record_outcome dp body key rh started outcome)"
  unfolding record_outcome_def Let_def
  by (intro safe_steps safe_current_research safe_clock_research safe_store_in_research assms
      safe_log_research) simp

lemma safe_replay:
  "safe (research_cmd cfg P) (\<lambda>_. True) (\<lambda>_. True) (replay body rh existing)"
  unfolding replay_def by (auto intro!: safe_steps safe_current_research)

lemma quiet_delete: "at_most (mutating mut) 0 (delete_proposal cfg a)"
  by (auto simp: delete_proposal_def call_defs intro!: at_most_before split: reply.split)

lemma quiet_record: "at_most (mutating mut) 0 (record_outcome dp body key rh started outcome)"
  unfolding record_outcome_def Let_def
  by (auto intro!: at_most_before quiet_research [OF safe_current_research] quiet_delete
      simp: put_idempotency_def redis_set_ex_def split: reply.split)

lemma safe_execute_action:
  assumes "domain_adapter (dp_adapter dp) mut" "settings_ok (dp_settings dp)"
  shows "safe (execute_cmd (dp_settings dp) P) (\<lambda>_. True) (\<lambda>_. True) (execute_action dp body c t key)"
proof -
  let ?Q = "execute_cmd (dp_settings dp) P"
  note up = research_in_execute [where P = P]
  have check: "safe ?Q (\<lambda>_. True) (\<lambda>_. True) (precheck (dp_adapter dp) a cr)" for a cr
    unfolding precheck_def
    by (rule safe_steps, rule safe_catch [OF adapter_in_execute [OF domain_adapter.check_adapter_cmd [OF assms(1)]]])
      (auto split: exn.split)
  have mut: "safe ?Q (\<lambda>_. True) (\<lambda>_. True) (mutate (dp_adapter dp) i a p cr)" for i a p cr
    unfolding mutate_def
    by (rule safe_catch [OF adapter_in_execute [OF domain_adapter.execute_cmds [OF assms(1)]]])
      (auto intro!: safe_steps up split: exn.split)
  have fresh: "safe ?Q (\<lambda>_. True) (\<lambda>_. True) (execute_fresh dp body c t key rh)" for rh
    unfolding execute_fresh_def Let_def
    by (rule safe_steps, rule up, rule safe_authorized_proposal)
      (auto intro!: safe_steps up [OF safe_clock_research(1)] up [OF safe_clock_research(2)]
        up [OF safe_store_in_research(15)] up [OF safe_log_research] check mut
        up [OF safe_record_outcome [OF assms(2)]] assms(2))
  show ?thesis
    unfolding execute_action_def Let_def
    by (auto intro!: safe_steps safe_calls up [OF safe_log_research] up [OF safe_store_in_research(5)]
        up [OF safe_replay] fresh split: option.split)
qed

lemma safe_action_endpoints:
  assumes "settings_ok (dp_settings dp)"
  shows "safe (execute_cmd (dp_settings dp) P) (\<lambda>_. True) (\<lambda>_. True) (get_action dp a c t)"
    and "safe (execute_cmd (dp_settings dp) P) (\<lambda>_. True) (\<lambda>_. True) (reject_action dp a c t)"
  unfolding get_action_def reject_action_def
  by (rule research_in_execute,
      (auto intro!: safe_steps safe_authorized_proposal safe_store_in_research assms simp: research_cmd_def)[1])+

context domain_adapter
begin

lemma quiet_precheck: "at_most (mutating mut) 0 (precheck ad action cr)"
proof -
  have "at_most (mutating mut) (0 + 0) (catch (ad_check_preconditions ad action cr)
      (\<lambda>exc. case exc of
         DownstreamError m st \<Rightarrow> Raise (ApiError 502 DOWNSTREAM_ERROR (exn_str exc) None)
       | _ \<Rightarrow> Raise exc))"
    by (rule at_most_catch [OF check_never_mutates]) (auto split: exn.split)
  then show ?thesis unfolding precheck_def by (intro at_most_before) auto
qed

lemma mutate_once: "at_most (mutating mut) (Suc 0) (mutate ad a action approved cr)"
proof -
  have "at_most (mutating mut) (1 + 0) (mutate ad a action approved cr)"
    unfolding mutate_def
    by (rule at_most_catch [OF execute_once]) (auto intro!: at_most_before split: exn.split)
  then show ?thesis by simp
qed

lemma execute_fresh_once:
  assumes "dp_adapter dp = ad"
  shows "at_most (mutating mut) (Suc 0) (execute_fresh dp body c t key rh)"
  unfolding execute_fresh_def Let_def assms
  by (auto intro!: at_most_before [OF quiet_research [OF safe_authorized_proposal]]
      at_most_before [OF quiet_delete] at_most_before [OF at_most_lift_result]
      at_most_before [OF quiet_precheck] at_most_before [OF quiet_silent(1)]
      at_most_before [OF quiet_silent(2)] at_most_before [OF quiet_silent(3)]
      at_most_after [OF mutate_once] quiet_record)

lemma execute_action_once:
  assumes "dp_adapter dp = ad"
  shows "at_most (mutating mut) (Suc 0) (execute_action dp body c t key)"
  unfolding execute_action_def Let_def
  by (auto intro!: at_most_before [OF quiet_silent(4)] at_most_before [OF quiet_silent(3)]
      at_most_before [OF quiet_research [OF safe_in_research [OF safe_store_reads(5)]]]
      at_most_mono [OF quiet_research [OF safe_replay]] execute_fresh_once [OF assms]
      split: option.split)

end

section \<open>What the handlers do\<close>

definition permitted_action :: "deps \<Rightarrow> stored_proposal \<Rightarrow> string \<Rightarrow> string option \<Rightarrow> bool" where
  "permitted_action dp p consumer_id user_token \<longleftrightarrow>
     (if ad_auth_mode (dp_adapter dp) = USER_PAT
      then sp_principal_hash p = presented_hash dp user_token
      else sp_consumer_id p = consumer_id)"

text \<open>Everything that must hold for a mutation to be sent.\<close>

definition executable ::
    "deps \<Rightarrow> execute_request \<Rightarrow> string \<Rightarrow> string option \<Rightarrow> view \<Rightarrow> stored_proposal \<Rightarrow> time \<Rightarrow> bool" where
  "executable dp body c t v p now \<longleftrightarrow>
     vw_proposal v (er_action_id body) = Some p \<and> permitted_action dp p c t \<and>
     now < pa_expires_at (sp_action p) \<and>
     unexpected_fields (sp_action p) (er_approved_payload body) = [] \<and>
     valid_payload (dp_adapter dp) (pa_action_type (sp_action p)) (er_approved_payload body)"

definition executed_response :: "execute_request \<Rightarrow> execution_result \<Rightarrow> string \<Rightarrow> execute_response" where
  "executed_response body out cid =
     \<lparr>ex_status = ''executed'', ex_action_id = er_action_id body, ex_result = xr_result out,
      ex_resource_url = xr_resource_url out, ex_idempotent_replay = False, ex_correlation_id = cid\<rparr>"

lemma verify_payload_Inr:
  "verify_payload_against_proposal p approved = Inr () \<longleftrightarrow> unexpected_fields (sp_action p) approved = []"
  by (simp add: verify_payload_against_proposal_def Let_def)

lemma validate_approved_Inr:
  "validate_approved ad p approved = Inr () \<longleftrightarrow> valid_payload ad (pa_action_type (sp_action p)) approved"
  by (auto simp: validate_approved_def valid_payload_def split: sum.split exn.split)

text \<open>
  The checks of \<open>/execute\<close> in their order, at the time \<open>now\<close>: what they refuse a request with, if they do. Only
  the target system is asked after that.
\<close>

definition check_refusal ::
    "deps \<Rightarrow> execute_request \<Rightarrow> string \<Rightarrow> string option \<Rightarrow> view \<Rightarrow> time \<Rightarrow> exn option" where
  "check_refusal dp body c t v now =
     (case vw_proposal v (er_action_id body) of
        None \<Rightarrow> Some (expired_action (er_action_id body))
      | Some p \<Rightarrow>
          if \<not> permitted_action dp p c t \<or> pa_expires_at (sp_action p) \<le> now
          then Some (expired_action (er_action_id body))
          else
            (case verify_payload_against_proposal p (er_approved_payload body) of
               Inl e \<Rightarrow> Some e
             | Inr _ \<Rightarrow>
                 (case validate_approved (dp_adapter dp) p (er_approved_payload body) of
                    Inl e \<Rightarrow> Some e
                  | Inr _ \<Rightarrow>
                      (case resolve_credentials (dp_adapter dp) t of Inl e \<Rightarrow> Some e | Inr _ \<Rightarrow> None))))"

definition finds_expired ::
    "deps \<Rightarrow> execute_request \<Rightarrow> string \<Rightarrow> string option \<Rightarrow> view \<Rightarrow> time \<Rightarrow> bool" where
  "finds_expired dp body c t v now \<longleftrightarrow>
     (case vw_proposal v (er_action_id body) of
        None \<Rightarrow> False
      | Some p \<Rightarrow> permitted_action dp p c t \<and> pa_expires_at (sp_action p) \<le> now)"

text \<open>
  What an execution leaves behind. A used key: nothing changes, the recorded response comes back, or
  a conflict if it was used for something else. A new key: success records the response under the key
  and consumes the proposal; failure has the error of the first check that fails, or one of the target
  system when none does, and leaves everything as it was, but for the caller's own proposal if that has
  expired.
\<close>

definition replayed_response :: "execute_response \<Rightarrow> string \<Rightarrow> execute_response" where
  "replayed_response resp cid = resp\<lparr>ex_idempotent_replay := True, ex_correlation_id := cid\<rparr>"

definition key_reused :: exn where
  "key_reused = ApiError 409 IDEMPOTENT_REPLAY
     ''Idempotency-Key was already used for a different action/payload.'' None"

definition execute_outcome ::
    "deps \<Rightarrow> execute_request \<Rightarrow> string \<Rightarrow> string option \<Rightarrow> string \<Rightarrow> view \<Rightarrow> view \<Rightarrow>
     exn + execute_response \<Rightarrow> bool" where
  "execute_outcome dp body c t key v v' res \<longleftrightarrow>
     (let a = er_action_id body; rh = request_hash a (er_approved_payload body) in
      case vw_idem v key of
        Some rec \<Rightarrow> v' = v \<and>
          (if id_request_hash rec = rh then (\<exists>cid. res = Inr (replayed_response (id_response rec) cid))
           else res = Inl key_reused)
      | None \<Rightarrow>
          (case res of
             Inr resp \<Rightarrow> \<exists>p now tm out cid. executable dp body c t v p now \<and>
               resp = executed_response body out cid \<and>
               v' = v\<lparr>vw_idem := (vw_idem v)
                         (key \<mapsto> \<lparr>id_request_hash = rh, id_response = resp, id_created_at = tm\<rparr>),
                       vw_proposal := (vw_proposal v)(a := None)\<rparr>
           | Inl e \<Rightarrow> \<exists>now. check_refusal dp body c t v now \<in> {Some e, None} \<and>
               v' = (if finds_expired dp body c t v now then v\<lparr>vw_proposal := (vw_proposal v)(a := None)\<rparr> else v)))"

lemma mutations_bind:
  assumes "at_most (mutating mut) 0 p" "mutations mut (trace_of W (bind p f) s x) \<noteq> []"
  shows "\<exists>a s' x'. runs W p s x a s' x' \<and> mutations mut (trace_of W (f a) s' x') \<noteq> []"
  using assms(2) mutations_none [OF assms(1), of W s x]
  by (auto simp: run_simps runs_def split: sum.splits)

locale execution = platform W look + domain_adapter ad mut
  for W :: "'s \<Rightarrow> cmd \<Rightarrow> 's \<times> reply"
    and look :: "'s \<Rightarrow> string \<Rightarrow> (rval \<times> int option) option"
    and ad :: adapter and mut :: "http_req \<Rightarrow> bool" +
  fixes dp :: deps
  assumes dp_ad [simp]: "dp_adapter dp = ad" and cfg_ok: "settings_ok (dp_settings dp)"
begin

lemma look_adapter:
  "look (state_after W (ad_check_preconditions ad a cr) s x) = look s"
  "look (state_after W (ad_execute ad a p cr) s x) = look s"
  by (rule look_unchanged, rule safe_mono [OF check_adapter_cmd], auto elim: adapter_cmd.elims)
    (rule look_unchanged, rule safe_mono [OF execute_cmds], auto elim: adapter_cmd.elims)

lemma run_authorized_proposal:
  assumes "well_typed (dp_settings dp) P (look s)"
  shows "result_of W (authorized_proposal dp a c t) s x =
           (case vw_proposal (view_of (dp_settings dp) (look s)) a of
              None \<Rightarrow> Inl (expired_action a)
            | Some p \<Rightarrow> if permitted_action dp p c t then Inr p else Inl (expired_action a))"
    and "look (state_after W (authorized_proposal dp a c t) s x) = look s"
  by (auto simp: authorized_proposal_def run_simps run_get_proposal(1) [OF assms] run_get_proposal(2,3)
      run_log_event permitted_action_def split: option.split)

lemma run_precheck:
  "look (state_after W (precheck ad a cr) s x) = look s"
  "result_of W (precheck ad a cr) s x = Inr u \<longleftrightarrow>
     (\<exists>pc. result_of W (ad_check_preconditions ad a cr) s x = Inr pc \<and> pc_ok pc)"
  by (auto simp: precheck_def run_simps look_adapter split: sum.split exn.split)

lemma run_mutate:
  "look (state_after W (mutate ad a action p cr) s x) = look s"
  "result_of W (mutate ad a action p cr) s x = Inr out \<longleftrightarrow>
     result_of W (ad_execute ad action p cr) s x = Inr out"
  by (auto simp: mutate_def run_simps look_adapter run_log_event split: sum.split exn.split)

lemma run_record_outcome:
  "\<exists>cid now. result_of W (record_outcome dp body key rh started out) s x = Inr (executed_response body out cid) \<and>
     look (state_after W (record_outcome dp body key rh started out) s x) =
       (look s)(key_of (dp_settings dp) ''idem'' key \<mapsto>
          (VIdem \<lparr>id_request_hash = rh, id_response = executed_response body out cid, id_created_at = now\<rparr>,
           Some (cf_idempotency_ttl_s (dp_settings dp))),
         key_of (dp_settings dp) ''proposal'' (er_action_id body) := None)"
proof -
  obtain cid where cid: "result_of W current_correlation_id s x = Inr cid"
    using run_correlation_id(1) by blast
  let ?s = "state_after W current_correlation_id s x" let ?x = "ctx_after W current_correlation_id s x"
  obtain now where now: "result_of W utcnow ?s ?x = Inr now" using run_utcnow(1) by blast
  have perf: "\<exists>t. result_of W perf_counter s' x' = Inr t" for s' x' by (rule run_perf_counter(1))
  show ?thesis
    using perf
    by (intro exI [of _ cid] exI [of _ now])
      (auto simp: record_outcome_def Let_def run_simps cid now run_correlation_id run_utcnow(2,3)
        run_put_idempotency cfg_ok run_delete_proposal run_perf_counter(2,3) run_log_event
        executed_response_def split: sum.split)
qed

lemma record_outcome_never_fails [simp]:
  "result_of W (record_outcome dp body key rh started out) s x \<noteq> Inl e"
  using run_record_outcome [of body key rh started out s x] by auto

lemma runs_authorized_proposal:
  assumes "well_typed (dp_settings dp) P (look s)" "runs W (authorized_proposal dp a c t) s x p s' x'"
  shows "vw_proposal (view_of (dp_settings dp) (look s)) a = Some p \<and> permitted_action dp p c t \<and>
         look s' = look s"
  using assms(2) run_authorized_proposal [OF assms(1), of a c t x]
  by (auto simp: runs_def split: option.splits if_splits)

lemma runs_quiet:
  "runs W utcnow s x n s' x' \<Longrightarrow> look s' = look s"
  "runs W perf_counter s x n s' x' \<Longrightarrow> look s' = look s"
  "runs W (log_event l e m f) s x u s' x' \<Longrightarrow> look s' = look s"
  "runs W (precheck ad a cr) s x v s' x' \<Longrightarrow> look s' = look s \<and>
     (\<exists>pc. result_of W (ad_check_preconditions ad a cr) s x = Inr pc \<and> pc_ok pc)"
  "runs W (mutate ad i a p cr) s x out s' x' \<Longrightarrow> look s' = look s \<and>
     result_of W (ad_execute ad a p cr) s x = Inr out"
  by (auto simp: runs_def run_utcnow run_perf_counter run_log_event run_precheck run_mutate)

lemma runs_record:
  "runs W (record_outcome dp body key rh started out) s x resp s' x' \<Longrightarrow>
   \<exists>cid tm. resp = executed_response body out cid \<and>
     look s' = (look s)(key_of (dp_settings dp) ''idem'' key \<mapsto>
          (VIdem \<lparr>id_request_hash = rh, id_response = resp, id_created_at = tm\<rparr>,
           Some (cf_idempotency_ttl_s (dp_settings dp))),
         key_of (dp_settings dp) ''proposal'' (er_action_id body) := None)"
  using run_record_outcome [of body key rh started out s x] by (auto simp: runs_def)

text \<open>A successful first execution, and what it did.\<close>

lemma execute_fresh_succeeds:
  assumes typed: "well_typed (dp_settings dp) P (look s)"
    and run: "runs W (execute_fresh dp body c t key rh) s x resp s' x'"
  shows "\<exists>p now cr out cid tm s1 x1 s2 x2 pc.
     executable dp body c t (view_of (dp_settings dp) (look s)) p now \<and>
     resolve_credentials ad t = Inr cr \<and>
     result_of W (ad_check_preconditions ad (sp_action p) cr) s1 x1 = Inr pc \<and> pc_ok pc \<and>
     result_of W (ad_execute ad (sp_action p) (er_approved_payload body) cr) s2 x2 = Inr out \<and>
     resp = executed_response body out cid \<and>
     look s' = (look s)(key_of (dp_settings dp) ''idem'' key \<mapsto>
          (VIdem \<lparr>id_request_hash = rh, id_response = resp, id_created_at = tm\<rparr>,
           Some (cf_idempotency_ttl_s (dp_settings dp))),
         key_of (dp_settings dp) ''proposal'' (er_action_id body) := None)"
proof -
  let ?ap = "er_approved_payload body"
  from run obtain p s1 x1 now s2 x2 cr s3 x3 s4 x4 started s5 x5 out s6 x6 where
    auth: "runs W (authorized_proposal dp (er_action_id body) c t) s x p s1 x1"
    and clock: "runs W utcnow s1 x1 now s2 x2" and fresh: "\<not> pa_expires_at (sp_action p) \<le> now"
    and pay: "verify_payload_against_proposal p ?ap = Inr ()" "validate_approved ad p ?ap = Inr ()"
    and cr: "resolve_credentials ad t = Inr cr"
    and log: "runs W (log_event INFO ''execute_validated'' [] [(''action_id'', er_action_id body)]) s2 x2 () s3 x3"
    and pre: "runs W (precheck ad (sp_action p) cr) s3 x3 () s4 x4"
    and perf: "runs W perf_counter s4 x4 started s5 x5"
    and mut: "runs W (mutate ad (er_action_id body) (sp_action p) ?ap cr) s5 x5 out s6 x6"
    and rec: "runs W (record_outcome dp body key rh started out) s6 x6 resp s' x'"
    by (auto simp: execute_fresh_def Let_def runs_steps split: if_splits)
  note auth' = runs_authorized_proposal [OF typed auth]
  have same: "look s6 = look s"
    using auth' runs_quiet(1) [OF clock] runs_quiet(3) [OF log] runs_quiet(4) [OF pre]
      runs_quiet(2) [OF perf] runs_quiet(5) [OF mut] by simp
  have "executable dp body c t (view_of (dp_settings dp) (look s)) p now"
    using auth' fresh pay by (simp add: executable_def verify_payload_Inr validate_approved_Inr)
  with runs_record [OF rec] runs_quiet(4) [OF pre] runs_quiet(5) [OF mut] cr
  show ?thesis unfolding same by blast
qed

text \<open>A failed one: nothing happened to the store, except that an expired proposal is removed.\<close>

lemma fails_quiet:
  "fails W utcnow s x e s' \<longleftrightarrow> False" "fails W perf_counter s x e s' \<longleftrightarrow> False"
  "fails W (log_event l ev m f) s x e s' \<longleftrightarrow> False" "fails W (delete_proposal cfg i) s x e s' \<longleftrightarrow> False"
  "fails W (record_outcome dp body key rh started out) s x e s' \<longleftrightarrow> False"
  "fails W (precheck ad a cr) s x e s' \<Longrightarrow> look s' = look s"
  "fails W (mutate ad i a p cr) s x e s' \<Longrightarrow> look s' = look s"
  by (auto simp: fails_def run_log_event run_delete_proposal run_precheck run_mutate)

lemma fails_authorized_proposal:
  assumes "well_typed (dp_settings dp) P (look s)" "fails W (authorized_proposal dp a c t) s x e s'"
  shows "look s' = look s \<and> e = expired_action a \<and>
    (\<forall>p. vw_proposal (view_of (dp_settings dp) (look s)) a = Some p \<longrightarrow> \<not> permitted_action dp p c t)"
  using assms(2) run_authorized_proposal [OF assms(1), of a c t x]
  by (auto simp: fails_def split: option.splits if_splits)

lemma runs_delete_proposal:
  "runs W (delete_proposal cfg a) s x u s' x' \<Longrightarrow> look s' = (look s)(key_of cfg ''proposal'' a := None)"
  by (auto simp: runs_def run_delete_proposal)

lemma execute_fresh_fails:
  assumes typed: "well_typed (dp_settings dp) P (look s)"
    and fail: "fails W (execute_fresh dp body c t key rh) s x e s'"
  defines "v \<equiv> view_of (dp_settings dp) (look s)"
  shows "\<exists>now. check_refusal dp body c t v now \<in> {Some e, None} \<and>
    look s' = (if finds_expired dp body c t v now
               then (look s)(key_of (dp_settings dp) ''proposal'' (er_action_id body) := None) else look s)"
proof -
  let ?ok = "\<lambda>now. check_refusal dp body c t v now \<in> {Some e, None} \<and>
    look s' = (if finds_expired dp body c t v now
               then (look s)(key_of (dp_settings dp) ''proposal'' (er_action_id body) := None) else look s)"
  let ?ap = "er_approved_payload body"
  let ?after = "\<lambda>p. bind (lift_result (verify_payload_against_proposal p ?ap)) (\<lambda>_.
        bind (lift_result (validate_approved ad p ?ap)) (\<lambda>_.
        bind (log_event INFO ''execute_validated'' [] [(''action_id'', er_action_id body)]) (\<lambda>_.
        bind (lift_result (resolve_credentials ad t)) (\<lambda>cr.
        bind (precheck ad (sp_action p) cr) (\<lambda>_.
        bind perf_counter (\<lambda>started.
        bind (mutate ad (er_action_id body) (sp_action p) ?ap cr) (\<lambda>outcome.
        record_outcome dp body key rh started outcome)))))))"
  have after: "look s4 = look s2" if "fails W (?after p) s2 x2 e s4" for p s2 x2 s4
    using that
    by (auto simp: fails_bind fails_simps(3) runs_simps(3) fails_quiet(1-5)
        dest!: runs_quiet(2,3,4,5) fails_quiet(6,7))
  have checks: "verify_payload_against_proposal p ?ap = Inl e \<or> (\<exists>u. verify_payload_against_proposal p ?ap = Inr u) \<and>
      (validate_approved ad p ?ap = Inl e \<or> (\<exists>u. validate_approved ad p ?ap = Inr u) \<and>
        (resolve_credentials ad t = Inl e \<or> (\<exists>cr. resolve_credentials ad t = Inr cr)))"
    if "fails W (?after p) s2 x2 e s4" for p s2 x2 s4
    using that by (auto simp: fails_bind fails_simps(3) runs_simps(3) fails_quiet(3))
  from fail consider
    "fails W (authorized_proposal dp (er_action_id body) c t) s x e s'"
  | p s1 x1 now s2 x2 where "runs W (authorized_proposal dp (er_action_id body) c t) s x p s1 x1"
      "runs W utcnow s1 x1 now s2 x2"
      "fails W (if pa_expires_at (sp_action p) \<le> now
        then bind (delete_proposal (dp_settings dp) (er_action_id body)) (\<lambda>_. Raise (expired_action (er_action_id body)))
        else ?after p) s2 x2 e s'"
    by (auto simp: execute_fresh_def Let_def fails_bind [of W "authorized_proposal dp (er_action_id body) c t"]
        fails_bind [of W utcnow] fails_quiet)
  then show ?thesis
  proof cases
    case 1
    from fails_authorized_proposal [OF typed this] show ?thesis
      by (auto simp: check_refusal_def finds_expired_def v_def split: option.split)
  next
    case (2 p s1 x1 now s2 x2)
    note auth = runs_authorized_proposal [OF typed 2(1)] and clock = runs_quiet(1) [OF 2(2)]
    have "?ok now"
    proof (cases "pa_expires_at (sp_action p) \<le> now")
      case True
      with 2(3) auth clock show ?thesis
        by (auto simp: check_refusal_def finds_expired_def v_def fails_bind fails_simps(2) fails_quiet
            dest!: runs_delete_proposal)
    next
      case False
      with 2(3) have "fails W (?after p) s2 x2 e s'" by simp
      from after [OF this] checks [OF this] False auth clock show ?thesis
        by (auto simp: check_refusal_def finds_expired_def v_def)
    qed
    then show ?thesis by (rule exI [of ?ok])
  qed
qed

lemma correlation_id_never_fails [simp]: "result_of W current_correlation_id s x \<noteq> Inl e"
  using run_correlation_id(1) [of s x] by auto

lemma run_replay:
  "vw_idem v key = Some rec \<Longrightarrow>
   execute_outcome dp body c t key v v
     (result_of W (replay body (request_hash (er_action_id body) (er_approved_payload body)) rec) s x)"
  "look (state_after W (replay body rh rec) s x) = look s"
  by (auto simp: replay_def run_simps run_log_event run_correlation_id(2) execute_outcome_def Let_def
      key_reused_def replayed_response_def split: sum.split)

lemma execute_fresh_outcome:
  assumes typed: "well_typed (dp_settings dp) P (look s)"
    and "vw_idem (view_of (dp_settings dp) (look s)) key = None"
    and "rh = request_hash (er_action_id body) (er_approved_payload body)"
  shows "execute_outcome dp body c t key (view_of (dp_settings dp) (look s))
           (view_of (dp_settings dp) (look (state_after W (execute_fresh dp body c t key rh) s x)))
           (result_of W (execute_fresh dp body c t key rh) s x)"
proof (cases "result_of W (execute_fresh dp body c t key rh) s x")
  case (Inl e)
  from execute_fresh_fails [OF typed Inl [unfolded fails_iff]] obtain now where
    "check_refusal dp body c t (view_of (dp_settings dp) (look s)) now \<in> {Some e, None}"
    "look (state_after W (execute_fresh dp body c t key rh) s x) =
       (if finds_expired dp body c t (view_of (dp_settings dp) (look s)) now
        then (look s)(key_of (dp_settings dp) ''proposal'' (er_action_id body) := None) else look s)"
    by blast
  then show ?thesis
    using assms(2) unfolding execute_outcome_def Let_def assms(3) [symmetric] Inl
    by (auto simp: view_of_update intro!: exI [of _ now])
next
  case (Inr resp)
  from execute_fresh_succeeds [OF typed Inr [unfolded runs_iff]] obtain p now out cid tm where
    "executable dp body c t (view_of (dp_settings dp) (look s)) p now"
    "resp = executed_response body out cid"
    "look (state_after W (execute_fresh dp body c t key rh) s x) =
      (look s)(key_of (dp_settings dp) ''idem'' key \<mapsto>
          (VIdem \<lparr>id_request_hash = rh, id_response = resp, id_created_at = tm\<rparr>,
           Some (cf_idempotency_ttl_s (dp_settings dp))),
         key_of (dp_settings dp) ''proposal'' (er_action_id body) := None)"
    by blast
  then show ?thesis
    using assms(2) unfolding execute_outcome_def Let_def assms(3) [symmetric] Inr
    by (auto simp: view_of_update)
qed

lemma execute_action_unfold:
  assumes "well_typed (dp_settings dp) P (look s)"
    and rh: "rh = request_hash (er_action_id body) (er_approved_payload body)"
  shows "\<exists>s1 x1. look s1 = look s \<and>
     (let q = (case vw_idem (view_of (dp_settings dp) (look s)) key of
                 Some rec \<Rightarrow> replay body rh rec | None \<Rightarrow> execute_fresh dp body c t key rh) in
      result_of W (execute_action dp body c t key) s x = result_of W q s1 x1 \<and>
      state_after W (execute_action dp body c t key) s x = state_after W q s1 x1 \<and>
      mutations mut (trace_of W (execute_action dp body c t key) s x) = mutations mut (trace_of W q s1 x1))"
proof -
  let ?x0 = "x\<lparr>cx_action_id := Some (er_action_id body)\<rparr>"
  let ?s0 = "state_after W (log_event INFO ''execute_requested'' [] [(''action_id'', er_action_id body)]) s ?x0"
  have look0: "look ?s0 = look s" by (simp add: run_log_event)
  have typed0: "well_typed (dp_settings dp) P (look ?s0)" unfolding look0 by (rule assms(1))
  have quiet: "mutations mut (trace_of W (get_idempotency (dp_settings dp) key) s' x') = []"
    "mutations mut (trace_of W (log_event l e m f) s' x') = []" for s' x' l e m f
    by (intro mutations_none quiet_research [OF safe_in_research [OF safe_store_reads(5)]])
      (intro mutations_none quiet_silent)
  show ?thesis
    by (rule exI [of _ "state_after W (get_idempotency (dp_settings dp) key) ?s0 ?x0"], rule exI [of _ ?x0])
      (auto simp: execute_action_def Let_def rh run_simps run_log_event(1,3) quiet
        run_get_idempotency(1) [OF typed0] run_get_idempotency(2,3) look0 split: option.split)
qed

lemma execute_action_outcome:
  assumes "well_typed (dp_settings dp) P (look s)"
  shows "execute_outcome dp body c t key (view_of (dp_settings dp) (look s))
           (view_of (dp_settings dp) (look (state_after W (execute_action dp body c t key) s x)))
           (result_of W (execute_action dp body c t key) s x)"
proof -
  let ?rh = "request_hash (er_action_id body) (er_approved_payload body)"
  let ?v = "view_of (dp_settings dp) (look s)"
  from execute_action_unfold [OF assms refl, where body = body and key = key and c = c and t = t and x = x] obtain s1 x1 where look1: "look s1 = look s"
    and eq: "result_of W (execute_action dp body c t key) s x = result_of W (case vw_idem ?v key of
                 Some rec \<Rightarrow> replay body ?rh rec | None \<Rightarrow> execute_fresh dp body c t key ?rh) s1 x1"
      "state_after W (execute_action dp body c t key) s x = state_after W (case vw_idem ?v key of
                 Some rec \<Rightarrow> replay body ?rh rec | None \<Rightarrow> execute_fresh dp body c t key ?rh) s1 x1"
    by (auto simp: Let_def)
  have typed1: "well_typed (dp_settings dp) P (look s1)" unfolding look1 by (rule assms)
  show ?thesis
  proof (cases "vw_idem ?v key")
    case None
    with execute_fresh_outcome [OF typed1 _ refl, where key = key and body = body and c = c and t = t and x = x1] show ?thesis
      by (simp add: eq look1)
  next
    case (Some rec)
    with run_replay(1) [OF Some, where body = body and c = c and t = t and s = s1 and x = x1] show ?thesis by (simp add: eq look1 run_replay(2))
  qed
qed

text \<open>A mutation is only sent when everything has been checked.\<close>

lemma execute_action_guarded:
  assumes typed: "well_typed (dp_settings dp) P (look s)"
    and sent: "mutations mut (trace_of W (execute_action dp body c t key) s x) \<noteq> []"
  shows "vw_idem (view_of (dp_settings dp) (look s)) key = None \<and>
    (\<exists>p now cr s' pc s'' x''. executable dp body c t (view_of (dp_settings dp) (look s)) p now \<and>
       snd (W s' UtcNow) = RInt now \<and> resolve_credentials ad t = Inr cr \<and>
       result_of W (ad_check_preconditions ad (sp_action p) cr) s'' x'' = Inr pc \<and> pc_ok pc)"
proof -
  let ?rh = "request_hash (er_action_id body) (er_approved_payload body)"
  let ?v = "view_of (dp_settings dp) (look s)" let ?ap = "er_approved_payload body"
  let ?after = "\<lambda>p. bind (lift_result (verify_payload_against_proposal p ?ap)) (\<lambda>_.
        bind (lift_result (validate_approved ad p ?ap)) (\<lambda>_.
        bind (log_event INFO ''execute_validated'' [] [(''action_id'', er_action_id body)]) (\<lambda>_.
        bind (lift_result (resolve_credentials ad t)) (\<lambda>cr.
        bind (precheck ad (sp_action p) cr) (\<lambda>_.
        bind perf_counter (\<lambda>started.
        bind (mutate ad (er_action_id body) (sp_action p) ?ap cr) (\<lambda>outcome.
        record_outcome dp body key ?rh started outcome)))))))"
  from execute_action_unfold [OF typed refl, where body = body and key = key and c = c and t = t and x = x] obtain s1 x1 where look1: "look s1 = look s"
    and eq: "mutations mut (trace_of W (execute_action dp body c t key) s x) = mutations mut (trace_of W
       (case vw_idem ?v key of Some rec \<Rightarrow> replay body ?rh rec | None \<Rightarrow> execute_fresh dp body c t key ?rh) s1 x1)"
    by (auto simp: Let_def)
  have typed1: "well_typed (dp_settings dp) P (look s1)" unfolding look1 by (rule typed)
  have new: "vw_idem ?v key = None"
  proof (rule ccontr)
    have "mutations mut (trace_of W (replay body ?rh rec) s1 x1) = []" for rec
      by (rule mutations_none [OF quiet_research [OF safe_replay]])
    moreover assume "vw_idem ?v key \<noteq> None"
    ultimately show False using sent eq by auto
  qed
  with sent eq have sent1: "mutations mut (trace_of W (execute_fresh dp body c t key ?rh) s1 x1) \<noteq> []" by simp
  note step = mutations_bind [rotated]
  from sent1 [unfolded execute_fresh_def Let_def dp_ad]
  obtain p s2 x2 where auth: "runs W (authorized_proposal dp (er_action_id body) c t) s1 x1 p s2 x2"
    and "mutations mut (trace_of W (bind utcnow (\<lambda>now. if pa_expires_at (sp_action p) \<le> now
        then bind (delete_proposal (dp_settings dp) (er_action_id body)) (\<lambda>_. Raise (expired_action (er_action_id body)))
        else ?after p)) s2 x2) \<noteq> []"
    by (blast dest: step intro: quiet_research [OF safe_authorized_proposal])
  then obtain now s3 x3 where clock: "runs W utcnow s2 x2 now s3 x3"
    and rest: "mutations mut (trace_of W (if pa_expires_at (sp_action p) \<le> now
        then bind (delete_proposal (dp_settings dp) (er_action_id body)) (\<lambda>_. Raise (expired_action (er_action_id body)))
        else ?after p) s3 x3) \<noteq> []"
    by (blast dest: step intro: quiet_silent)
  have fresh: "\<not> pa_expires_at (sp_action p) \<le> now"
  proof
    assume "pa_expires_at (sp_action p) \<le> now"
    with rest show False by (auto dest!: step simp: quiet_delete)
  qed
  with rest have "mutations mut (trace_of W (?after p) s3 x3) \<noteq> []" by simp
  then obtain cr s4 x4 s5 x5 where
    pay: "verify_payload_against_proposal p ?ap = Inr ()" "validate_approved ad p ?ap = Inr ()"
    and cr: "resolve_credentials ad t = Inr cr"
    and pre: "runs W (precheck ad (sp_action p) cr) s4 x4 () s5 x5"
    by (auto dest!: mutations_bind [OF at_most_lift_result] mutations_bind [OF quiet_silent(3)]
        mutations_bind [OF quiet_precheck] simp: runs_simps)
  have "snd (W s2 UtcNow) = RInt now"
    using clock by (auto simp: runs_def utcnow_def bad_reply_def split: reply.splits)
  moreover have "executable dp body c t ?v p now"
    using runs_authorized_proposal [OF typed1 auth] fresh pay
    by (simp add: executable_def verify_payload_Inr validate_approved_Inr look1)
  ultimately show ?thesis using new cr runs_quiet(4) [OF pre] by blast
qed

text \<open>An action that is not the caller's to execute, or not there, is refused before anything is sent.\<close>

lemma execute_action_refused:
  assumes typed: "well_typed (dp_settings dp) P (look s)"
    and "vw_idem (view_of (dp_settings dp) (look s)) key = None"
    and "\<nexists>p. vw_proposal (view_of (dp_settings dp) (look s)) (er_action_id body) = Some p \<and> permitted_action dp p c t"
  shows "result_of W (execute_action dp body c t key) s x = Inl (expired_action (er_action_id body))"
    and "look (state_after W (execute_action dp body c t key) s x) = look s"
    and "mutations mut (trace_of W (execute_action dp body c t key) s x) = []"
proof -
  from execute_action_unfold [OF typed refl, where body = body and key = key and c = c and t = t and x = x]
  obtain s1 x1 rh where look1: "look s1 = look s"
    and eq: "result_of W (execute_action dp body c t key) s x = result_of W (execute_fresh dp body c t key rh) s1 x1"
      "state_after W (execute_action dp body c t key) s x = state_after W (execute_fresh dp body c t key rh) s1 x1"
    using assms(2) by (auto simp: Let_def)
  have typed1: "well_typed (dp_settings dp) P (look s1)" unfolding look1 by (rule typed)
  have "result_of W (authorized_proposal dp (er_action_id body) c t) s1 x1 = Inl (expired_action (er_action_id body))"
    using assms(3) by (auto simp: run_authorized_proposal(1) [OF typed1] look1 split: option.split)
  then show "result_of W (execute_action dp body c t key) s x = Inl (expired_action (er_action_id body))"
    "look (state_after W (execute_action dp body c t key) s x) = look s"
    by (simp_all add: eq execute_fresh_def Let_def run_simps run_authorized_proposal(2) [OF typed1] look1)
  show "mutations mut (trace_of W (execute_action dp body c t key) s x) = []"
    using execute_action_guarded [OF typed, of body c t key x] assms(3)
    by (auto simp: executable_def)
qed

text \<open>After a success the action is gone and the key answers what it answered.\<close>

lemma execute_action_again:
  assumes typed: "well_typed (dp_settings dp) P (look s)"
    and new: "vw_idem (view_of (dp_settings dp) (look s)) key = None"
    and ok: "result_of W (execute_action dp body c t key) s x = Inr resp"
    and look2: "look s2 = look (state_after W (execute_action dp body c t key) s x)"
    and typed2: "well_typed (dp_settings dp) P (look s2)"
  shows "\<exists>cid. result_of W (execute_action dp body c2 t2 key) s2 x2 = Inr (replayed_response resp cid)"
    and "mutations mut (trace_of W (execute_action dp body c2 t2 key) s2 x2) = []"
    and "er_action_id body' = er_action_id body \<Longrightarrow>
         vw_idem (view_of (dp_settings dp) (look s2)) key' = None \<Longrightarrow>
         result_of W (execute_action dp body' c2 t2 key') s2 x2 = Inl (expired_action (er_action_id body)) \<and>
         mutations mut (trace_of W (execute_action dp body' c2 t2 key') s2 x2) = []"
proof -
  let ?v2 = "view_of (dp_settings dp) (look s2)"
  from execute_action_outcome [OF typed, of body c t key x] obtain tm where
    idem: "vw_idem ?v2 key = Some \<lparr>id_request_hash = request_hash (er_action_id body) (er_approved_payload body),
            id_response = resp, id_created_at = tm\<rparr>"
    and gone: "vw_proposal ?v2 (er_action_id body) = None"
    using new ok by (auto simp: execute_outcome_def Let_def look2)
  from execute_action_outcome [OF typed2, of body c2 t2 key x2] idem
  show "\<exists>cid. result_of W (execute_action dp body c2 t2 key) s2 x2 = Inr (replayed_response resp cid)"
    by (simp add: execute_outcome_def Let_def)
  from execute_action_guarded [OF typed2, of body c2 t2 key x2] idem
  show "mutations mut (trace_of W (execute_action dp body c2 t2 key) s2 x2) = []" by auto
  assume "er_action_id body' = er_action_id body" "vw_idem ?v2 key' = None"
  with gone execute_action_refused [OF typed2, of key' body' c2 t2 x2]
  show "result_of W (execute_action dp body' c2 t2 key') s2 x2 = Inl (expired_action (er_action_id body)) \<and>
         mutations mut (trace_of W (execute_action dp body' c2 t2 key') s2 x2) = []"
    by auto
qed

lemma run_get_action:
  assumes "well_typed (dp_settings dp) P (look s)"
  shows "look (state_after W (get_action dp a c t) s x) = look s"
    and "result_of W (get_action dp a c t) s x = Inr r \<longleftrightarrow>
      (\<exists>p cid. vw_proposal (view_of (dp_settings dp) (look s)) a = Some p \<and> permitted_action dp p c t \<and>
         result_of W current_correlation_id (state_after W (authorized_proposal dp a c t) s x)
           (ctx_after W (authorized_proposal dp a c t) s x) = Inr cid \<and>
         r = \<lparr>as_action_id = a, as_status = ''proposed'', as_expires_at = Some (pa_expires_at (sp_action p)),
              as_action = Some (sp_action p), as_correlation_id = cid\<rparr>)"
  using run_authorized_proposal [OF assms, of a c t x]
  by (auto simp: get_action_def run_simps run_correlation_id(2) split: option.splits sum.splits)

lemma run_reject_action:
  assumes "well_typed (dp_settings dp) P (look s)"
  defines "v \<equiv> view_of (dp_settings dp) (look s)"
  shows "vw_proposal v a = Some p \<Longrightarrow> permitted_action dp p c t \<Longrightarrow>
           (\<exists>r. result_of W (reject_action dp a c t) s x = Inr r) \<and>
           look (state_after W (reject_action dp a c t) s x) =
             (look s)(key_of (dp_settings dp) ''proposal'' a := None)"
    and "\<nexists>p. vw_proposal v a = Some p \<and> permitted_action dp p c t \<Longrightarrow>
           result_of W (reject_action dp a c t) s x = Inl (expired_action a) \<and>
           look (state_after W (reject_action dp a c t) s x) = look s"
  using run_authorized_proposal [OF assms(1), of a c t x] unfolding v_def
  by (auto simp: reject_action_def run_simps run_correlation_id(2) run_delete_proposal run_log_event
      split: option.splits sum.splits)

end

section \<open>The model's own instance\<close>

lemma jira_domain: "domain_adapter (jira_adapter base) jira_mutates"
  by (rule jira.domain_adapter_axioms)

interpretation demo_exec: execution mem_world mem_keys "jira_adapter ''https://jira''" jira_mutates demo_deps
  by (intro execution.intro platform_mem jira_domain execution_axioms.intro) simp_all

text \<open>The payload check, as a relation between the two payloads.\<close>

lemma unexpected_fields_Nil:
  "unexpected_fields action approved = [] \<longleftrightarrow>
     (\<forall>k. k \<notin> set (pa_editable_fields action) \<longrightarrow> pyeq (dget k (pa_payload action)) (dget k approved))"
proof -
  have "pyeq (dget k (pa_payload action)) (dget k approved)"
    if "k \<notin> fst ` set (pa_payload action)" "k \<notin> fst ` set approved" for k
  proof -
    have "map_of (pa_payload action) k = None" "map_of approved k = None"
      using that by (simp_all add: map_of_eq_None_iff)
    then show ?thesis by (simp add: dget_def)
  qed
  moreover have "unexpected_fields action approved = [] \<longleftrightarrow>
      (\<forall>k \<in> fst ` set (pa_payload action) \<union> fst ` set approved. k \<notin> set (pa_editable_fields action) \<longrightarrow>
         pyeq (dget k (pa_payload action)) (dget k approved))"
  proof -
    have "sort xs = [] \<longleftrightarrow> xs = []" for xs :: "string list" by (metis length_0_conv length_sort)
    then show ?thesis unfolding unexpected_fields_def by (auto simp: filter_empty_conv)
  qed
  ultimately show ?thesis by blast
qed

text \<open>A run of it: an approved update, a live issue that still has the expected status.\<close>

definition demo_request :: execute_request where
  "demo_request = \<lparr>er_action_id = ''a1'', er_session_id = ''s1'',
     er_approved_payload = pa_payload demo_action, er_approved_by = ''ann'', er_approved_at = 0\<rparr>"

definition demo_proposal :: stored_proposal where
  "demo_proposal = \<lparr>sp_action = demo_action, sp_job_id = ''j1'', sp_session_id = ''s1'',
     sp_consumer_id = ''c1'', sp_principal_hash = presented_hash demo_deps (Some ''my-pat''),
     sp_created_at = 0\<rparr>"

definition base_store :: mem where
  "base_store = mem_empty\<lparr>
     mem_keys := [key_of default_settings ''proposal'' ''a1'' \<mapsto> (VProposal demo_proposal, Some 1800)]\<rparr>"

definition proposal_store :: mem where
  "proposal_store = base_store\<lparr>mem_http := [RHttp demo_issue_resp, RHttp demo_done_resp]\<rparr>"

lemma base_store_simps [simp]:
  "mem_keys base_store = [key_of default_settings ''proposal'' ''a1'' \<mapsto> (VProposal demo_proposal, Some 1800)]"
  "mem_clock base_store = 0"
  by (simp_all add: base_store_def mem_empty_def)

lemma demo_payload_unchanged: "unexpected_fields demo_action (pa_payload demo_action) = []"
  unfolding unexpected_fields_Nil by (auto simp: demo_action_def dget_def)

lemma demo_payload_valid: "validate_approved (jira_adapter base) demo_proposal (pa_payload demo_action) = Inr ()"
  by (simp add: validate_approved_def demo_proposal_def demo_action_def validate_payload_def jira_self_def
      jira_schemas_def update_issue_schema_def schema_errors_def field_failure_def)

lemma proposal_store_typed: "well_typed default_settings (\<lambda>_. True) (mem_keys proposal_store)"
  by (auto simp: well_typed_def proposal_store_def demo_proposal_def demo_action_def)

lemma demo_fields [simp]:
  "sp_action demo_proposal = demo_action" "sp_job_id demo_proposal = ''j1''"
  "sp_principal_hash demo_proposal = presented_hash demo_deps (Some ''my-pat'')"
  "er_action_id demo_request = ''a1''" "er_approved_payload demo_request = pa_payload demo_action"
  "pa_expires_at demo_action = 1800000000" "pa_correlation_id demo_action = ''cid''"
  by (simp_all add: demo_proposal_def demo_request_def demo_action_def)

lemma demo_resolve [simp]:
  "resolve_credentials (jira_adapter base) t = Inr \<lparr>cr_user_token = t, cr_service_credential = None\<rparr>"
  by (simp add: resolve_credentials_def)

lemma proposal_store_simps [simp]:
  "mem_keys proposal_store = [key_of default_settings ''proposal'' ''a1'' \<mapsto> (VProposal demo_proposal, Some 1800)]"
  "mem_clock proposal_store = 0"
  by (simp_all add: proposal_store_def)

definition done_store :: mem where
  "done_store = base_store\<lparr>mem_http := []\<rparr>"

lemma demo_precheck:
  assumes "cx_correlation_id x = Some cid"
  shows "runs mem_world (precheck (jira_adapter base) demo_action cr) proposal_store x ()
           (base_store\<lparr>mem_http := [RHttp demo_done_resp]\<rparr>) x"
  by (simp add: runs_def precheck_def run_simps proposal_store_def run_demo_check [OF assms])

lemma demo_mutate:
  assumes "cx_correlation_id x = Some cid"
  shows "\<exists>out. runs mem_world (mutate (jira_adapter base) a demo_action (pa_payload demo_action) cr)
           (base_store\<lparr>mem_http := [RHttp demo_done_resp]\<rparr>) x out done_store x"
  by (simp add: runs_def mutate_def run_simps done_store_def run_demo_execute [OF assms])

lemma mutations_of_http_calls: "mutations mut tr = filter (\<lambda>(c, r). mutating mut c) (http_calls tr)"
  by (induction tr) (auto simp: mutations_def http_calls_def dest: mutating_is_http)

lemma jira_mutates_intended [simp]: "jira_mutates (intended_request base a p h)"
  by (simp add: intended_request_def)

lemma jira_execute_mutates:
  assumes "result_of W (jira_execute jira_self base a p cr) s x = Inr out"
  shows "mutations jira_mutates (trace_of W (jira_execute jira_self base a p cr) s x) \<noteq> []"
  using jira_execute_sent [OF assms]
  by (auto simp: mutations_of_http_calls)

lemma demo_mutate_sent:
  assumes "cx_correlation_id x = Some cid"
  shows "mutations jira_mutates (trace_of mem_world (mutate (jira_adapter base) a demo_action (pa_payload demo_action) cr)
           (base_store\<lparr>mem_http := [RHttp demo_done_resp]\<rparr>) x) \<noteq> []"
proof -
  have ad: "ad_execute (jira_adapter base) = jira_execute jira_self (rstrip_char (CHR ''/'') base)"
    by (simp add: jira_adapter_def Let_def)
  show ?thesis
    using jira_execute_mutates [OF run_demo_execute(1) [OF assms, where base = base, unfolded ad]]
    by (simp add: mutate_def ad run_simps)
qed

text \<open>The run succeeds and sends its mutation.\<close>

lemma proposal_store_typed': "well_typed (dp_settings demo_deps) (\<lambda>_. True) (mem_keys proposal_store)"
  by (simp only: demo_deps_simps proposal_store_typed)

lemma demo_execution:
  shows "\<exists>resp. result_of mem_world (execute_action demo_deps demo_request ''c1'' (Some ''my-pat'') ''key-1'')
           proposal_store empty_ctx = Inr resp"
    and "mutations jira_mutates (trace_of mem_world
           (execute_action demo_deps demo_request ''c1'' (Some ''my-pat'') ''key-1'') proposal_store empty_ctx) \<noteq> []"
proof -
  let ?x = "\<lparr>cx_correlation_id = Some ''cid'', cx_from_header = False, cx_request_id = None,
             cx_job_id = Some ''j1'', cx_action_id = Some ''a1'', cx_consumer_id = None\<rparr>"
  let ?cr = "\<lparr>cr_user_token = Some ''my-pat'', cr_service_credential = None\<rparr>"
  have bound: "cx_correlation_id ?x = Some ''cid''" by simp
  have auth: "runs mem_world (authorized_proposal demo_deps ''a1'' ''c1'' (Some ''my-pat'')) proposal_store
      (empty_ctx\<lparr>cx_action_id := Some ''a1''\<rparr>) demo_proposal proposal_store ?x"
    by (simp add: runs_def authorized_proposal_def get_proposal_def call_defs run_simps empty_ctx_def)
  obtain out where mut: "runs mem_world (mutate (jira_adapter ''https://jira'') ''a1'' demo_action
      (pa_payload demo_action) ?cr) (base_store\<lparr>mem_http := [RHttp demo_done_resp]\<rparr>) ?x out done_store ?x"
    using demo_mutate [OF bound] by blast
  have pay: "verify_payload_against_proposal demo_proposal (pa_payload demo_action) = Inr ()"
    by (simp add: verify_payload_Inr demo_payload_unchanged)
  have rec: "\<exists>resp. result_of mem_world (record_outcome demo_deps demo_request ''key-1'' rh st out) done_store ?x = Inr resp"
    for rh st
    using demo_exec.run_record_outcome by blast
  note facts = auth mut demo_precheck [OF bound, of "''https://jira''" ?cr] pay
  show "\<exists>resp. result_of mem_world (execute_action demo_deps demo_request ''c1'' (Some ''my-pat'') ''key-1'')
           proposal_store empty_ctx = Inr resp"
    using facts rec
    by (simp add: execute_action_def execute_fresh_def get_idempotency_def call_defs run_simps
        log_event_def Let_def runs_def demo_payload_valid)
  show "mutations jira_mutates (trace_of mem_world
           (execute_action demo_deps demo_request ''c1'' (Some ''my-pat'') ''key-1'') proposal_store empty_ctx) \<noteq> []"
    using facts demo_mutate_sent [OF bound, of "''https://jira''" "''a1''" ?cr]
    by (simp add: execute_action_def execute_fresh_def get_idempotency_def call_defs run_simps
        log_event_def Let_def runs_def demo_payload_valid)
qed

section \<open>Properties\<close>

text \<open>
  Exactly one mutation. One call of \<open>/execute\<close> sends at most one request that changes the target
  system, whatever Redis, the clock, the vault and the target answer, for every adapter that keeps the
  contract of the base class.
\<close>

theorem execute_mutates_at_most_once:
  assumes "domain_adapter (dp_adapter dp) mut"
  shows "length (mutations mut (trace_of W (execute_action dp body c t key) s x)) \<le> 1"
  using at_most_trace [OF domain_adapter.execute_action_once [OF assms refl], of W body c t key s x]
  by (simp add: mutations_def)

theorem execute_mutates_at_most_once_witness:
  "length (mutations jira_mutates (trace_of mem_world
     (execute_action demo_deps demo_request ''c1'' (Some ''my-pat'') ''key-1'') mem_empty empty_ctx)) \<le> 1"
  by (rule execute_mutates_at_most_once) (simp add: jira_domain)

text \<open>
  C1: nothing is sent unless everything has been checked. If a call of \<open>/execute\<close> sends a mutating
  request then its idempotency key was unused, the proposal was in the store, belonged to the caller and
  had not expired by the clock, the approved payload equals the proposed one on every field that is not
  editable and satisfies the schema of the action, and the live precondition check had said yes.
\<close>

theorem mutation_is_guarded:
  assumes "execution W look ad mut dp" "well_typed (dp_settings dp) P (look s)"
    and "mutations mut (trace_of W (execute_action dp body c t key) s x) \<noteq> []"
  shows "vw_idem (view_of (dp_settings dp) (look s)) key = None \<and>
    (\<exists>p now cr s' pc s'' x''. executable dp body c t (view_of (dp_settings dp) (look s)) p now \<and>
       snd (W s' UtcNow) = RInt now \<and> resolve_credentials ad t = Inr cr \<and>
       result_of W (ad_check_preconditions ad (sp_action p) cr) s'' x'' = Inr pc \<and> pc_ok pc)"
  using assms by (rule execution.execute_action_guarded)

theorem mutation_is_guarded_witness:
  "\<exists>p now. executable demo_deps demo_request ''c1'' (Some ''my-pat'')
       (view_of default_settings (mem_keys proposal_store)) p now"
  using mutation_is_guarded [OF demo_exec.execution_axioms _ demo_execution(2), of "\<lambda>_. True"] proposal_store_typed
  by auto



text \<open>
  C28: the payload check is exactly this: the approved payload and the proposal agree, in the sense of
  Python's equality, on every top-level field that the proposal does not declare editable; a field that
  is missing counts as null.
\<close>

theorem payload_check_iff:
  "verify_payload_against_proposal stored approved = Inr () \<longleftrightarrow>
     (\<forall>k. k \<notin> set (pa_editable_fields (sp_action stored)) \<longrightarrow>
        pyeq (dget k (pa_payload (sp_action stored))) (dget k approved))"
  unfolding verify_payload_Inr by (rule unexpected_fields_Nil)

theorem payload_check_iff_witness:
  "verify_payload_against_proposal demo_proposal [(''issue_key'', JStr ''P-2'')] \<noteq> Inr ()"
  unfolding payload_check_iff
  by (auto simp: demo_action_def dget_def intro!: exI [of _ "''issue_key''"])

text \<open>
  C14: once executed, never again. After a success, whatever the state the key space is found in again
  unchanged, the same request under the same key answers the recorded response, marked as a replay, and
  sends nothing; the same action under any other unused key, with whatever payload and by whatever
  caller, is refused as expired and sends nothing.
\<close>

theorem executed_action_is_spent:
  assumes "execution W look ad mut dp" "well_typed (dp_settings dp) P (look s)"
    and "vw_idem (view_of (dp_settings dp) (look s)) key = None"
    and "result_of W (execute_action dp body c t key) s x = Inr resp"
    and "look s' = look (state_after W (execute_action dp body c t key) s x)"
    and "well_typed (dp_settings dp) P (look s')"
    and "er_action_id body' = er_action_id body" "vw_idem (view_of (dp_settings dp) (look s')) key' = None"
  shows "(\<exists>cid. result_of W (execute_action dp body c' t' key) s' x' = Inr (replayed_response resp cid)) \<and>
         mutations mut (trace_of W (execute_action dp body c' t' key) s' x') = [] \<and>
         result_of W (execute_action dp body' c' t' key') s' x' = Inl (expired_action (er_action_id body)) \<and>
         mutations mut (trace_of W (execute_action dp body' c' t' key') s' x') = []"
  using execution.execute_action_again [OF assms(1-6)] assms(7,8) by blast

theorem executed_action_is_spent_witness:
  "let after = state_after mem_world (execute_action demo_deps demo_request ''c1'' (Some ''my-pat'') ''key-1'')
                 proposal_store empty_ctx in
   result_of mem_world (execute_action demo_deps demo_request ''c1'' (Some ''my-pat'') ''key-2'') after empty_ctx =
     Inl (expired_action ''a1'')"
proof -
  let ?run = "execute_action demo_deps demo_request ''c1'' (Some ''my-pat'') ''key-1''"
  let ?after = "state_after mem_world ?run proposal_store empty_ctx"
  obtain resp where ok: "result_of mem_world ?run proposal_store empty_ctx = Inr resp"
    using demo_execution(1) by blast
  have new: "vw_idem (view_of (dp_settings demo_deps) (mem_keys proposal_store)) k = None" for k
    by (simp add: view_of_def)
  have "settings_ok (dp_settings demo_deps)" by simp
  then have "safe (\<lambda>c. store_cmd (dp_settings demo_deps) (\<lambda>_. True) c \<or> \<not> writes c) (\<lambda>_. True) (\<lambda>_. True) ?run"
    by (intro safe_mono [OF safe_execute_action [where P = "\<lambda>_. True" and mut = jira_mutates]] writes_in_execute)
      (simp_all add: jira_domain)
  then have typed2: "well_typed (dp_settings demo_deps) (\<lambda>_. True) (mem_keys ?after)"
    using proposal_store_typed' by (rule mem.well_typed_after)
  have new2: "vw_idem (view_of (dp_settings demo_deps) (mem_keys ?after)) ''key-2'' = None"
    using demo_exec.execute_action_outcome [OF proposal_store_typed', of demo_request "''c1''" "Some ''my-pat''" "''key-1''"
        empty_ctx] new ok
    by (auto simp: execute_outcome_def Let_def)
  show ?thesis
    using executed_action_is_spent [OF demo_exec.execution_axioms, where s = proposal_store and s' = ?after
        and key' = "''key-2''" and body = demo_request and body' = demo_request and key = "''key-1''"
        and x = empty_ctx and P = "\<lambda>_. True" and c = "''c1''" and t = "Some ''my-pat''" and c' = "''c1''"
        and t' = "Some ''my-pat''" and x' = empty_ctx, OF proposal_store_typed' new ok _ typed2 _ new2]
    by (simp add: Let_def)
qed

text \<open>
  A proposal that belongs to somebody else does not exist for the caller. If no proposal of that id
  is the caller's, execution under a new key answers exactly what it answers for an unknown id, sends
  nothing to the target and leaves the store alone.
\<close>

theorem foreign_proposal_is_invisible:
  assumes "execution W look ad mut dp" "well_typed (dp_settings dp) P (look s)"
    and "vw_idem (view_of (dp_settings dp) (look s)) key = None"
    and "\<nexists>p. vw_proposal (view_of (dp_settings dp) (look s)) (er_action_id body) = Some p \<and> permitted_action dp p c t"
  shows "result_of W (execute_action dp body c t key) s x = Inl (expired_action (er_action_id body)) \<and>
         look (state_after W (execute_action dp body c t key) s x) = look s \<and>
         mutations mut (trace_of W (execute_action dp body c t key) s x) = []"
  using execution.execute_action_refused [OF assms] by blast

theorem foreign_proposal_is_invisible_witness:
  "result_of mem_world (execute_action demo_deps demo_request ''c1'' (Some ''my-pat'') ''key-1'') mem_empty empty_ctx =
     Inl (expired_action ''a1'')"
  using foreign_proposal_is_invisible [OF demo_exec.execution_axioms, of "\<lambda>_. True" mem_empty "''key-1''" demo_request
      "''c1''" "Some ''my-pat''" empty_ctx]
  by (simp add: mem_empty_def view_of_def)

text \<open>
  C29: rejecting. The caller who may execute an action may reject it: the proposal, and nothing else, is
  removed. To anybody else it is the unknown action, and nothing changes.
\<close>

theorem reject_removes_own_proposal:
  assumes "execution W look ad mut dp" "well_typed (dp_settings dp) P (look s)"
  shows "if \<exists>p. vw_proposal (view_of (dp_settings dp) (look s)) a = Some p \<and> permitted_action dp p c t
         then (\<exists>r. result_of W (reject_action dp a c t) s x = Inr r) \<and>
              look (state_after W (reject_action dp a c t) s x) = (look s)(key_of (dp_settings dp) ''proposal'' a := None)
         else result_of W (reject_action dp a c t) s x = Inl (expired_action a) \<and>
              look (state_after W (reject_action dp a c t) s x) = look s"
  using execution.run_reject_action [OF assms, where a = a and c = c and t = t and x = x] by auto

theorem reject_removes_own_proposal_witness:
  "mem_keys (state_after mem_world (reject_action demo_deps ''a1'' ''c1'' (Some ''my-pat'')) proposal_store empty_ctx)
     (key_of default_settings ''proposal'' ''a1'') = None"
  using reject_removes_own_proposal [OF demo_exec.execution_axioms proposal_store_typed', of "''a1''" "''c1''"
      "Some ''my-pat''" empty_ctx]
  by (simp add: view_of_def permitted_action_def)

text \<open>
  A replay is not authorized. Whoever presents a used idempotency key with the same action and
  payload gets the recorded response, with any token and as any consumer: the check of the key comes
  before the check of the proposal, and the record does not name a principal.
\<close>

theorem replay_ignores_caller:
  assumes "execution W look ad mut dp" "well_typed (dp_settings dp) P (look s)"
    and "vw_idem (view_of (dp_settings dp) (look s)) key = Some rec"
    and "id_request_hash rec = request_hash (er_action_id body) (er_approved_payload body)"
  shows "\<forall>c t. \<exists>cid. result_of W (execute_action dp body c t key) s x = Inr (replayed_response (id_response rec) cid)"
  using execution.execute_action_outcome [OF assms(1,2), of body _ _ key x] assms(3,4)
  by (simp add: execute_outcome_def Let_def)

definition replay_store :: mem where
  "replay_store = mem_empty\<lparr>mem_keys := [key_of default_settings ''idem'' ''key-1'' \<mapsto>
     (VIdem \<lparr>id_request_hash = request_hash ''a1'' (pa_payload demo_action),
             id_response = executed_response demo_request \<lparr>xr_result = [], xr_resource_url = None\<rparr> ''cid'',
             id_created_at = 0\<rparr>, Some 86400)]\<rparr>"

theorem replay_ignores_caller_witness:
  "\<exists>cid. result_of mem_world (execute_action demo_deps demo_request ''another consumer'' (Some ''another pat'') ''key-1'')
     replay_store empty_ctx = Inr (replayed_response
        (executed_response demo_request \<lparr>xr_result = [], xr_resource_url = None\<rparr> ''cid'') cid)"
proof -
  have typed: "well_typed (dp_settings demo_deps) (\<lambda>_. True) (mem_keys replay_store)"
    by (auto simp: well_typed_def replay_store_def mem_empty_def)
  have idem: "vw_idem (view_of (dp_settings demo_deps) (mem_keys replay_store)) ''key-1'' =
      Some \<lparr>id_request_hash = request_hash ''a1'' (pa_payload demo_action),
             id_response = executed_response demo_request \<lparr>xr_result = [], xr_resource_url = None\<rparr> ''cid'',
             id_created_at = 0\<rparr>"
    by (simp add: replay_store_def view_of_def)
  show ?thesis
    using replay_ignores_caller [OF demo_exec.execution_axioms typed idem, of demo_request empty_ctx] by simp
qed

end
