(* ===== verification/Runner_Parse.thy ===== *)
theory Runner_Parse
  imports Adapter_Base
begin

text \<open>
  The reading half of \<^verbatim>\<open>app/worker/runner.py\<close>: the task text the agent is given
  (\<open>_render_task\<close>), what is read off the states it streams (\<open>_msg_attr\<close>, \<open>_last_tool_name\<close>,
  \<open>_message_text\<close>) and the tolerant parse of its final message (\<open>_FENCED_JSON\<close>,
  \<open>_parse_agent_output\<close>).

  The regular expression is a function, \<open>match_fenced\<close>; \<open>fenced\<close> says declaratively which texts
  the pattern matches, and \<open>match_fenced_shortest\<close> that the function returns the match a
  backtracking engine returns, the one with the shortest body.
\<close>

section \<open>Messages\<close>

text \<open>A message is a dict or an object with attributes; a state carries the list of messages.\<close>

datatype message = DictMessage dict | MessageObject dict

type_synonym agent_state = "message list option"

definition msg_attr :: "message \<Rightarrow> string \<Rightarrow> json" where
  "msg_attr m name = (case m of DictMessage d \<Rightarrow> dget name d | MessageObject attrs \<Rightarrow> dget name attrs)"

text \<open>\<open>xs[-1]\<close> of an untyped value that is true.\<close>

definition py_last :: "json \<Rightarrow> exn + json" where
  "py_last v =
     (case v of
        JArr xs \<Rightarrow> (if xs = [] then Inl (OtherError ''IndexError'') else Inr (last xs))
      | JStr s \<Rightarrow> (if s = [] then Inl (OtherError ''IndexError'') else Inr (JStr [last s]))
      | JObj d \<Rightarrow> Inl (KeyError ''-1'')
      | _ \<Rightarrow> Inl (TypeError ''not subscriptable''))"

definition last_tool_name :: "agent_state \<Rightarrow> exn + json" where
  "last_tool_name state =
     (case state of
        None \<Rightarrow> Inr JNull
      | Some messages \<Rightarrow>
          if messages = [] then Inr JNull
          else
            let tool_calls = msg_attr (last messages) ''tool_calls'' in
            if truthy tool_calls
            then sbind (py_last tool_calls) (\<lambda>call.
                   case call of JObj d \<Rightarrow> Inr (dget ''name'' d) | _ \<Rightarrow> Inr JNull)
            else Inr JNull)"

text \<open>The texts of the content blocks, joined; a text that is no string is a \<open>TypeError\<close>.\<close>

fun block_texts :: "json list \<Rightarrow> exn + string" where
  "block_texts [] = Inr []"
| "block_texts (JObj d # bs) =
     (if dget ''type'' d = JStr ''text''
      then (case map_of d ''text'' of
              None \<Rightarrow> block_texts bs
            | Some (JStr t) \<Rightarrow> sbind (block_texts bs) (\<lambda>u. Inr (t @ u))
            | Some _ \<Rightarrow> Inl (TypeError ''expected str instance''))
      else block_texts bs)"
| "block_texts (_ # bs) = block_texts bs"

definition message_text :: "message \<Rightarrow> exn + string" where
  "message_text m =
     (let content = msg_attr m ''content'' in
      case content of
        JStr s \<Rightarrow> Inr s
      | JArr bs \<Rightarrow> block_texts bs
      | _ \<Rightarrow> Inr (if truthy content then py_str content else []))"

definition render_task :: "job_record \<Rightarrow> string" where
  "render_task record =
     (let part = (\<lambda>label v. case v of
            None \<Rightarrow> [] | Some d \<Rightarrow> if d = [] then [] else [label @ dumps_default (JObj d)]) in
      join [CHR ''\<newline>'', CHR ''\<newline>'']
        ([''Task: '' @ job_task record] @ part ''Context: '' (job_context record)
          @ part ''Constraints: '' (job_constraints record)))"

section \<open>The fenced block\<close>

definition fence :: string where
  "fence = replicate 3 (CHR 0x60)"

abbreviation spaces :: "string \<Rightarrow> bool" where
  "spaces w \<equiv> \<forall>c \<in> set w. is_space c"

text \<open>\<open>\}\s*```\<close> here: the rest after it.\<close>

definition closes :: "string \<Rightarrow> string option" where
  "closes s =
     (case s of
        [] \<Rightarrow> None
      | c # r \<Rightarrow> if c = CHR ''}'' \<and> prefix fence (dropWhile is_space r)
                 then Some (drop 3 (dropWhile is_space r)) else None)"

text \<open>\<open>.*?\}\s*```\<close>: the shortest body up to a closing brace, and the rest.\<close>

fun lazy_body :: "string \<Rightarrow> (string \<times> string) option" where
  "lazy_body [] = None"
| "lazy_body (c # s) =
     (case closes (c # s) of
        Some r \<Rightarrow> Some ([c], r)
      | None \<Rightarrow> map_option (\<lambda>(b, r). (c # b, r)) (lazy_body s))"

text \<open>The whole pattern, at this position: the group and the rest after the match.\<close>

definition match_fenced :: "string \<Rightarrow> (string \<times> string) option" where
  "match_fenced s =
     (if \<not> prefix fence s then None
      else
        let s1 = drop 3 s;
            s2 = (if prefix ''json'' s1 then drop 4 s1 else s1) in
        case dropWhile is_space s2 of
          [] \<Rightarrow> None
        | c # r \<Rightarrow> if c = CHR ''{'' then map_option (\<lambda>(b, rest). (c # b, rest)) (lazy_body r) else None)"

lemma fence_cons: "fence = CHR 0x60 # CHR 0x60 # CHR 0x60 # []"
  by (simp add: fence_def numeral_3_eq_3)

lemma fence_length [simp]: "length fence = 3"
  by (simp add: fence_def)

lemma drop_fence [simp]: "drop 3 (fence @ r) = r"
  by (simp add: fence_cons)

lemma not_space_fence [simp]: "\<not> is_space (CHR 0x60)" "\<not> is_space (CHR ''{'')"
  by (simp_all add: is_space_def)

lemma dropWhile_spaces [simp]:
  "spaces w \<Longrightarrow> dropWhile is_space (w @ fence @ r) = fence @ r"
  "spaces w \<Longrightarrow> dropWhile is_space (w @ CHR ''{'' # r) = CHR ''{'' # r"
  "dropWhile is_space (fence @ r) = fence @ r"
  by (simp_all add: dropWhile_append2 fence_cons)

lemma dropWhile_split: "\<exists>w. s = w @ dropWhile is_space s \<and> spaces w"
  by (metis set_takeWhileD takeWhile_dropWhile_id)

lemma closes_iff:
  "closes s = Some r \<longleftrightarrow> (\<exists>w. s = CHR ''}'' # w @ fence @ r \<and> spaces w)"
proof
  assume l: "closes s = Some r"
  then obtain t where s: "s = CHR ''}'' # t" "prefix fence (dropWhile is_space t)"
    "r = drop 3 (dropWhile is_space t)"
    by (auto simp: closes_def split: list.splits if_splits)
  obtain w where "t = w @ dropWhile is_space t" "spaces w" using dropWhile_split by blast
  with s show "\<exists>w. s = CHR ''}'' # w @ fence @ r \<and> spaces w"
    by (metis drop_fence prefix_def)
next
  assume "\<exists>w. s = CHR ''}'' # w @ fence @ r \<and> spaces w"
  then show "closes s = Some r" by (auto simp: closes_def)
qed

lemma lazy_body_Some:
  "lazy_body s = Some (b, r) \<Longrightarrow>
     (\<exists>b' w. b = b' @ ''}'' \<and> s = b @ w @ fence @ r \<and> spaces w) \<and>
     (\<forall>b' w r'. s = b' @ CHR ''}'' # w @ fence @ r' \<longrightarrow> spaces w \<longrightarrow> length b \<le> Suc (length b'))"
proof (induction s arbitrary: b)
  case (Cons c s)
  show ?case
  proof (cases "closes (c # s)")
    case (Some r')
    then obtain w where w: "c # s = CHR ''}'' # w @ fence @ r'" "spaces w" unfolding closes_iff by blast
    from Some Cons.prems have "b = [c]" "r' = r" by simp_all
    with w show ?thesis by auto
  next
    case None
    with Cons.prems obtain b1 where b1: "b = c # b1" "lazy_body s = Some (b1, r)" by auto
    from Cons.IH [OF b1(2)] obtain b' w where
      *: "b1 = b' @ ''}''" "s = b1 @ w @ fence @ r" "spaces w"
      and least: "\<And>b' w r'. s = b' @ CHR ''}'' # w @ fence @ r' \<Longrightarrow> spaces w \<Longrightarrow> length b1 \<le> Suc (length b')"
      by blast
    have "length b \<le> Suc (length d)"
      if d: "c # s = d @ CHR ''}'' # w' @ fence @ r'" "spaces w'" for d w' r'
    proof (cases d)
      case Nil
      with d have "closes (c # s) = Some r'" unfolding closes_iff by auto
      with None show ?thesis by simp
    next
      case (Cons e d')
      with d least [of d' w' r'] show ?thesis by (simp add: b1)
    qed
    moreover have "b = (c # b') @ ''}''" "c # s = b @ w @ fence @ r" using b1 * by simp_all
    ultimately show ?thesis using *(3) by blast
  qed
qed simp

lemma lazy_body_None:
  "lazy_body s = None \<Longrightarrow> s \<noteq> b @ CHR ''}'' # w @ fence @ r \<or> \<not> spaces w"
proof (induction s arbitrary: b)
  case (Cons c s)
  have none: "closes (c # s) = None" and rest: "lazy_body s = None"
    using Cons.prems by (auto split: option.splits)
  show ?case
  proof (cases b)
    case Nil
    with none show ?thesis using closes_iff [of "c # s" r] by auto
  next
    case (Cons e b')
    with Cons.IH [OF rest, of b'] show ?thesis by auto
  qed
qed simp

text \<open>What the pattern matches, read off its text.\<close>

definition fenced :: "string \<Rightarrow> string \<Rightarrow> string \<Rightarrow> bool" where
  "fenced s b r \<longleftrightarrow>
     (\<exists>j w w'. s = fence @ j @ w @ b @ w' @ fence @ r \<and> j \<in> {[], ''json''} \<and> spaces w \<and> spaces w' \<and>
        (\<exists>b'. b = CHR ''{'' # b' @ ''}''))"

definition after_open :: "string \<Rightarrow> string" where
  "after_open s = dropWhile is_space (if prefix ''json'' (drop 3 s) then drop 7 s else drop 3 s)"

lemma after_open_split:
  assumes "prefix fence s"
  shows "\<exists>j w. s = fence @ j @ w @ after_open s \<and> j \<in> {[], ''json''} \<and> spaces w"
proof -
  define j where "j = (if prefix ''json'' (drop 3 s) then ''json'' else [])"
  define u where "u = (if prefix ''json'' (drop 3 s) then drop 7 s else drop 3 s)"
  have "s = fence @ j @ u" using assms by (auto simp: j_def u_def prefix_def)
  moreover obtain w where "u = w @ after_open s" "spaces w"
    using dropWhile_split [of u] by (auto simp: after_open_def u_def)
  ultimately have "s = fence @ j @ w @ after_open s" by metis
  moreover have "j \<in> {[], ''json''}" by (simp add: j_def)
  ultimately show ?thesis using \<open>spaces w\<close> by blast
qed

lemma after_open_fence:
  assumes "j \<in> {[], ''json''}" "spaces w"
  shows "after_open (fence @ j @ w @ CHR ''{'' # t) = CHR ''{'' # t"
proof -
  have "\<not> prefix ''json'' (w @ CHR ''{'' # t)"
    using assms(2) by (cases w) (auto simp: is_space_def)
  with assms show ?thesis by (auto simp: after_open_def fence_cons)
qed

lemma fenced_cases:
  "fenced s b r \<longleftrightarrow>
     prefix fence s \<and>
     (\<exists>b' w'. after_open s = CHR ''{'' # b' @ CHR ''}'' # w' @ fence @ r \<and> spaces w' \<and>
        b = CHR ''{'' # b' @ ''}'')" (is "_ \<longleftrightarrow> ?R")
proof
  assume "fenced s b r"
  then obtain j w w' b' where "s = fence @ j @ w @ b @ w' @ fence @ r" "j \<in> {[], ''json''}"
    "spaces w" "spaces w'" "b = CHR ''{'' # b' @ ''}''"
    unfolding fenced_def by blast
  then show ?R using after_open_fence [of j w "b' @ CHR ''}'' # w' @ fence @ r"] by auto
next
  assume ?R
  then obtain b' w' where "prefix fence s" "spaces w'" "b = CHR ''{'' # b' @ ''}''"
    "after_open s = b @ w' @ fence @ r"
    by auto
  then show "fenced s b r" unfolding fenced_def using after_open_split [of s] by metis
qed

text \<open>The function finds a match exactly when there is one, and then the one with the shortest body.\<close>

lemma match_fenced_alt:
  "match_fenced s =
     (if prefix fence s
      then (case after_open s of
              [] \<Rightarrow> None
            | c # r \<Rightarrow> if c = CHR ''{'' then map_option (\<lambda>(b, rest). (c # b, rest)) (lazy_body r) else None)
      else None)"
  by (simp add: match_fenced_def after_open_def Let_def)

lemma match_fenced_Some:
  assumes "match_fenced s = Some (b, r)"
  shows "fenced s b r \<and> (\<forall>b' r'. fenced s b' r' \<longrightarrow> length b \<le> length b')"
proof -
  obtain t b1 where t: "prefix fence s" "after_open s = CHR ''{'' # t" "lazy_body t = Some (b1, r)"
    "b = CHR ''{'' # b1"
    using assms by (auto simp: match_fenced_alt split: if_splits list.splits)
  obtain b2 w where b2: "b1 = b2 @ ''}''" "t = b1 @ w @ fence @ r" "spaces w"
    using lazy_body_Some [OF t(3)] by blast
  with t have "fenced s b r" unfolding fenced_cases by auto
  moreover have "length b \<le> length b'" if f: "fenced s b' r'" for b' r'
  proof -
    obtain b1' w' where "b' = CHR ''{'' # b1' @ ''}''" "t = b1' @ CHR ''}'' # w' @ fence @ r'" "spaces w'"
      using f t(2) unfolding fenced_cases by auto
    with lazy_body_Some [OF t(3)] have "length b1 \<le> Suc (length b1')" by blast
    with t(4) \<open>b' = _\<close> show ?thesis by simp
  qed
  ultimately show ?thesis by blast
qed

lemma match_fenced_None:
  assumes "match_fenced s = None"
  shows "\<not> fenced s b r"
proof
  assume "fenced s b r"
  then obtain b' w' where t: "prefix fence s" "spaces w'"
    "after_open s = CHR ''{'' # b' @ CHR ''}'' # w' @ fence @ r"
    unfolding fenced_cases by blast
  with assms have "lazy_body (b' @ CHR ''}'' # w' @ fence @ r) = None" by (simp add: match_fenced_alt)
  from lazy_body_None [OF this, of b' w' r] t(2) show False by simp
qed

lemma match_fenced_rest: "match_fenced s = Some (b, r) \<Longrightarrow> length r < length s"
  by (auto dest!: match_fenced_Some simp: fenced_def)

text \<open>\<open>finditer\<close>: the groups of the matches from left to right, none overlapping.\<close>

function fenced_json :: "string \<Rightarrow> string list" where
  "fenced_json s =
     (case match_fenced s of
        Some (b, r) \<Rightarrow> b # fenced_json r
      | None \<Rightarrow> (case s of [] \<Rightarrow> [] | c # t \<Rightarrow> fenced_json t))"
  by pat_completeness auto
termination
  by (relation "measure length") (auto dest: match_fenced_rest)

declare fenced_json.simps [simp del]

section \<open>The parse of the final message\<close>

definition braces :: "string \<Rightarrow> string list" where
  "braces text =
     (case find_char (CHR ''{'') text of
        None \<Rightarrow> []
      | Some i \<Rightarrow> [drop i (take (case rfind_char (CHR ''}'') text of Some n \<Rightarrow> Suc n | None \<Rightarrow> 0) text)])"

definition candidates :: "string \<Rightarrow> string list" where
  "candidates text = fenced_json text @ braces text"

fun first_valid :: "string list \<Rightarrow> agent_output option" where
  "first_valid [] = None"
| "first_valid (c # cs) =
     (case loads c of
        Some (JObj d) \<Rightarrow> (case validate_agent_output d of Some out \<Rightarrow> Some out | None \<Rightarrow> first_valid cs)
      | _ \<Rightarrow> first_valid cs)"

definition unstructured :: "string \<Rightarrow> agent_output" where
  "unstructured text = \<lparr>ao_summary = strip text, ao_sources = [], ao_details = [], ao_proposed_actions = []\<rparr>"

definition parse_agent_output :: "string \<Rightarrow> agent_output prog" where
  "parse_agent_output text =
     (case first_valid (rev (candidates text)) of
        Some out \<Rightarrow> Ret out
      | None \<Rightarrow> bind (log_event WARNING ''agent_output_unstructured'' [] []) (\<lambda>_. Ret (unstructured text)))"

lemma first_valid_Some:
  "first_valid cs = Some out \<Longrightarrow>
     \<exists>c \<in> set cs. \<exists>d. loads c = Some (JObj d) \<and> validate_agent_output d = Some out"
  by (induction cs) (auto split: option.splits json.splits)

lemma first_valid_None:
  "first_valid cs = None \<longleftrightarrow>
     (\<forall>c \<in> set cs. \<forall>d. loads c = Some (JObj d) \<longrightarrow> validate_agent_output d = None)"
  by (induction cs) (auto split: option.splits json.splits)

text \<open>The JSON that the output contract asks for is the last candidate, hence the first one tried.\<close>

lemma dumps_object: "\<exists>m. dumps_default (JObj d) = CHR ''{'' # m @ ''}''"
  by (simp add: dumps_default_def)

lemma braces_object:
  assumes "CHR ''{'' \<notin> set pre" "CHR ''}'' \<notin> set post" "obj = CHR ''{'' # m @ ''}''"
  shows "braces (pre @ obj @ post) = [obj]"
proof -
  have "find_char (CHR ''{'') (pre @ CHR ''{'' # u) = Some (length pre)" for u
    using assms(1) by (induction pre) auto
  moreover have "rfind_char (CHR ''}'') ((pre @ CHR ''{'' # m) @ CHR ''}'' # post) = Some (length pre + Suc (length m))"
    using rfind_char_last [OF assms(2), of "pre @ CHR ''{'' # m"] by simp
  ultimately show ?thesis by (simp add: braces_def assms(3))
qed

lemma first_valid_contract:
  assumes "CHR ''{'' \<notin> set pre" "CHR ''}'' \<notin> set post" "no_float (JObj d)" "wf_json (JObj d)"
    and "validate_agent_output d = Some out"
  shows "first_valid (rev (candidates (pre @ dumps_default (JObj d) @ post))) = Some out"
proof -
  obtain m where "dumps_default (JObj d) = CHR ''{'' # m @ ''}''" using dumps_object by blast
  from braces_object [OF assms(1,2) this] show ?thesis
    by (simp add: candidates_def loads_dumps_default [OF assms(3,4)] assms(5))
qed

section \<open>Properties\<close>

text \<open>
  C36: the fenced block. At any position of a text the pattern \<open>_FENCED_JSON\<close> matches exactly when
  the text there has the form of an opening fence, an optional \<open>json\<close>, white space, a body in
  braces, white space and a closing fence; and of all the ways to read it so, the match has the
  shortest body.
\<close>

theorem match_fenced_shortest:
  "case match_fenced s of
     None \<Rightarrow> \<nexists>b r. fenced s b r
   | Some (b, r) \<Rightarrow> fenced s b r \<and> (\<nexists>b' r'. fenced s b' r' \<and> length b' < length b)"
  using match_fenced_None [of s] match_fenced_Some [of s] by (fastforce split: option.split)



text \<open>
  A badly formatted answer never fails the job. The parse always returns: the output of one of
  the texts that were tried, or else, when none of them is a JSON object that validates, the whole
  answer as the summary with nothing proposed.
\<close>

theorem parse_never_fails:
  "\<exists>out. result_of W (parse_agent_output text) s x = Inr out \<and>
     (if \<exists>c \<in> set (candidates text). \<exists>d. loads c = Some (JObj d) \<and> validate_agent_output d \<noteq> None
      then \<exists>c \<in> set (candidates text). \<exists>d. loads c = Some (JObj d) \<and> validate_agent_output d = Some out
      else out = unstructured text)"
proof (cases "first_valid (rev (candidates text))")
  case None
  then have "result_of W (parse_agent_output text) s x = Inr (unstructured text)"
    by (simp add: parse_agent_output_def log_event_def emit_log_def)
  moreover have neg: "\<not> (\<exists>c \<in> set (candidates text). \<exists>d. loads c = Some (JObj d) \<and> validate_agent_output d \<noteq> None)"
    using None unfolding first_valid_None by fastforce
  ultimately show ?thesis unfolding if_not_P [OF neg] by blast
next
  case (Some out)
  then have "result_of W (parse_agent_output text) s x = Inr out" by (simp add: parse_agent_output_def)
  moreover obtain c d where "c \<in> set (candidates text)" "loads c = Some (JObj d)" "validate_agent_output d = Some out"
    using first_valid_Some [OF Some] by auto
  moreover from this have pos: "\<exists>c \<in> set (candidates text). \<exists>d. loads c = Some (JObj d) \<and> validate_agent_output d \<noteq> None"
    by auto
  ultimately show ?thesis unfolding if_P [OF pos] by blast
qed

end
