(* ===== verification/Agent_Factory.thy ===== *)
theory Agent_Factory
  imports Runner_Parse
begin

text \<open>
  \<^verbatim>\<open>app/agent/factory.py\<close>, \<^verbatim>\<open>app/agent/prompts.py\<close> and \<^verbatim>\<open>app/llm/azure.py\<close>: the
  models, the prompt and the agent harness.

  Deep Agents and LangChain are not code of the repository. What they build, a compiled agent, is
  the function from the task to its run: a possibly endless tree of the states it streams and the
  tools it calls. The tree is arbitrary, so it covers whatever a language model answers; the only
  way from it to the outside is a call of one of the tools it was given.
\<close>

section \<open>Models\<close>

text \<open>An \<open>AzureChatOpenAI\<close> is what it is constructed from.\<close>

record chat_model =
  cm_azure_endpoint :: string
  cm_azure_deployment :: string
  cm_api_version :: string
  cm_token_scope :: string
  cm_temperature :: int

definition cognitive_scope :: string where
  "cognitive_scope = ''https://cognitiveservices.azure.com/.default''"

definition build_model :: "settings \<Rightarrow> string \<Rightarrow> chat_model" where
  "build_model cfg deployment =
     \<lparr>cm_azure_endpoint = cf_azure_openai_endpoint cfg, cm_azure_deployment = deployment,
      cm_api_version = cf_azure_openai_api_version cfg, cm_token_scope = cognitive_scope,
      cm_temperature = 0\<rparr>"

definition build_llm :: "settings \<Rightarrow> chat_model" where
  "build_llm cfg = build_model cfg (cf_azure_openai_deployment cfg)"

definition build_fast_llm :: "settings \<Rightarrow> chat_model option" where
  "build_fast_llm cfg =
     (if cf_azure_openai_fast_deployment cfg = [] then None
      else Some (build_model cfg (cf_azure_openai_fast_deployment cfg)))"

definition llm_configured :: "settings \<Rightarrow> bool" where
  "llm_configured cfg \<longleftrightarrow> cf_azure_openai_endpoint cfg \<noteq> [] \<and> cf_azure_openai_deployment cfg \<noteq> []"

section \<open>Agents\<close>

codatatype agent_run =
    RunEnds
  | RunFails exn
  | RunState agent_state agent_run
  | RunCalls string string "int option" "exn + string \<Rightarrow> agent_run"

text \<open>A read tool, with the size of the semaphore it is behind (see \<open>cap_read_concurrency\<close>).\<close>

type_synonym agent_tool = "read_tool \<times> int option"

record agent =
  ag_tools :: "agent_tool list"
  ag_run :: "string \<Rightarrow> agent_run"

record subagent =
  sa_name :: string
  sa_description :: string
  sa_system_prompt :: string
  sa_tools :: "agent_tool list"
  sa_model :: chat_model

text \<open>\<open>deepagents.create_deep_agent\<close> and \<open>langchain.agents.create_agent\<close>.\<close>

record harness =
  hn_deep :: "chat_model \<Rightarrow> agent_tool list \<Rightarrow> string \<Rightarrow> subagent list option \<Rightarrow> exn + (string \<Rightarrow> agent_run)"
  hn_react :: "chat_model \<Rightarrow> agent_tool list \<Rightarrow> string \<Rightarrow> exn + (string \<Rightarrow> agent_run)"

text \<open>Characters above 255 are outside the model of texts: the dash of the source stands for itself.\<close>

definition em_dash :: string where
  "em_dash = [CHR 0xE2, CHR 0x80, CHR 0x94]"

definition retriever_description :: string where
  "retriever_description =
     ''Fast retrieval specialist. Delegate independent lookups here '' @ em_dash @ '' one '' @
     ''sub-task per source or entity, launched in parallel '' @ em_dash @ '' to fetch raw '' @
     ''data and return concise per-source summaries. Keep planning, '' @
     ''cross-source synthesis, and action proposals in the main agent.''"

definition retriever_prompt :: string where
  "retriever_prompt =
     ''You retrieve and summarize; you do not plan or propose actions. '' @
     ''Use the read-only tools to fetch exactly what the sub-task asks '' @
     ''for, then reply with a compact structured summary: key facts, '' @
     ''identifiers/URLs suitable for citation, and the target's current '' @
     ''state (status/version/timestamps '' @ em_dash @ '' the caller needs these for '' @
     ''action preconditions). No speculation. Never include credentials '' @
     ''or secrets.''"

type_synonym agent_factory =
  "chat_model \<Rightarrow> agent_tool list \<Rightarrow> string \<Rightarrow> chat_model option \<Rightarrow> exn + agent"

definition built_agent :: "agent_tool list \<Rightarrow> exn + (string \<Rightarrow> agent_run) \<Rightarrow> exn + agent" where
  "built_agent tools r = map_sum id (\<lambda>run. \<lparr>ag_tools = tools, ag_run = run\<rparr>) r"

definition retriever :: "agent_tool list \<Rightarrow> chat_model option \<Rightarrow> subagent list option" where
  "retriever tools fast_model =
     (case fast_model of
        None \<Rightarrow> None
      | Some m \<Rightarrow> Some [\<lparr>sa_name = ''retriever'', sa_description = retriever_description,
                         sa_system_prompt = retriever_prompt, sa_tools = tools, sa_model = m\<rparr>])"

definition deep_agent_factory :: "harness \<Rightarrow> agent_factory" where
  "deep_agent_factory h mdl tools instr fast_model =
     built_agent tools (hn_deep h mdl tools instr (retriever tools fast_model))"

definition react_agent_factory :: "harness \<Rightarrow> agent_factory" where
  "react_agent_factory h mdl tools instr fast_model = built_agent tools (hn_react h mdl tools instr)"

text \<open>The registry of factories, a dict of the module.\<close>

type_synonym factories = "(string \<times> agent_factory) list"

definition initial_factories :: "harness \<Rightarrow> factories" where
  "initial_factories h = [(''deepagents'', deep_agent_factory h), (''react'', react_agent_factory h)]"

definition register_agent_factory :: "string \<Rightarrow> agent_factory \<Rightarrow> factories \<Rightarrow> factories" where
  "register_agent_factory name f reg =
     (if name \<in> set (map fst reg) then map (\<lambda>(n, g). (n, if n = name then f else g)) reg
      else reg @ [(name, f)])"

definition get_agent_factory :: "factories \<Rightarrow> string \<Rightarrow> exn + agent_factory" where
  "get_agent_factory reg name =
     (case map_of reg name of
        Some f \<Rightarrow> Inr f
      | None \<Rightarrow> Inl (ValueError (''Unknown AGENT_FACTORY '' @ [CHR 0x27] @ name @ [CHR 0x27] @
                  ''. Registered: ['' @ join '', '' (map repr_str (sort (map fst reg))) @ '']'')))"

lemma map_of_replace:
  "map_of (map (\<lambda>(n, g). (n, if n = name then f else g)) reg) k =
     (if k = name \<and> map_of reg k \<noteq> None then Some f else map_of reg k)"
  by (induction reg) auto

lemma register_map_of: "map_of (register_agent_factory name f reg) = (map_of reg)(name \<mapsto> f)"
proof
  fix k
  have "map_of reg name = None \<longleftrightarrow> name \<notin> set (map fst reg)" by (simp add: map_of_eq_None_iff)
  then show "map_of (register_agent_factory name f reg) k = ((map_of reg)(name \<mapsto> f)) k"
    by (auto simp: register_agent_factory_def map_of_replace map_add_def split: option.split)
qed

lemma register_then_get [simp]: "get_agent_factory (register_agent_factory name f reg) name = Inr f"
  by (simp add: get_agent_factory_def register_map_of)

text \<open>
  What the worker relies on of a factory: the agent acts with the tools it was given and with no
  others. Every registered factory provides it.
\<close>

locale agent_builder =
  fixes build :: agent_factory
  assumes builds_with_tools: "build mdl tools instr fast = Inr ag \<Longrightarrow> ag_tools ag = tools"

lemma built_agent_tools: "built_agent tools r = Inr ag \<Longrightarrow> ag_tools ag = tools"
  by (auto simp: built_agent_def map_sum_def split: sum.splits)

interpretation deep: agent_builder "deep_agent_factory h" for h
  by unfold_locales (auto simp: deep_agent_factory_def dest: built_agent_tools)

interpretation react: agent_builder "react_agent_factory h" for h
  by unfold_locales (auto simp: react_agent_factory_def dest: built_agent_tools)

lemma registered_builder:
  "get_agent_factory (initial_factories h) name = Inr f \<Longrightarrow> agent_builder f"
  by (auto simp: get_agent_factory_def initial_factories_def split: if_splits
      intro: deep.agent_builder_axioms react.agent_builder_axioms)

section \<open>The research prompt\<close>

text \<open>
  \<open>template.format(**fields)\<close>, for templates whose fields are plain names: a doubled brace is the
  brace, a single one opens a field.
\<close>

fun py_format :: "(string \<times> string) list \<Rightarrow> string \<Rightarrow> exn + string" where
  "py_format fs [] = Inr []"
| "py_format fs (c # s) =
     (if c = CHR ''{'' \<or> c = CHR ''}'' then
        (if s \<noteq> [] \<and> hd s = c then sbind (py_format fs (tl s)) (\<lambda>u. Inr (c # u))
         else if c = CHR ''}'' then Inl (ValueError ''Single close brace encountered in format string'')
         else (case find_char (CHR ''}'') s of
                 None \<Rightarrow> Inl (ValueError ''expected close brace before end of string'')
               | Some n \<Rightarrow>
                   (case map_of fs (take n s) of
                      None \<Rightarrow> Inl (KeyError (take n s))
                    | Some v \<Rightarrow> sbind (py_format fs (drop (Suc n) s)) (\<lambda>u. Inr (v @ u)))))
      else sbind (py_format fs s) (\<lambda>u. Inr (c # u)))"

abbreviation fence_mark :: string where
  "fence_mark \<equiv> fence"

definition newline :: string where
  "newline = [CHR ''\<newline>'']"

definition core_template :: "string list" where
  \<open>core_template =
    [''You are a research agent for the "{domain}" domain. You investigate the task'',
     ''using ONLY the read-only tools provided, then report findings and (when the'',
     ''task calls for a change) propose actions for a human to approve. You cannot'',
     ''perform mutations '' @ em_dash @ '' you have no tools that write '' @ em_dash @ '' and you never pretend to'',
     ''have made a change.'',
     [],
     ''{domain_instructions}'',
     [],
     ''## Rules'',
     ''- Ground every claim in tool output; cite identifiers/URLs in sources.'',
     ''- Work in parallel: when your next lookups do not depend on each other,'',
     ''  issue the tool calls concurrently (multiple tool calls in one turn), and'',
     ''  when a retriever sub-agent is available, delegate independent sources to'',
     ''  it as parallel sub-tasks '' @ em_dash @ '' one per source or entity. All tools are'',
     ''  read-only and the service caps concurrent downstream calls, so parallel'',
     ''  fan-out is always safe. Only serialize when a result genuinely determines'',
     ''  the next query.'',
     ''- Never include credentials, tokens, or secrets in any output.'',
     ''- Propose an action only when the task asks for a change, and only from the'',
     ''  action catalog below. Include everything execution needs in the payload '' @ em_dash,
     ''  the payload must be fully self-contained.'',
     ''- For each proposed action, capture the target's current state you observed'',
     ''  (version, status, timestamp) as preconditions, so drift is detected at'',
     ''  execution time.'',
     ''- Write the preview as one or two sentences a human approver can judge'',
     ''  without opening the target system.'',
     [],
     ''## Action catalog'',
     ''{action_catalog}'',
     [],
     ''## OUTPUT CONTRACT (mandatory)'',
     ''End your final answer with exactly one fenced JSON block:'',
     [],
     fence_mark @ ''json'',
     ''{{'',
     ''  "summary": "<what you found, 2-6 sentences>",'',
     ''  "sources": [{{"title": "...", "url_or_id": "..."}}],'',
     ''  "details": {{}},'',
     ''  "proposed_actions": ['',
     ''    {{'',
     ''      "action_type": "<from the catalog>",'',
     ''      "target": {{"system": "{domain}"}},'',
     ''      "payload": {{}},'',
     ''      "preview": "<human-readable summary of the change>",'',
     ''      "preconditions": {{}}'',
     ''    }}'',
     ''  ]'',
     ''}}'',
     fence_mark,
     [],
     ''Use an empty proposed_actions list when no change is needed.'']\<close>

text \<open>\<open>properties\<close> is the JSON schema Pydantic derives of a payload schema.\<close>

definition action_catalog :: "(schema \<Rightarrow> dict) \<Rightarrow> adapter \<Rightarrow> string" where
  "action_catalog properties ad =
     (if ad_schemas ad \<noteq> []
      then join newline (map (\<lambda>(action_type, sch).
             ''- '' @ [CHR 0x60] @ action_type @ [CHR 0x60] @ '' '' @ em_dash @ '' payload schema: '' @
             dumps_default (JObj (properties sch))) (ad_schemas ad))
      else ''(none '' @ em_dash @ '' this domain is research-only; never propose actions)'')"

definition render_research_prompt :: "(schema \<Rightarrow> dict) \<Rightarrow> adapter \<Rightarrow> exn + string" where
  "render_research_prompt properties ad =
     py_format [(''domain'', ad_name ad), (''domain_instructions'', ad_instructions ad),
                (''action_catalog'', action_catalog properties ad)]
       (concat (map (\<lambda>l. l @ newline) core_template))"

section \<open>The prompt is well formed\<close>

text \<open>A text that formats on its own formats the same in front of another.\<close>

lemma find_char_append: "find_char c s = Some n \<Longrightarrow> find_char c (s @ t) = Some n"
  by (induction s arbitrary: n) (auto split: if_splits)

lemma py_format_append:
  "py_format fs s = Inr w \<Longrightarrow> py_format fs (s @ t) = sbind (py_format fs t) (\<lambda>u. Inr (w @ u))"
proof (induction fs s arbitrary: w rule: py_format.induct)
  case (1 fs)
  then show ?case by (auto simp: sbind_def split: sum.split)
next
  case (2 fs c s)
  show ?case
  proof (cases "c = CHR ''{'' \<or> c = CHR ''}''")
    case False
    with "2.prems" obtain w' where "py_format fs s = Inr w'" "w = c # w'"
      by (auto simp: sbind_def split: sum.splits)
    with "2.IH"(3) [OF False] False show ?thesis by (simp add: sbind_def split: sum.split)
  next
    case brace: True
    show ?thesis
    proof (cases "s \<noteq> [] \<and> hd s = c")
      case True
      with "2.prems" brace obtain w' where "py_format fs (tl s) = Inr w'" "w = c # w'"
        by (auto simp: sbind_def split: sum.splits)
      with "2.IH"(1) [OF brace True] brace True show ?thesis by (simp add: sbind_def split: sum.split)
    next
      case False
      with "2.prems" brace obtain n v w' where n: "find_char (CHR ''}'') s = Some n" "c = CHR ''{''"
        "map_of fs (take n s) = Some v" "py_format fs (drop (Suc n) s) = Inr w'" "w = v @ w'"
        by (auto simp: sbind_def split: sum.splits option.splits if_splits)
      have len: "n < length s" using find_char_Some [OF n(1)] by simp
      then have "s \<noteq> []" by auto
      with len False n find_char_append [OF n(1)] "2.IH"(2) [OF brace False _ n(1) n(3) n(4)]
      show ?thesis by (simp add: sbind_def split: sum.split)
    qed
  qed
qed

lemma py_format_lines:
  assumes "\<forall>l \<in> set ls. \<exists>w. py_format fs l = Inr w"
  shows "\<exists>t. py_format fs (concat (map (\<lambda>l. l @ newline) ls)) = Inr t \<and>
             (\<forall>l \<in> set ls. \<forall>w. py_format fs l = Inr w \<longrightarrow> sublist w t)"
  using assms
proof (induction ls)
  case (Cons l ls)
  then obtain t w where t: "py_format fs (concat (map (\<lambda>l. l @ newline) ls)) = Inr t"
      "py_format fs l = Inr w" "\<forall>l \<in> set ls. \<forall>w. py_format fs l = Inr w \<longrightarrow> sublist w t"
    by auto
  have "py_format fs (newline @ u) = sbind (py_format fs u) (\<lambda>v. Inr (newline @ v))" for u
    by (rule py_format_append) (simp add: newline_def sbind_def)
  with t have *: "py_format fs (concat (map (\<lambda>l. l @ newline) (l # ls))) = Inr (w @ newline @ t)"
    by (simp add: py_format_append [OF t(2)] sbind_def)
  have "sublist v (w @ newline @ t)" if "sublist v t" for v
    using that by (metis append.assoc sublist_append_leftI sublist_order.order_trans sublist_append)
  with t * show ?case by fastforce
qed (simp add: sbind_def)

abbreviation prompt_fields :: "(schema \<Rightarrow> dict) \<Rightarrow> adapter \<Rightarrow> (string \<times> string) list" where
  "prompt_fields properties ad \<equiv>
     [(''domain'', ad_name ad), (''domain_instructions'', ad_instructions ad),
      (''action_catalog'', action_catalog properties ad)]"

text \<open>Whether a template formats depends on the names of the fields only.\<close>

lemma isl_sbind_Inr [simp]: "isl (sbind r (\<lambda>u. Inr (g u))) = isl r"
  by (simp add: sbind_def split: sum.split)

lemma py_format_defined:
  "(\<And>k. map_of fs k = None \<longleftrightarrow> map_of fs' k = None) \<Longrightarrow> isl (py_format fs s) = isl (py_format fs' s)"
proof (induction fs s rule: py_format.induct)
  case (2 fs c s)
  have same: "isl (py_format fs (drop (Suc n) s)) = isl (py_format fs' (drop (Suc n) s))"
    if "c = CHR ''{''" "\<not> (s \<noteq> [] \<and> hd s = c)" "find_char (CHR ''}'') s = Some n" "map_of fs (take n s) = Some v" for n v
    using that "2.prems" by (intro "2.IH"(2)) auto
  show ?case
    using "2.IH"(1,3) "2.prems" same by (auto split: option.split) (metis "2.prems" option.distinct(1))+
qed simp

lemma template_formats:
  "list_all (\<lambda>l. \<not> isl (py_format [(''domain'', []), (''domain_instructions'', []), (''action_catalog'', [])] l))
     core_template"
  by code_simp

lemma template_lines: "\<forall>l \<in> set core_template. \<exists>w. py_format (prompt_fields properties ad) l = Inr w"
proof
  fix l
  assume l: "l \<in> set core_template"
  have "isl (py_format (prompt_fields properties ad) l) =
      isl (py_format [(''domain'', []), (''domain_instructions'', []), (''action_catalog'', [])] l)"
    by (rule py_format_defined) simp
  with l template_formats have "\<not> isl (py_format (prompt_fields properties ad) l)"
    by (simp add: list_all_iff)
  then show "\<exists>w. py_format (prompt_fields properties ad) l = Inr w"
    by (cases "py_format (prompt_fields properties ad) l") auto
qed

section \<open>Properties\<close>

text \<open>
  The research prompt can always be rendered, whatever the domain's texts contain (braces in them
  are not fields), and it carries the domain's instructions, the catalog of its actions and the
  opening of the JSON block the worker will look for.
\<close>

theorem prompt_well_formed:
  "\<exists>t. render_research_prompt properties ad = Inr t \<and> sublist (ad_instructions ad) t \<and>
       sublist (action_catalog properties ad) t \<and> sublist (fence @ ''json'') t"
proof -
  let ?fs = "prompt_fields properties ad"
  obtain t where t: "py_format ?fs (concat (map (\<lambda>l. l @ newline) core_template)) = Inr t"
    and lines: "\<And>l w. l \<in> set core_template \<Longrightarrow> py_format ?fs l = Inr w \<Longrightarrow> sublist w t"
    using py_format_lines [OF template_lines] by blast
  have "sublist (ad_instructions ad) t"
    by (rule lines [of "''{domain_instructions}''"]) ((simp only: core_template_def list.set insert_iff simp_thms), simp add: sbind_def)
  moreover have "sublist (action_catalog properties ad) t"
    by (rule lines [of "''{action_catalog}''"]) ((simp only: core_template_def list.set insert_iff simp_thms), simp add: sbind_def)
  moreover have "sublist (fence @ ''json'') t"
    by (rule lines [of "fence @ ''json''"]) ((simp only: core_template_def list.set insert_iff simp_thms), simp add: fence_cons sbind_def)
  ultimately show ?thesis using t by (simp add: render_research_prompt_def)
qed

end
