(* ===== verification/Health_Api.thy ===== *)
theory Health_Api
  imports Auth Job_Queue Agent_Factory
begin

text \<open>
  \<^verbatim>\<open>app/api/health.py\<close>: the unauthenticated liveness probe and the authenticated health report. The
  report must degrade, never raise.
\<close>

record health_report =
  hl_status :: string
  hl_domain :: string
  hl_redis :: string
  hl_queue_depth :: "int option"
  hl_llm :: string

definition liveness :: "(string \<times> string) list" where
  "liveness = [(''status'', ''ok'')]"

definition health_depth :: "settings \<Rightarrow> bool \<Rightarrow> int option prog" where
  "health_depth cfg redis_ok =
     (if redis_ok
      then catch (bind (queue_size (cf_queue_name cfg)) (\<lambda>n. Ret (Some n))) (\<lambda>exc. Ret None)
      else Ret None)"

definition health_report_of :: "settings \<Rightarrow> bool \<Rightarrow> int option \<Rightarrow> health_report" where
  "health_report_of cfg redis_ok depth =
     \<lparr>hl_status = (if redis_ok then ''ok'' else ''degraded''), hl_domain = cf_domain cfg,
      hl_redis = (if redis_ok then ''ok'' else ''unreachable''), hl_queue_depth = depth,
      hl_llm = (if llm_configured cfg then ''configured'' else ''unconfigured'')\<rparr>"

text \<open>The status code and the report.\<close>

definition health :: "deps \<Rightarrow> headers \<Rightarrow> (int \<times> health_report) prog" where
  "health dp hs =
     (let cfg = dp_settings dp in
      bind (require_api_key cfg hs) (\<lambda>consumer_id.
      bind store_ping (\<lambda>redis_ok.
      bind (health_depth cfg redis_ok) (\<lambda>depth.
      Ret (if redis_ok then 200 else 503, health_report_of cfg redis_ok depth)))))"

section \<open>Facts\<close>

fun health_cmd :: "cmd \<Rightarrow> bool" where
  "health_cmd RPing = True"
| "health_cmd (RZcard k) = True"
| "health_cmd c = auth_cmd c"

lemma safe_health_depth:
  "safe health_cmd (\<lambda>_. False) (\<lambda>d. d = None \<or> up) (health_depth cfg up)"
  by (auto simp: health_depth_def queue_size_def call_defs split: reply.split)

lemma safe_store_ping: "safe health_cmd (\<lambda>_. False) (\<lambda>_. True) store_ping"
  by (auto simp: store_ping_def call_defs split: reply.split)

text \<open>After the API key nothing can fail, and the status code says whether Redis answered.\<close>

lemma safe_health:
  "safe health_cmd (\<lambda>e. \<exists>m. e = ApiError 401 INVALID_API_KEY m None)
     (\<lambda>(st, rep). \<exists>up d. rep = health_report_of (dp_settings dp) up d \<and>
        st = (if up then 200 else 503) \<and> (d = None \<or> up) \<and>
        (\<exists>c p. request_header ''X-Api-Key'' hs = Some p \<and> (c, p) \<in> set (cf_api_keys (dp_settings dp))))
     (health dp hs)"
proof -
  have auth: "safe health_cmd (\<lambda>e. \<exists>m. e = ApiError 401 INVALID_API_KEY m None)
      (\<lambda>c. \<exists>p. request_header ''X-Api-Key'' hs = Some p \<and> (c, p) \<in> set (cf_api_keys (dp_settings dp)))
      (require_api_key (dp_settings dp) hs)"
  proof (rule safe_mono [OF safe_require_api_key])
    show "health_cmd c" if "auth_cmd c" for c using that by (cases c) auto
  qed auto
  have ping: "safe health_cmd E (\<lambda>_. True) store_ping" for E
    by (rule safe_mono [OF safe_store_ping]) auto
  have depth: "safe health_cmd E (\<lambda>d. d = None \<or> up) (health_depth cfg up)" for E cfg up
    by (rule safe_mono [OF safe_health_depth]) auto
  show ?thesis
    unfolding health_def Let_def
    by (rule safe_bind [OF auth], rule safe_bind [OF ping], rule safe_bind [OF depth]) auto
qed

lemma known_key_enters:
  assumes "request_header ''X-Api-Key'' hs = Some p" "p \<noteq> []" "(c, p) \<in> set (cf_api_keys cfg)"
  shows "\<exists>c'. result_of W (require_api_key cfg hs) s x = Inr c'"
proof -
  have "verify_api_key p (cf_api_keys cfg) \<noteq> None"
    unfolding verify_api_key_None using assms(3) by force
  then show ?thesis using assms(1,2)
    by (auto simp: require_api_key_def run_simps split: option.split)
qed

lemma health_answers:
  assumes "request_header ''X-Api-Key'' hs = Some p" "p \<noteq> []" "(c, p) \<in> set (cf_api_keys (dp_settings dp))"
    and after: "s' = state_after W (require_api_key (dp_settings dp) hs) s x"
      "x' = ctx_after W (require_api_key (dp_settings dp) hs) s x"
  shows "\<exists>up d. result_of W store_ping s' x' = Inr up \<and> (d = None \<or> up) \<and>
     result_of W (health dp hs) s x =
       Inr (if up then 200 else 503, health_report_of (dp_settings dp) up d)"
proof -
  obtain c' where c': "result_of W (require_api_key (dp_settings dp) hs) s x = Inr c'"
    using known_key_enters [OF assms(1-3), of W s x] by blast
  obtain up where up: "result_of W store_ping s' x' = Inr up"
    using safe_result [OF safe_store_ping, where W = W and s = s' and x = x'] by (auto split: sum.splits)
  let ?s = "state_after W store_ping s' x'" and ?x = "ctx_after W store_ping s' x'"
  obtain d where d: "result_of W (health_depth (dp_settings dp) up) ?s ?x = Inr d" "d = None \<or> up"
    using safe_result [OF safe_health_depth [of up "dp_settings dp"], where W = W and s = ?s and x = ?x] by (auto split: sum.splits)
  with c' up show ?thesis by (auto simp: health_def Let_def run_bind after)
qed

section \<open>Properties\<close>

text \<open>
  The health report degrades and never raises. In every environment, whatever Redis and the
  queue answer, a caller with a configured key gets a report; its status code is 200 exactly when
  Redis answered the ping and 503 otherwise, and a queue depth is only reported with a reachable Redis.
\<close>

theorem health_never_raises:
  assumes "request_header ''X-Api-Key'' hs = Some p" "p \<noteq> []" "(c, p) \<in> set (cf_api_keys (dp_settings dp))"
  shows "\<exists>st rep. result_of W (health dp hs) s x = Inr (st, rep) \<and>
     st = (if result_of W store_ping (state_after W (require_api_key (dp_settings dp) hs) s x)
             (ctx_after W (require_api_key (dp_settings dp) hs) s x) = Inr True then 200 else 503) \<and>
     hl_status rep = (if st = 200 then ''ok'' else ''degraded'') \<and>
     hl_redis rep = (if st = 200 then ''ok'' else ''unreachable'') \<and>
     (hl_queue_depth rep = None \<or> st = 200)"
proof -
  from health_answers [OF assms refl refl, of W s x] show ?thesis
    by (elim exE conjE) (auto simp: health_report_of_def)
qed

definition health_deps :: deps where
  "health_deps = \<lparr>dp_settings = default_settings\<lparr>cf_api_keys := [(''alpha'', ''k1'')]\<rparr>,
     dp_adapter = websearch_adapter [] [], dp_vault = NullTokenVault, dp_crypto = demo_crypto\<rparr>"

text \<open>A server that refuses every command.\<close>

definition down_world :: "unit world" where
  "down_world s c = ((), RErr (RedisError ''ConnectionError''))"

theorem health_never_raises_witness:
  "\<exists>rep. result_of down_world (health health_deps [(''x-api-key'', ''k1'')]) () empty_ctx = Inr (503, rep) \<and>
     hl_status rep = ''degraded'' \<and> hl_redis rep = ''unreachable'' \<and> hl_queue_depth rep = None"
proof -
  have "request_header ''X-Api-Key'' [(''x-api-key'', ''k1'')] = Some ''k1''"
    by code_simp
  from health_never_raises [OF this, of "''alpha''" health_deps down_world "()" empty_ctx]
  show ?thesis
    by (auto simp: health_deps_def store_ping_def run_simps redis_ping_def bad_reply_def down_world_def)
qed

end
