(* ===== verification/Interrupt.thy ===== *)
theory Interrupt
  imports World
begin

text \<open>
  Programs that are cut off, and what holds while they run. \<open>asyncio.timeout\<close> cancels the body at
  whatever call it is waiting for: \<open>interrupt p n\<close> is \<open>p\<close> cut off after \<open>n\<close> calls, the last of which
  may have taken effect without its answer being seen. No handler of the body catches a
  cancellation, so it goes straight to the end of the block, where it becomes a \<open>TimeoutError\<close>.
\<close>

section \<open>Interruption\<close>

primrec interrupt :: "'a prog \<Rightarrow> nat \<Rightarrow> 'a prog" where
  "interrupt (Ret a) n = (if n = 0 then Raise TimeoutError else Ret a)"
| "interrupt (Raise e) n = (if n = 0 then Raise TimeoutError else Raise e)"
| "interrupt (Op c k) n = (if n = 0 then Raise TimeoutError else Op c (\<lambda>r. interrupt (k r) (n - 1)))"
| "interrupt (GetCtx k) n = GetCtx (\<lambda>x. interrupt (k x) n)"
| "interrupt (SetCtx y p) n = SetCtx y (interrupt p n)"

lemma safe_interrupt: "safe Q E R p \<Longrightarrow> E TimeoutError \<Longrightarrow> safe Q E R (interrupt p n)"
  by (induction p arbitrary: n) auto

lemma at_most_interrupt: "at_most Q k p \<Longrightarrow> at_most Q k (interrupt p n)"
  by (induction p arbitrary: k n) auto

lemma keeps_ctx_interrupt: "keeps_ctx p \<Longrightarrow> keeps_ctx (interrupt p n)"
  by (induction p arbitrary: n) auto

text \<open>An interrupted program either timed out or did what the whole program does.\<close>

lemma interrupt_result:
  "result_of W (interrupt p n) s x = Inl TimeoutError \<or>
   result_of W (interrupt p n) s x = result_of W p s x \<and>
   state_after W (interrupt p n) s x = state_after W p s x"
  by (induction p arbitrary: n s x) auto

section \<open>What holds all the way\<close>

text \<open>\<open>always W I p s x\<close>: \<open>I\<close> holds of every state \<open>p\<close> goes through.\<close>

primrec always :: "'s world \<Rightarrow> ('s \<Rightarrow> bool) \<Rightarrow> 'a prog \<Rightarrow> 's \<Rightarrow> ctx \<Rightarrow> bool" where
  "always W I (Ret a) s x = I s"
| "always W I (Raise e) s x = I s"
| "always W I (Op c k) s x = (I s \<and> always W I (k (snd (W s c))) (fst (W s c)) x)"
| "always W I (GetCtx k) s x = always W I (k x) s x"
| "always W I (SetCtx y p) s x = always W I p s y"

lemma always_start: "always W I p s x \<Longrightarrow> I s"
proof (induction p arbitrary: s x)
  case (GetCtx k)
  then show ?case by (meson always.simps(4) rangeI)
qed auto

lemma always_end: "always W I p s x \<Longrightarrow> I (state_after W p s x)"
  by (induction p arbitrary: s x) auto

lemma always_bind:
  "always W I p s x \<Longrightarrow>
   (\<And>a. result_of W p s x = Inr a \<Longrightarrow> always W I (f a) (state_after W p s x) (ctx_after W p s x)) \<Longrightarrow>
   always W I (bind p f) s x"
  by (induction p arbitrary: s x) auto

lemma always_catch:
  "always W I p s x \<Longrightarrow>
   (\<And>e. result_of W p s x = Inl e \<Longrightarrow> always W I (h e) (state_after W p s x) (ctx_after W p s x)) \<Longrightarrow>
   always W I (catch p h) s x"
  by (induction p arbitrary: s x) auto

lemma always_interrupt: "always W I p s x \<Longrightarrow> always W I (interrupt p n) s x"
  by (induction p arbitrary: n s x) (auto dest: always_start)

text \<open>\<open>keeps W I p\<close>: an invariant of every state \<open>p\<close> goes through, from wherever it starts.\<close>

definition keeps :: "'s world \<Rightarrow> ('s \<Rightarrow> bool) \<Rightarrow> 'a prog \<Rightarrow> bool" where
  "keeps W I p \<longleftrightarrow> (\<forall>s x. I s \<longrightarrow> always W I p s x)"

lemma keepsD: "keeps W I p \<Longrightarrow> I s \<Longrightarrow> I (state_after W p s x)"
  by (simp add: keeps_def always_end)

lemma keeps_basic:
  "keeps W I (Ret a)" "keeps W I (Raise e)" "keeps W I (lift_result r)"
  "keeps W I (GetCtx k) \<longleftrightarrow> (\<forall>s x. I s \<longrightarrow> always W I (k x) s x)"
  by (auto simp: keeps_def lift_result_def split: sum.split)

lemma keeps_bind: "keeps W I p \<Longrightarrow> (\<And>a. keeps W I (f a)) \<Longrightarrow> keeps W I (bind p f)"
  unfolding keeps_def by (blast intro: always_bind always_end)

lemma keeps_catch: "keeps W I p \<Longrightarrow> (\<And>e. keeps W I (h e)) \<Longrightarrow> keeps W I (catch p h)"
  unfolding keeps_def by (blast intro: always_catch always_end)

lemma keeps_when_do: "(b \<Longrightarrow> keeps W I p) \<Longrightarrow> keeps W I (when_do b p)"
  by (auto simp: when_do_def keeps_basic)

lemma keeps_interrupt: "keeps W I p \<Longrightarrow> keeps W I (interrupt p n)"
  by (auto simp: keeps_def intro: always_interrupt)

lemmas keeps_steps = keeps_bind keeps_basic(1-3) keeps_when_do

text \<open>A program that issues only commands that keep the invariant keeps it.\<close>

lemma keeps_safe:
  assumes "safe Q E R p" "\<And>s c. I s \<Longrightarrow> Q c \<Longrightarrow> I (fst (W s c))"
  shows "keeps W I p"
proof -
  have "I s \<longrightarrow> always W I p s x" for s x
    using assms(1)
  proof (induction p arbitrary: s x)
    case (Op c k)
    then show ?case by (simp add: assms(2))
  qed auto
  then show ?thesis by (simp add: keeps_def)
qed

end
