(* ===== verification/Read_Cap.thy ===== *)
theory Read_Cap
  imports Agent_Factory
begin

text \<open>
  The cap on concurrent reads: \<open>cap_read_concurrency\<close> of \<^verbatim>\<open>app/worker/runner.py\<close>. Every
  read tool of a run is put behind one semaphore; \<open>capped_tool\<close> holds it while the tool runs.

  The semaphore is that of \<open>asyncio\<close>: a counter and a queue of waiting calls, each with the mark
  that it has been woken (its future is done) but has not run yet. What the event loop does to it is
  a sequence of events; an event that is not enabled is no step.
\<close>

section \<open>Wrapping the tools\<close>

text \<open>All the read tools of the repository are coroutine functions, so every one is wrapped.\<close>

definition cap_read_concurrency :: "read_tool list \<Rightarrow> int \<Rightarrow> agent_tool list" where
  "cap_read_concurrency tools limit =
     map (\<lambda>tool. (tool, if limit \<le> 0 then None else Some limit)) tools"

lemma cap_keeps_tools [simp]: "map fst (cap_read_concurrency tools limit) = tools"
  by (simp add: cap_read_concurrency_def comp_def)

section \<open>The semaphore\<close>

record semaphore =
  sm_value :: nat
  sm_waiters :: "(nat \<times> bool) list"
  sm_running :: "nat list"

text \<open>\<open>asyncio.Semaphore(limit)\<close>, no call running.\<close>

definition new_semaphore :: "nat \<Rightarrow> semaphore" where
  "new_semaphore limit = \<lparr>sm_value = limit, sm_waiters = [], sm_running = []\<rparr>"

text \<open>\<open>_wake_up_next\<close>: the first waiting call that has not been woken gets the slot.\<close>

fun wake_first :: "(nat \<times> bool) list \<Rightarrow> (nat \<times> bool) list option" where
  "wake_first [] = None"
| "wake_first ((i, woken) # ws) =
     (if woken then map_option ((#) (i, woken)) (wake_first ws) else Some ((i, True) # ws))"

definition wake_up_next :: "semaphore \<Rightarrow> semaphore" where
  "wake_up_next sm =
     (case wake_first (sm_waiters sm) of
        None \<Rightarrow> sm
      | Some ws \<Rightarrow> sm\<lparr>sm_value := sm_value sm - 1, sm_waiters := ws\<rparr>)"

text \<open>Calls that arrive behind a woken one have to queue; when it gets its turn, as many as are allowed
  are woken.\<close>

definition wake_as_allowed :: "semaphore \<Rightarrow> semaphore" where
  "wake_as_allowed sm = (wake_up_next ^^ sm_value sm) sm"

definition release :: "semaphore \<Rightarrow> semaphore" where
  "release sm = wake_up_next (sm\<lparr>sm_value := Suc (sm_value sm)\<rparr>)"

definition leave_queue :: "nat \<Rightarrow> semaphore \<Rightarrow> semaphore" where
  "leave_queue i sm = sm\<lparr>sm_waiters := filter (\<lambda>(j, w). j \<noteq> i) (sm_waiters sm)\<rparr>"

text \<open>
  A tool is called; a woken call gets to run; a running tool returns or raises; a waiting call is
  cancelled.
\<close>

datatype cap_event = Call nat | Resume nat | Finish nat | GiveUp nat

fun cap_step :: "cap_event \<Rightarrow> semaphore \<Rightarrow> semaphore option" where
  "cap_step (Call i) sm =
     (if i \<in> set (sm_running sm) \<or> i \<in> fst ` set (sm_waiters sm) then None
      else if 0 < sm_value sm \<and> sm_waiters sm = []
           then Some (sm\<lparr>sm_value := sm_value sm - 1, sm_running := i # sm_running sm\<rparr>)
           else Some (sm\<lparr>sm_waiters := sm_waiters sm @ [(i, False)]\<rparr>))"
| "cap_step (Resume i) sm =
     (if (i, True) \<in> set (sm_waiters sm)
      then Some (wake_as_allowed ((leave_queue i sm)\<lparr>sm_running := i # sm_running sm\<rparr>))
      else None)"
| "cap_step (Finish i) sm =
     (if i \<in> set (sm_running sm)
      then Some (release (sm\<lparr>sm_running := remove1 i (sm_running sm)\<rparr>))
      else None)"
| "cap_step (GiveUp i) sm =
     (if (i, True) \<in> set (sm_waiters sm)
      then Some (wake_as_allowed ((leave_queue i sm)\<lparr>sm_value := Suc (sm_value sm)\<rparr>))
      else if (i, False) \<in> set (sm_waiters sm) then Some (wake_as_allowed (leave_queue i sm))
      else None)"

fun cap_run :: "cap_event list \<Rightarrow> semaphore \<Rightarrow> semaphore option" where
  "cap_run [] sm = Some sm"
| "cap_run (e # es) sm = Option.bind (cap_step e sm) (cap_run es)"

section \<open>The invariant\<close>

text \<open>
  No slot is lost or made up, calls are distinct, the woken calls are the oldest of the queue, and
  while a slot is free no call waits but behind a woken one, whose turn will wake it.
\<close>

definition queue_of :: "nat list \<Rightarrow> nat list \<Rightarrow> (nat \<times> bool) list" where
  "queue_of us vs = map (\<lambda>i. (i, True)) us @ map (\<lambda>i. (i, False)) vs"

definition cap_shape :: "nat \<Rightarrow> semaphore \<Rightarrow> nat list \<Rightarrow> nat list \<Rightarrow> bool" where
  "cap_shape limit sm us vs \<longleftrightarrow>
     sm_waiters sm = queue_of us vs \<and>
     sm_value sm + length (sm_running sm) + length us = limit \<and>
     distinct (sm_running sm @ us @ vs)"

definition cap_inv :: "nat \<Rightarrow> semaphore \<Rightarrow> bool" where
  "cap_inv limit sm \<longleftrightarrow>
     (\<exists>us vs. cap_shape limit sm us vs \<and> (vs = [] \<or> us \<noteq> [] \<or> sm_value sm = 0))"

lemma cap_invI: "cap_shape limit sm us vs \<Longrightarrow> vs = [] \<or> us \<noteq> [] \<or> sm_value sm = 0 \<Longrightarrow> cap_inv limit sm"
  by (auto simp: cap_inv_def)

lemma queue_of_simps [simp]:
  "queue_of [] [] = []"
  "(i, b) \<in> set (queue_of us vs) \<longleftrightarrow> (if b then i \<in> set us else i \<in> set vs)"
  "fst ` set (queue_of us vs) = set us \<union> set vs"
  "filter (\<lambda>(j, w). j \<noteq> i) (queue_of us vs) = queue_of (filter (\<lambda>j. j \<noteq> i) us) (filter (\<lambda>j. j \<noteq> i) vs)"
  "queue_of us vs @ [(i, False)] = queue_of us (vs @ [i])"
  "queue_of us vs = [] \<longleftrightarrow> us = [] \<and> vs = []"
  by (auto simp: queue_of_def filter_map comp_def image_Un image_image)

lemma wake_first_queue:
  "wake_first (queue_of us vs) = (case vs of [] \<Rightarrow> None | i # vs' \<Rightarrow> Some (queue_of (us @ [i]) vs'))"
  by (induction us) (auto simp: queue_of_def split: list.split)

lemma wake_up_next_shape:
  assumes "cap_shape limit sm us vs"
  shows "vs = [] \<and> wake_up_next sm = sm \<or>
     (\<exists>i vs'. vs = i # vs' \<and> sm_value (wake_up_next sm) = sm_value sm - 1 \<and>
        (0 < sm_value sm \<longrightarrow> cap_shape limit (wake_up_next sm) (us @ [i]) vs'))"
  using assms by (cases vs) (auto simp: cap_shape_def wake_up_next_def wake_first_queue)

lemma wake_funpow:
  "sm_value sm = n \<Longrightarrow> cap_shape limit sm us vs \<Longrightarrow> cap_inv limit ((wake_up_next ^^ n) sm)"
proof (induction n arbitrary: sm us vs)
  case 0
  then show ?case by (auto intro: cap_invI)
next
  case (Suc n)
  from wake_up_next_shape [OF Suc.prems(2)] show ?case
  proof (elim disjE exE conjE)
    assume "vs = []" "wake_up_next sm = sm"
    then have "(wake_up_next ^^ Suc n) sm = sm" by (induction n) (auto simp: funpow_swap1)
    with \<open>vs = []\<close> Suc.prems show ?thesis by (auto intro: cap_invI)
  next
    fix i vs'
    assume "sm_value (wake_up_next sm) = sm_value sm - 1"
      "0 < sm_value sm \<longrightarrow> cap_shape limit (wake_up_next sm) (us @ [i]) vs'"
    with Suc show ?thesis by (simp add: funpow_Suc_right del: funpow.simps)
  qed
qed

lemma wake_as_allowed_inv: "cap_shape limit sm us vs \<Longrightarrow> cap_inv limit (wake_as_allowed sm)"
  unfolding wake_as_allowed_def by (rule wake_funpow) simp_all

lemma release_inv:
  assumes "cap_shape limit (sm\<lparr>sm_value := Suc (sm_value sm)\<rparr>) us vs"
  shows "cap_inv limit (release sm)"
  unfolding release_def using wake_up_next_shape [OF assms] assms
  by (elim disjE exE conjE) (auto intro: cap_invI)

lemma length_filter_neq: "distinct xs \<Longrightarrow> i \<in> set xs \<Longrightarrow> Suc (length (filter (\<lambda>j. j \<noteq> i) xs)) = length xs"
  by (induction xs) (auto simp: filter_True intro!: arg_cong [of _ _ length] filter_True)

lemma filter_absent [simp]: "i \<notin> set xs \<Longrightarrow> filter (\<lambda>j. j \<noteq> i) xs = xs"
  by (induction xs) auto

lemma cap_step_keeps_inv:
  assumes "cap_inv limit sm" "cap_step e sm = Some sm'"
  shows "cap_inv limit sm'"
proof -
  obtain us vs where sh: "cap_shape limit sm us vs" and fair: "vs = [] \<or> us \<noteq> [] \<or> sm_value sm = 0"
    using assms(1) by (auto simp: cap_inv_def)
  then have q: "sm_waiters sm = queue_of us vs" by (simp add: cap_shape_def)
  let ?rm = "\<lambda>i. filter (\<lambda>j. j \<noteq> i)"
  show ?thesis
  proof (cases e)
    case (Call i)
    show ?thesis
    proof (cases "0 < sm_value sm \<and> us = [] \<and> vs = []")
      case True
      with sh q assms(2) Call have "cap_shape limit sm' [] []"
        by (auto simp: cap_shape_def split: if_splits)
      then show ?thesis by (rule cap_invI) simp
    next
      case False
      with sh q assms(2) Call have "cap_shape limit sm' us (vs @ [i])" "sm_value sm' = sm_value sm"
        by (auto simp: cap_shape_def split: if_splits)
      then show ?thesis using False fair by (intro cap_invI [of _ _ us "vs @ [i]"]) auto
    qed
  next
    case (Resume i)
    then have i: "i \<in> set us" "sm' = wake_as_allowed ((leave_queue i sm)\<lparr>sm_running := i # sm_running sm\<rparr>)"
      using assms(2) q by (auto split: if_splits)
    with sh length_filter_neq [of us i] show ?thesis unfolding i(2)
      by (intro wake_as_allowed_inv [of _ _ "?rm i us" "?rm i vs"]) (auto simp: cap_shape_def leave_queue_def)
  next
    case (Finish i)
    then have i: "i \<in> set (sm_running sm)" "sm' = release (sm\<lparr>sm_running := remove1 i (sm_running sm)\<rparr>)"
      using assms(2) by (auto split: if_splits)
    have "0 < length (sm_running sm)" using i(1) by (cases "sm_running sm") auto
    with sh i(1) show ?thesis unfolding i(2)
      by (intro release_inv [of _ _ us vs]) (auto simp: cap_shape_def length_remove1)
  next
    case (GiveUp i)
    show ?thesis
    proof (cases "i \<in> set us")
      case True
      with assms(2) GiveUp q have sm': "sm' = wake_as_allowed ((leave_queue i sm)\<lparr>sm_value := Suc (sm_value sm)\<rparr>)"
        by simp
      from sh True length_filter_neq [of us i] show ?thesis unfolding sm'
        by (intro wake_as_allowed_inv [of _ _ "?rm i us" "?rm i vs"]) (auto simp: cap_shape_def leave_queue_def)
    next
      case False
      with assms(2) GiveUp q have sm': "sm' = wake_as_allowed (leave_queue i sm)"
        by (auto split: if_splits)
      from sh False show ?thesis unfolding sm'
        by (intro wake_as_allowed_inv [of _ _ "?rm i us" "?rm i vs"]) (auto simp: cap_shape_def leave_queue_def)
    qed
  qed
qed

lemma new_semaphore_inv: "cap_inv limit (new_semaphore limit)"
  by (rule cap_invI [of _ _ "[]" "[]"]) (simp_all add: cap_shape_def new_semaphore_def)

lemma cap_run_inv: "cap_run es sm = Some sm' \<Longrightarrow> cap_inv limit sm \<Longrightarrow> cap_inv limit sm'"
  by (induction es sm rule: cap_run.induct) (auto split: bind_splits intro: cap_step_keeps_inv)

section \<open>Progress\<close>

text \<open>
  What is left to do: a running tool has to return, a woken call has to run and return, a waiting
  one has to be woken first.
\<close>

definition load :: "semaphore \<Rightarrow> nat" where
  "load sm = length (sm_running sm) + sum_list (map (\<lambda>(i, w). if w then 2 else 3) (sm_waiters sm))"

lemma load_wake: "load (wake_up_next sm) \<le> load sm"
proof -
  have "sum_list (map (\<lambda>(i, w). if w then 2 else 3) ws') \<le> sum_list (map (\<lambda>(i, w). if w then 2 else (3 :: nat)) ws)"
    if "wake_first ws = Some ws'" for ws ws'
    using that by (induction ws arbitrary: ws') (auto split: if_splits)
  then show ?thesis by (auto simp: load_def wake_up_next_def split: option.split)
qed

lemma load_wake_as_allowed: "load (wake_as_allowed sm) \<le> load sm"
proof -
  have "load ((wake_up_next ^^ n) sm) \<le> load sm" for n
    by (induction n) (auto intro: order_trans [OF load_wake])
  then show ?thesis by (simp add: wake_as_allowed_def)
qed

lemma load_leave:
  "(i, b) \<in> set ws \<Longrightarrow>
   sum_list (map (\<lambda>(i, w). if w then 2 else 3) (filter (\<lambda>(j, w). j \<noteq> i) ws)) + 2
     \<le> sum_list (map (\<lambda>(i, w). if w then 2 else (3 :: nat)) ws)"
proof (induction ws)
  case (Cons w ws)
  have le: "sum_list (map (\<lambda>(i, w). if w then 2 else 3) (filter (\<lambda>(j, w). j \<noteq> i) ws))
      \<le> sum_list (map (\<lambda>(i, w). if w then 2 else (3 :: nat)) ws)"
    by (rule sum_list_filter_le_nat)
  obtain j c where w: "w = (j, c)" by fastforce
  show ?case
  proof (cases "(i, b) \<in> set ws")
    case True
    with Cons.IH show ?thesis by (cases "j = i") (auto simp: w)
  next
    case False
    with Cons.prems have "w = (i, b)" by auto
    with le show ?thesis by (cases b) auto
  qed
qed simp

lemma load_step:
  assumes "cap_step e sm = Some sm'" "\<forall>i. e \<noteq> Call i"
  shows "load sm' < load sm"
proof (cases e)
  case (Call i)
  with assms(2) show ?thesis by simp
next
  case (Resume i)
  let ?sm = "(leave_queue i sm)\<lparr>sm_running := i # sm_running sm\<rparr>"
  have "(i, True) \<in> set (sm_waiters sm)" "load sm' \<le> load ?sm"
    using assms(1) Resume load_wake_as_allowed by (auto split: if_splits)
  with load_leave [of i True "sm_waiters sm"] show ?thesis by (simp add: load_def leave_queue_def)
next
  case (Finish i)
  then have "i \<in> set (sm_running sm)"
    "load sm' \<le> load (sm\<lparr>sm_running := remove1 i (sm_running sm), sm_value := Suc (sm_value sm)\<rparr>)"
    using assms(1) load_wake by (auto simp: release_def split: if_splits)
  moreover from this(1) have "length (remove1 i (sm_running sm)) < length (sm_running sm)"
    by (simp add: length_remove1) (cases "sm_running sm"; simp)
  ultimately show ?thesis by (simp add: load_def)
next
  case (GiveUp i)
  have "load ((leave_queue i sm)\<lparr>sm_value := v\<rparr>) = load (leave_queue i sm)" for v by (simp add: load_def)
  with GiveUp obtain b where "(i, b) \<in> set (sm_waiters sm)" "load sm' \<le> load (leave_queue i sm)"
    using assms(1) load_wake_as_allowed [of "leave_queue i sm"]
      load_wake_as_allowed [of "(leave_queue i sm)\<lparr>sm_value := Suc (sm_value sm)\<rparr>"]
    by (auto split: if_splits)
  with load_leave [of i b "sm_waiters sm"] show ?thesis by (simp add: load_def leave_queue_def)
qed

lemma load_run:
  "cap_run es sm = Some sm' \<Longrightarrow> \<forall>e \<in> set es. \<forall>i. e \<noteq> Call i \<Longrightarrow> length es + load sm' \<le> load sm"
proof (induction es sm rule: cap_run.induct)
  case (2 e es sm)
  then obtain s1 where s1: "cap_step e sm = Some s1" "cap_run es s1 = Some sm'"
    by (auto split: bind_splits)
  with 2 load_step [OF s1(1)] show ?case by fastforce
qed simp

lemma cap_not_stuck:
  assumes "cap_inv limit sm" "0 < limit" "sm \<noteq> new_semaphore limit"
  shows "\<exists>i. cap_step (Resume i) sm \<noteq> None \<or> cap_step (Finish i) sm \<noteq> None"
proof -
  obtain us vs where sh: "cap_shape limit sm us vs" "vs = [] \<or> us \<noteq> [] \<or> sm_value sm = 0"
    using assms(1) by (auto simp: cap_inv_def)
  show ?thesis
  proof (cases us)
    case (Cons i us')
    with sh show ?thesis by (intro exI [of _ i]) (auto simp: cap_shape_def)
  next
    case Nil
    have "sm_running sm \<noteq> []"
    proof
      assume idle: "sm_running sm = []"
      with Nil sh assms(2) have "vs = []" "sm_value sm = limit" by (auto simp: cap_shape_def)
      with idle Nil sh assms(3) show False by (simp add: cap_shape_def new_semaphore_def)
    qed
    then show ?thesis by (auto simp: neq_Nil_conv)
  qed
qed

section \<open>Properties\<close>





end
