(* ===== verification/Runner.thy ===== *)
theory Runner
  imports Interrupt Read_Cap Auth
begin

text \<open>
  \<^verbatim>\<open>app/worker/runner.py\<close>: the run of one research job. \<open>run_research_job\<close> is the function of
  that name; the parts of its body are named definitions in the order of the code.

  An attempt is given a deadline (\<open>asyncio.timeout(job_timeout_s)\<close>): it fires after some number of
  the agent's events or of the attempt's calls. Both numbers are arbitrary, and every theorem is for all
  of them; an agent that never ends is stopped by the first.
\<close>

section \<open>Dependencies\<close>

record worker_deps =
  wk_settings :: settings
  wk_adapter :: adapter
  wk_vault :: vault
  wk_crypto :: crypto
  wk_factory :: agent_factory
  wk_build_llm :: "settings \<Rightarrow> chat_model"
  wk_build_fast_llm :: "(settings \<Rightarrow> chat_model option) option"
  wk_json_schema :: "schema \<Rightarrow> dict"

record deadline =
  dl_events :: nat
  dl_calls :: nat

section \<open>Credentials and agent\<close>

definition token_missing :: exn where
  "token_missing = RuntimeError (''staged token missing (expired or purged) '' @ em_dash @ '' cannot act as user'')"

definition resolve_job_credentials :: "worker_deps \<Rightarrow> job_record \<Rightarrow> credentials prog" where
  "resolve_job_credentials dp record =
     (if ad_auth_mode (wk_adapter dp) \<noteq> USER_PAT then lift_result (resolve_credentials (wk_adapter dp) None)
      else
        bind (load_token (wk_settings dp) (job_id record)) (\<lambda>found.
        case found of
          None \<Rightarrow> Raise token_missing
        | Some ciphertext \<Rightarrow>
            bind (vault_decrypt (wk_crypto dp) (wk_vault dp) ciphertext) (\<lambda>token.
            bind (register_secret (Some token)) (\<lambda>_.
            lift_result (resolve_credentials (wk_adapter dp) (Some token))))))"

definition build_agent :: "worker_deps \<Rightarrow> credentials \<Rightarrow> exn + agent" where
  "build_agent dp cr =
     (let cfg = wk_settings dp;
          mdl = wk_build_llm dp cfg;
          tools = cap_read_concurrency (ad_read_tools (wk_adapter dp) cr) (cf_max_concurrent_reads cfg) in
      sbind (render_research_prompt (wk_json_schema dp) (wk_adapter dp)) (\<lambda>instr.
      wk_factory dp mdl tools instr
        (case wk_build_fast_llm dp of Some f \<Rightarrow> f cfg | None \<Rightarrow> None)))"

section \<open>Driving the agent\<close>

text \<open>
  The agent calls a tool by name: it gets the text or the exception. A call of a tool it was not
  given goes nowhere.
\<close>

definition call_tool :: "agent_tool list \<Rightarrow> string \<Rightarrow> string \<Rightarrow> int option \<Rightarrow> (exn + string) prog" where
  "call_tool tools name arg limit =
     (case map_of (map fst tools) name of
        None \<Rightarrow> Ret (Inl (OtherError ''unknown tool''))
      | Some tool \<Rightarrow> catch (bind (tool arg limit) (\<lambda>text. Ret (Inr text))) (\<lambda>e. Ret (Inl e)))"

text \<open>The name in a tool call is a text, or missing.\<close>

definition tool_label :: "json \<Rightarrow> string option" where
  "tool_label name = (case name of JStr t \<Rightarrow> Some t | _ \<Rightarrow> None)"

definition agent_step ::
    "worker_deps \<Rightarrow> string \<Rightarrow> agent_state \<Rightarrow> nat \<Rightarrow> unit prog" where
  "agent_step dp j state steps =
     bind (lift_result (last_tool_name state)) (\<lambda>tool_name.
     bind (set_progress (wk_settings dp) j (tool_label tool_name) steps) (\<lambda>_.
     when_do (truthy tool_name)
       (log_event INFO ''agent_step'' (''tool='' @ py_str tool_name @ '' step='' @ show_nat steps) [])))"

text \<open>\<open>async for state in agent.astream(...)\<close>; the value is the last state, if there was one.\<close>

primrec stream_loop ::
    "nat \<Rightarrow> worker_deps \<Rightarrow> string \<Rightarrow> agent_tool list \<Rightarrow> agent_run \<Rightarrow> nat \<Rightarrow> agent_state option \<Rightarrow>
     agent_state option prog" where
  "stream_loop 0 dp j tools run steps final = Raise TimeoutError"
| "stream_loop (Suc n) dp j tools run steps final =
     (case run of
        RunEnds \<Rightarrow> Ret final
      | RunFails e \<Rightarrow> Raise e
      | RunCalls name arg limit k \<Rightarrow>
          bind (call_tool tools name arg limit) (\<lambda>r. stream_loop n dp j tools (k r) steps final)
      | RunState state rest \<Rightarrow>
          bind (is_cancel_requested (wk_settings dp) j) (\<lambda>cancelled.
          if cancelled then Raise JobCancelled
          else bind (agent_step dp j state (Suc steps)) (\<lambda>_.
               stream_loop n dp j tools rest (Suc steps) (Some state))))"

definition final_text :: "agent_state option \<Rightarrow> exn + string" where
  "final_text final =
     (case final of
        Some (Some messages) \<Rightarrow>
          if messages = [] then Inl (RuntimeError ''agent produced no output'')
          else message_text (last messages)
      | _ \<Rightarrow> Inl (RuntimeError ''agent produced no output''))"

definition stream_agent :: "worker_deps \<Rightarrow> deadline \<Rightarrow> string \<Rightarrow> agent \<Rightarrow> job_record \<Rightarrow> string prog" where
  "stream_agent dp dl j ag record =
     interrupt
       (bind (stream_loop (dl_events dl) dp j (ag_tools ag) (ag_run ag (render_task record)) 0 None)
          (\<lambda>final. lift_result (final_text final)))
       (dl_calls dl)"

section \<open>Proposals\<close>

definition new_proposal ::
    "worker_deps \<Rightarrow> job_record \<Rightarrow> time \<Rightarrow> string \<Rightarrow> agent_proposed_action \<Rightarrow> proposed_action" where
  "new_proposal dp record expires_at a candidate =
     \<lparr>pa_action_id = a, pa_action_type = ap_action_type candidate, pa_target = ap_target candidate,
      pa_payload = ap_payload candidate, pa_preview = ap_preview candidate,
      pa_preconditions = ap_preconditions candidate, pa_expires_at = expires_at,
      pa_editable_fields = sort (remdups (ad_editable (wk_adapter dp) (ap_action_type candidate))),
      pa_correlation_id = job_correlation_id record\<rparr>"

definition stage_proposal ::
    "worker_deps \<Rightarrow> job_record \<Rightarrow> proposed_action \<Rightarrow> unit prog" where
  "stage_proposal dp record action =
     bind utcnow (\<lambda>now.
     bind (save_proposal (wk_settings dp)
             \<lparr>sp_action = action, sp_job_id = job_id record, sp_session_id = job_session_id record,
              sp_consumer_id = job_consumer_id record, sp_principal_hash = job_principal_hash record,
              sp_created_at = now\<rparr>) (\<lambda>_.
     log_event INFO ''proposal_created'' (''action_type='' @ pa_action_type action)
       [(''action_id'', pa_action_id action)]))"

definition rejected_payload :: "exn \<Rightarrow> bool" where
  "rejected_payload e =
     (case e of UnsupportedActionError t \<Rightarrow> True | PayloadValidationError t errs \<Rightarrow> True | _ \<Rightarrow> False)"

fun persist_loop ::
    "worker_deps \<Rightarrow> job_record \<Rightarrow> time \<Rightarrow> agent_proposed_action list \<Rightarrow> proposed_action list \<Rightarrow>
     proposed_action list prog" where
  "persist_loop dp record expires_at [] proposals = Ret proposals"
| "persist_loop dp record expires_at (candidate # rest) proposals =
     (case validate_payload (wk_adapter dp) (ap_action_type candidate) (ap_payload candidate) of
        Inl e \<Rightarrow>
          if rejected_payload e
          then bind (log_event WARNING ''proposal_rejected'' (ap_action_type candidate @ '': '' @ exn_name e) [])
                 (\<lambda>_. persist_loop dp record expires_at rest proposals)
          else Raise e
      | Inr _ \<Rightarrow>
          bind uuid4 (\<lambda>a.
          bind (stage_proposal dp record (new_proposal dp record expires_at a candidate)) (\<lambda>_.
          persist_loop dp record expires_at rest
            (proposals @ [new_proposal dp record expires_at a candidate]))))"

definition persist_proposals ::
    "worker_deps \<Rightarrow> job_record \<Rightarrow> agent_output \<Rightarrow> proposed_action list prog" where
  "persist_proposals dp record out =
     bind utcnow (\<lambda>now.
     persist_loop dp record (now + cf_proposal_ttl_s (wk_settings dp)) (ao_proposed_actions out) [])"

section \<open>The run\<close>

definition result_doc :: "agent_output \<Rightarrow> proposed_action list \<Rightarrow> job_result_doc" where
  "result_doc out proposals =
     \<lparr>rd_findings = \<lparr>fi_summary = ao_summary out, fi_sources = ao_sources out, fi_details = ao_details out\<rparr>,
      rd_proposed_actions = proposals\<rparr>"

text \<open>The body of the \<open>try\<close>.\<close>

definition attempt_job :: "worker_deps \<Rightarrow> deadline \<Rightarrow> string \<Rightarrow> job_record \<Rightarrow> int \<Rightarrow> unit prog" where
  "attempt_job dp dl j record started =
     bind (resolve_job_credentials dp record) (\<lambda>cr.
     bind (lift_result (build_agent dp cr)) (\<lambda>ag.
     bind (stream_agent dp dl j ag record) (\<lambda>text.
     bind (parse_agent_output text) (\<lambda>out.
     bind (persist_proposals dp record out) (\<lambda>proposals.
     bind (save_result (wk_settings dp) j (result_doc out proposals)) (\<lambda>_.
     bind (transition (wk_settings dp) j COMPLETED None None) (\<lambda>_.
     bind perf_counter (\<lambda>finished.
     log_event INFO ''job_completed'' []
       [(''status'', ''completed''), (''duration_ms'', show_int (round_div (finished - started) 1000))]))))))))"

text \<open>Its handlers.\<close>

definition fail_job :: "worker_deps \<Rightarrow> string \<Rightarrow> error_code \<Rightarrow> string \<Rightarrow> unit prog" where
  "fail_job dp j code msg =
     bind (transition (wk_settings dp) j FAILED None (Some \<lparr>je_code = code, je_message = msg\<rparr>)) (\<lambda>_. Ret ())"

definition attempt_failed :: "worker_deps \<Rightarrow> string \<Rightarrow> job_record \<Rightarrow> int \<Rightarrow> exn \<Rightarrow> unit prog" where
  "attempt_failed dp j record attempt exc =
     (case exc of
        TimeoutError \<Rightarrow>
          bind (fail_job dp j JOB_TIMEOUT
                  (''research exceeded '' @ show_int (cf_job_timeout_s (wk_settings dp)) @ ''s'')) (\<lambda>_.
          log_event ERROR ''job_failed'' ''job timeout'' [(''status'', ''failed'')])
      | JobCancelled \<Rightarrow>
          bind (transition (wk_settings dp) j CANCELLED None None) (\<lambda>_.
          log_event INFO ''job_cancelled'' [] [(''status'', ''cancelled'')])
      | _ \<Rightarrow>
          if attempt < job_max_attempts record
          then bind (log_event WARNING ''job_attempt_failed''
                      (''attempt '' @ show_int attempt @ ''/'' @ show_int (job_max_attempts record) @ '': '' @
                       exn_name exc) []) (\<lambda>_.
               Raise (RetryableJobError (exn_str exc)))
          else bind (fail_job dp j INTERNAL_ERROR
                      (''research failed after '' @ show_int attempt @ '' attempts ('' @ exn_name exc @ '')'')) (\<lambda>_.
               emit_log ERROR ''job_failed'' ''job failed'' [(''status'', ''failed'')]))"

definition job_bindings :: "string \<Rightarrow> job_record \<Rightarrow> bindings" where
  "job_bindings j record =
     \<lparr>bd_correlation_id = Some (job_correlation_id record), bd_request_id = None, bd_job_id = Some j,
      bd_action_id = None, bd_consumer_id = Some (job_consumer_id record)\<rparr>"

definition start_attempt :: "worker_deps \<Rightarrow> deadline \<Rightarrow> string \<Rightarrow> int \<Rightarrow> unit prog" where
  "start_attempt dp dl j attempt =
     bind (transition (wk_settings dp) j RUNNING (Some attempt) None) (\<lambda>record.
     bind perf_counter (\<lambda>started.
     bind (log_event INFO ''job_started'' [] [(''status'', ''running'')]) (\<lambda>_.
     catch (attempt_job dp dl j record started) (attempt_failed dp j record attempt))))"

definition run_research_job :: "worker_deps \<Rightarrow> deadline \<Rightarrow> string \<Rightarrow> int \<Rightarrow> unit prog" where
  "run_research_job dp dl j attempt =
     bind (get_job (wk_settings dp) j) (\<lambda>found.
     case found of
       None \<Rightarrow> log_event WARNING ''job_record_missing'' [] [(''job_id'', j)]
     | Some record \<Rightarrow>
         bound_context (job_bindings j record)
           (if job_status record \<in> terminal_states then Ret ()
            else bind (is_cancel_requested (wk_settings dp) j) (\<lambda>cancelled.
              if cancelled
              then bind (transition (wk_settings dp) j CANCELLED None None) (\<lambda>_. Ret ())
              else start_attempt dp dl j attempt)))"

section \<open>The commands of a run, in every environment\<close>

definition worker_cmd :: "settings \<Rightarrow> (proposed_action \<Rightarrow> bool) \<Rightarrow> (http_req \<Rightarrow> bool) \<Rightarrow> cmd \<Rightarrow> bool" where
  "worker_cmd cfg P mut c \<longleftrightarrow> store_cmd cfg P c \<or> vault_cmd c \<or> reading mut c"

text \<open>A proposal whose payload satisfies the schema of its action.\<close>

definition executable_proposal :: "adapter \<Rightarrow> proposed_action \<Rightarrow> bool" where
  "executable_proposal ad a \<longleftrightarrow> valid_payload ad (pa_action_type a) (pa_payload a)"

lemma safe_store_worker:
  "safe (store_cmd cfg P) E R p \<Longrightarrow> safe (worker_cmd cfg P mut) E R p"
  "safe vault_cmd E R p \<Longrightarrow> safe (worker_cmd cfg P mut) E R p"
  "safe (reading mut) E R p \<Longrightarrow> safe (worker_cmd cfg P mut) E R p"
  by (erule safe_mono, auto simp: worker_cmd_def)+

lemma safe_simple_worker:
  "safe (worker_cmd cfg P mut) (\<lambda>_. True) (\<lambda>_. True) (log_event l e m f)"
  "safe (worker_cmd cfg P mut) (\<lambda>_. True) (\<lambda>_. True) (emit_log l e m f)"
  "safe (worker_cmd cfg P mut) (\<lambda>_. True) (\<lambda>_. True) (register_secret v)"
  "safe (worker_cmd cfg P mut) (\<lambda>_. True) (\<lambda>_. True) utcnow"
  "safe (worker_cmd cfg P mut) (\<lambda>_. True) (\<lambda>_. True) perf_counter"
  "safe (worker_cmd cfg P mut) (\<lambda>_. True) (\<lambda>_. True) uuid4"
  "safe (worker_cmd cfg P mut) (\<lambda>_. True) (\<lambda>_. True) (lift_result r)"
  by (auto simp: worker_cmd_def log_event_def register_secret_def when_do_def call_defs
      split: reply.split option.split intro!: safe_lift_result sum.split [THEN iffD2])

locale worker =
  fixes dp :: worker_deps and mut :: "http_req \<Rightarrow> bool"
  assumes adapter_contract: "domain_adapter (wk_adapter dp) mut"
    and builder_contract: "agent_builder (wk_factory dp)"
    and settings_valid: "settings_ok (wk_settings dp)"
begin

abbreviation allowed :: "cmd \<Rightarrow> bool" where
  "allowed \<equiv> worker_cmd (wk_settings dp) (executable_proposal (wk_adapter dp)) mut"

lemmas safe_steps_worker = safe_bind [where R = "\<lambda>_. True"] safe_simple_worker
  safe_store_worker(1) [OF safe_store_reads(1)] safe_store_worker(1) [OF safe_store_reads(3)]
  safe_store_worker(1) [OF safe_store_reads(6)] safe_store_worker(1) [OF safe_transition]
  safe_store_worker(1) [OF safe_store_writes(10) [OF settings_valid]]
  safe_store_worker(2) [OF safe_vault_decrypt]

lemma safe_credentials: "safe allowed (\<lambda>_. True) (\<lambda>_. True) (resolve_job_credentials dp record)"
  by (auto simp: resolve_job_credentials_def intro!: safe_steps_worker split: option.split)

lemma built_tools:
  "build_agent dp cr = Inr ag \<Longrightarrow> map fst (ag_tools ag) = ad_read_tools (wk_adapter dp) cr"
  using agent_builder.builds_with_tools [OF builder_contract]
  by (auto simp: build_agent_def Let_def sbind_def split: sum.splits)

lemma safe_call_tool:
  assumes "map fst tools = ad_read_tools (wk_adapter dp) cr"
  shows "safe (reading mut) (\<lambda>_. True) (\<lambda>_. True) (call_tool tools name arg limit)"
proof -
  have "safe (reading mut) (\<lambda>_. True) (\<lambda>_. True) (tool arg limit)"
    if "map_of (map fst tools) name = Some tool" for tool
    using that assms domain_adapter.tools_read [OF adapter_contract, of tool cr]
    by (force dest: map_of_SomeD)
  then show ?thesis
    by (auto simp: call_tool_def split: option.split
        intro!: safe_bind [where R = "\<lambda>_. True"] safe_catch [where E = "\<lambda>_. True"])
qed

lemma safe_agent_step: "safe allowed (\<lambda>_. True) (\<lambda>_. True) (agent_step dp j st n)"
  by (auto simp: agent_step_def when_do_def intro!: safe_steps_worker)

lemma safe_stream_loop:
  assumes "map fst tools = ad_read_tools (wk_adapter dp) cr"
  shows "safe allowed (\<lambda>_. True) (\<lambda>_. True) (stream_loop n dp j tools run steps final)"
proof (induction n arbitrary: run steps final)
  case (Suc n)
  then show ?case
    using safe_store_worker(3) [OF safe_call_tool [OF assms]]
    by (auto intro!: safe_steps_worker safe_agent_step safe_bind [where R = "\<lambda>_. True"] split: agent_run.split)
qed simp

lemma safe_stream_agent:
  assumes "map fst (ag_tools ag) = ad_read_tools (wk_adapter dp) cr"
  shows "safe allowed (\<lambda>_. True) (\<lambda>_. True) (stream_agent dp dl j ag record)"
  unfolding stream_agent_def
  by (intro safe_interrupt safe_bind [where R = "\<lambda>_. True"] safe_stream_loop [OF assms] safe_simple_worker) simp_all

lemma safe_persist_loop:
  "list_all (executable_proposal (wk_adapter dp)) acc \<Longrightarrow>
   safe allowed (\<lambda>_. True) (list_all (executable_proposal (wk_adapter dp)))
     (persist_loop dp record t cs acc)"
proof (induction cs arbitrary: acc)
  case (Cons c cs)
  show ?case
  proof (cases "validate_payload (wk_adapter dp) (ap_action_type c) (ap_payload c)")
    case (Inl e)
    with Cons show ?thesis by (auto intro!: safe_steps_worker)
  next
    case (Inr v)
    have ok: "executable_proposal (wk_adapter dp) (new_proposal dp record t a c)" for a
      using Inr by (simp add: executable_proposal_def new_proposal_def valid_payload_def)
    have "safe allowed (\<lambda>_. True) (\<lambda>_. True) (stage_proposal dp record (new_proposal dp record t a c))" for a
      unfolding stage_proposal_def using ok
      by (intro safe_steps_worker safe_store_worker(1) [OF safe_store_writes(4) [OF settings_valid]]) simp
    with Inr Cons ok show ?thesis
      by (auto intro!: safe_bind [where R = "\<lambda>_. True"] safe_simple_worker)
  qed
qed simp

lemma safe_persist_proposals:
  "safe allowed (\<lambda>_. True) (list_all (executable_proposal (wk_adapter dp))) (persist_proposals dp record out)"
  unfolding persist_proposals_def
  by (intro safe_bind [where R = "\<lambda>_. True"] safe_simple_worker safe_persist_loop) simp

lemma safe_parse: "safe allowed (\<lambda>_. True) (\<lambda>_. True) (parse_agent_output text)"
  by (auto simp: parse_agent_output_def intro!: safe_steps_worker split: option.split)

lemma safe_save_result:
  "list_all (executable_proposal (wk_adapter dp)) ps \<Longrightarrow>
   safe allowed (\<lambda>_. True) (\<lambda>_. True) (save_result (wk_settings dp) j (result_doc out ps))"
  by (rule safe_store_worker(1) [OF safe_store_writes(3) [OF settings_valid]]) (simp add: result_doc_def)

lemma safe_attempt_job: "safe allowed (\<lambda>_. True) (\<lambda>_. True) (attempt_job dp dl j record started)"
proof -
  let ?E = "executable_proposal (wk_adapter dp)"
  have tail: "safe allowed (\<lambda>_. True) (\<lambda>_. True)
      (bind (persist_proposals dp record out) (\<lambda>proposals.
       bind (save_result (wk_settings dp) j (result_doc out proposals)) (\<lambda>_.
       bind (transition (wk_settings dp) j COMPLETED None None) (\<lambda>_.
       bind perf_counter (\<lambda>finished. log_event INFO ''job_completed'' [] (f finished))))))" for out f
    by (rule safe_bind [OF safe_persist_proposals], intro safe_steps_worker safe_save_result)
  have built: "safe allowed (\<lambda>_. True) (\<lambda>ag. map fst (ag_tools ag) = ad_read_tools (wk_adapter dp) cr)
      (lift_result (build_agent dp cr))" for cr
    by (rule safe_lift_result) (auto split: sum.split dest: built_tools)
  show ?thesis
    unfolding attempt_job_def
    by (intro safe_bind [OF safe_credentials] safe_bind [OF built] safe_bind [OF safe_stream_agent]
        safe_bind [OF safe_parse] tail)
qed

lemma safe_attempt_failed:
  "safe allowed (\<lambda>_. True) (\<lambda>_. True) (attempt_failed dp j record attempt e)"
  by (auto simp: attempt_failed_def fail_job_def intro!: safe_steps_worker split: exn.split)

lemma safe_run_research_job: "safe allowed (\<lambda>_. True) (\<lambda>_. True) (run_research_job dp dl j attempt)"
proof -
  have "safe allowed (\<lambda>_. True) (\<lambda>_. True) (start_attempt dp dl j attempt)"
    unfolding start_attempt_def
    by (intro safe_steps_worker safe_catch [OF safe_attempt_job safe_attempt_failed])
  then show ?thesis
    by (auto simp: run_research_job_def bound_context_def finally_do_def modify_ctx_def
        intro!: safe_steps_worker safe_catch [where E = "\<lambda>_. True"] split: option.split sum.split)
qed

end

end
