(* ===== verification/Job_Attempt.thy ===== *)
theory Job_Attempt
  imports Runner
begin

text \<open>
  What one attempt of a research job does to the store, when Redis, the clock and the generator of
  identifiers answer (the locale \<open>platform\<close>) and nobody else writes meanwhile: for every agent,
  every adapter that keeps its contract, every deadline, and whatever the vault and the target
  answer. The theory also states what holds in every environment: an attempt never changes the target
  system.
\<close>

text \<open>The two halves of the body of the attempt: the research up to the saved result, and the completion.\<close>

definition research :: "worker_deps \<Rightarrow> deadline \<Rightarrow> string \<Rightarrow> job_record \<Rightarrow> unit prog" where
  "research dp dl j record =
     bind (resolve_job_credentials dp record) (\<lambda>cr.
     bind (lift_result (build_agent dp cr)) (\<lambda>ag.
     bind (stream_agent dp dl j ag record) (\<lambda>text.
     bind (parse_agent_output text) (\<lambda>out.
     bind (persist_proposals dp record out) (\<lambda>proposals.
     save_result (wk_settings dp) j (result_doc out proposals))))))"

definition completion :: "worker_deps \<Rightarrow> string \<Rightarrow> int \<Rightarrow> unit prog" where
  "completion dp j started =
     bind (transition (wk_settings dp) j COMPLETED None None) (\<lambda>_.
     bind perf_counter (\<lambda>finished.
     log_event INFO ''job_completed'' []
       [(''status'', ''completed''), (''duration_ms'', show_int (round_div (finished - started) 1000))]))"

text \<open>
  What an attempt promises, from the abstract store before to the one after. A job that has ended is left
  alone; one whose cancellation was asked for is cancelled; otherwise the attempt ends the job, with
  its token and its flag gone and, if completed, its result stored, or it asks for a retry, which
  it may only do while attempts are left, and then the job is still running and keeps its token.
\<close>

definition ended_as :: "view \<Rightarrow> string \<Rightarrow> job_status \<Rightarrow> bool" where
  "ended_as v j t \<longleftrightarrow>
     (\<exists>r. vw_job v j = Some r \<and> job_status r = t) \<and> vw_token v j = None \<and> \<not> vw_cancel v j"

definition attempt_outcome :: "int \<Rightarrow> string \<Rightarrow> job_record \<Rightarrow> view \<Rightarrow> view \<Rightarrow> exn + unit \<Rightarrow> bool" where
  "attempt_outcome n j r v v' res \<longleftrightarrow>
     (if job_status r \<in> terminal_states then res = Inr () \<and> v' = v
      else if vw_cancel v j then res = Inr () \<and> ended_as v' j CANCELLED
      else
        case res of
          Inr u \<Rightarrow> (\<exists>t \<in> terminal_states. ended_as v' j t \<and> (t = COMPLETED \<longrightarrow> vw_result v' j \<noteq> None))
        | Inl e \<Rightarrow> (\<exists>msg. e = RetryableJobError msg) \<and> n < job_max_attempts r \<and>
            (\<exists>r'. vw_job v' j = Some r' \<and> job_status r' = RUNNING \<and>
               job_max_attempts r' = job_max_attempts r) \<and> vw_token v' j = vw_token v j)"

locale job_attempt = platform W look + worker dp mut
  for W :: "'s \<Rightarrow> cmd \<Rightarrow> 's \<times> reply" and look :: "'s \<Rightarrow> string \<Rightarrow> (rval \<times> int option) option"
    and dp :: worker_deps and mut :: "http_req \<Rightarrow> bool"
begin

abbreviation cfg :: settings where
  "cfg \<equiv> wk_settings dp"

abbreviation store :: "'s \<Rightarrow> view" where
  "store s \<equiv> view_of cfg (look s)"

abbreviation typed :: "'s \<Rightarrow> bool" where
  "typed s \<equiv> well_typed cfg (executable_proposal (wk_adapter dp)) (look s)"

text \<open>The job is running, and its staged token is still what it was.\<close>

definition busy :: "string \<Rightarrow> string option \<Rightarrow> int \<Rightarrow> 's \<Rightarrow> bool" where
  "busy j tok m s \<longleftrightarrow>
     typed s \<and> vw_token (store s) j = tok \<and>
     (\<exists>r. vw_job (store s) j = Some r \<and> job_status r = RUNNING \<and> job_max_attempts r = m)"

lemma busy_look: "look s' = look s \<Longrightarrow> busy j tok m s' = busy j tok m s"
  by (simp add: busy_def)

text \<open>Commands that cannot disturb a running job.\<close>

definition harmless :: "cmd \<Rightarrow> bool" where
  "harmless c \<longleftrightarrow> \<not> writes c \<or>
     (\<exists>k i v t. c = RSetEx (key_of cfg k i) v t \<and> 0 < t \<and> k \<in> {''result'', ''proposal''} \<and>
        fits (executable_proposal (wk_adapter dp)) k i v)"

lemma harmless_keeps: "busy j tok m s \<Longrightarrow> harmless c \<Longrightarrow> busy j tok m (fst (W s c))"
proof (unfold harmless_def, elim disjE exE conjE)
  assume b: "busy j tok m s" and "\<not> writes c"
  then show ?thesis using busy_look [OF look_other] by simp
next
  fix k i v t
  assume b: "busy j tok m s" and c: "c = RSetEx (key_of cfg k i) v t" "0 < t" "k \<in> {''result'', ''proposal''}"
    "fits (executable_proposal (wk_adapter dp)) k i v"
  then have "well_typed cfg (executable_proposal (wk_adapter dp)) (look (fst (W s c)))"
    unfolding c(1) look_set_ex [OF c(2)] busy_def by (intro well_typed_upd) auto
  with b c show ?thesis by (auto simp: busy_def look_set_ex view_of_update)
qed

lemma keeps_harmless: "safe harmless E R p \<Longrightarrow> keeps W (busy j tok m) p"
  by (erule keeps_safe) (rule harmless_keeps)

lemma harmless_simps [simp]: "\<not> writes c \<Longrightarrow> harmless c"
  by (simp add: harmless_def)

lemma keeps_silent: "safe (\<lambda>c. \<not> writes c) E R p \<Longrightarrow> keeps W (busy j tok m) p"
  by (rule keeps_harmless, erule safe_mono) auto

lemma keeps_quiet:
  "keeps W (busy j tok m) (log_event l e msg f)" "keeps W (busy j tok m) utcnow"
  "keeps W (busy j tok m) uuid4" "keeps W (busy j tok m) perf_counter"
  "keeps W (busy j tok m) (register_secret v)" "keeps W (busy j tok m) (load_token c i)"
  "keeps W (busy j tok m) (is_cancel_requested c i)" "keeps W (busy j tok m) (parse_agent_output text)"
  by (rule keeps_silent [where E = "\<lambda>_. True" and R = "\<lambda>_. True"],
      auto simp: log_event_def call_defs register_secret_def when_do_def load_token_def
        is_cancel_requested_def parse_agent_output_def
      intro!: safe_bind [where R = "\<lambda>_. True"] split: reply.split option.split rval.split)+

lemma keeps_vault: "keeps W (busy j tok m) (vault_decrypt c v b)"
proof (rule keeps_silent)
  show "safe (\<lambda>c. \<not> writes c) (\<lambda>_. True) (\<lambda>_. True) (vault_decrypt c v b)"
    by (rule safe_mono [OF safe_vault_decrypt]) (auto elim: vault_cmd.elims)
qed

lemma keeps_tool:
  "map fst tools = ad_read_tools (wk_adapter dp) cr \<Longrightarrow>
   keeps W (busy j tok m) (call_tool tools name arg limit)"
  by (rule keeps_silent [OF safe_mono [OF safe_call_tool]])
    (auto simp: reading_def elim: adapter_cmd.elims)

lemma keeps_set_progress: "keeps W (busy j tok m) (set_progress cfg j lt n)"
proof -
  have "always W (busy j tok m) (set_progress cfg j lt n) s x" if b: "busy j tok m s" for s x
  proof -
    obtain r where r: "vw_job (store s) j = Some r" "job_status r = RUNNING" "job_max_attempts r = m"
      using b by (auto simp: busy_def)
    let ?r = "r\<lparr>job_progress := \<lparr>pr_last_tool = lt, pr_steps = n\<rparr>\<rparr>"
    have t: "typed s" using b by (simp add: busy_def)
    have id: "job_id r = j"
      using r(1) typed_value [OF t, of "''job''" j] by (auto simp: view_of_def split: option.splits rval.splits)
    have get: "always W (busy j tok m) (get_job cfg j) s x"
    proof -
      have "keeps W (busy j tok m) (get_job cfg j)"
        by (rule keeps_silent [where E = "\<lambda>_. True" and R = "\<lambda>_. True"])
          (auto simp: get_job_def call_defs intro!: safe_bind [where R = "\<lambda>_. True"]
            split: reply.split option.split rval.split list.split)
      with b show ?thesis by (simp add: keeps_def)
    qed
    have save: "always W (busy j tok m) (save_job cfg ?r) s' x'" if same: "look s' = look s" for s' x'
    proof -
      have "busy j tok m (fst (W s' (RSetKeepTtl (key_of cfg ''job'' j) (VJob ?r))))"
        using b same r id by (auto simp: busy_def look_set_keepttl view_of_update intro!: well_typed_upd)
      then show ?thesis
        using busy_look [OF same] b by (simp add: save_job_def redis_set_keepttl_def id set_keepttl_reply)
    qed
    show ?thesis
      unfolding set_progress_def
      by (rule always_bind [OF get]) (auto simp: run_get_job(1) [OF t] run_get_job(2,3) r intro!: save)
  qed
  then show ?thesis by (simp add: keeps_def)
qed

text \<open>The agent at work, up to the saved result, leaves the job running.\<close>

lemma keeps_credentials: "keeps W (busy j tok m) (resolve_job_credentials dp record)"
  by (auto simp: resolve_job_credentials_def intro!: keeps_steps keeps_quiet keeps_vault split: option.split)

lemma keeps_stream_loop:
  assumes "map fst tools = ad_read_tools (wk_adapter dp) cr"
  shows "keeps W (busy j tok m) (stream_loop n dp j tools run steps final)"
proof (induction n arbitrary: run steps final)
  case 0
  then show ?case by (simp add: keeps_basic)
next
  case (Suc n)
  have "keeps W (busy j tok m) (agent_step dp j st k)" for st k
    unfolding agent_step_def by (intro keeps_steps keeps_set_progress keeps_quiet)
  then show ?case
    using Suc by (auto intro!: keeps_steps keeps_quiet keeps_tool [OF assms] split: agent_run.split)
qed

lemma keeps_stream_agent:
  "map fst (ag_tools ag) = ad_read_tools (wk_adapter dp) cr \<Longrightarrow>
   keeps W (busy j tok m) (stream_agent dp dl j ag record)"
  unfolding stream_agent_def by (intro keeps_interrupt keeps_steps keeps_stream_loop)

lemma safe_harmless_save:
  "executable_proposal (wk_adapter dp) (sp_action p) \<Longrightarrow>
   safe harmless (\<lambda>_. True) (\<lambda>_. True) (save_proposal cfg p)"
  "list_all (executable_proposal (wk_adapter dp)) ps \<Longrightarrow>
   safe harmless (\<lambda>_. True) (\<lambda>_. True) (save_result cfg i (result_doc out ps))"
  using settings_valid
  by (auto simp: save_proposal_def save_result_def redis_set_ex_def harmless_def result_doc_def split: reply.split)

lemma safe_harmless_persist:
  "list_all (executable_proposal (wk_adapter dp)) acc \<Longrightarrow>
   safe harmless (\<lambda>_. True) (list_all (executable_proposal (wk_adapter dp))) (persist_loop dp record t cs acc)"
proof (induction cs arbitrary: acc)
  case (Cons c cs)
  have quiet: "safe harmless (\<lambda>_. True) (\<lambda>_. True) (log_event l e msg f)"
    "safe harmless (\<lambda>_. True) (\<lambda>_. True) utcnow" "safe harmless (\<lambda>_. True) (\<lambda>_. True) uuid4" for l e msg f
    by (auto simp: log_event_def call_defs split: reply.split)
  show ?case
  proof (cases "validate_payload (wk_adapter dp) (ap_action_type c) (ap_payload c)")
    case (Inl e)
    with Cons show ?thesis by (auto intro!: safe_bind [where R = "\<lambda>_. True"] quiet)
  next
    case (Inr v)
    have ok: "executable_proposal (wk_adapter dp) (new_proposal dp record t a c)" for a
      using Inr by (simp add: executable_proposal_def new_proposal_def valid_payload_def)
    have "safe harmless (\<lambda>_. True) (\<lambda>_. True) (stage_proposal dp record (new_proposal dp record t a c))" for a
      unfolding stage_proposal_def using ok
      by (intro safe_bind [where R = "\<lambda>_. True"] quiet safe_harmless_save) simp
    with Inr Cons ok show ?thesis by (auto intro!: safe_bind [where R = "\<lambda>_. True"] quiet)
  qed
qed simp

lemma attempt_split: "attempt_job dp dl j record started = bind (research dp dl j record) (\<lambda>_. completion dp j started)"
  by (simp add: attempt_job_def research_def completion_def)

text \<open>A program that never writes the job keeps it busy, also when what follows depends on a built agent.\<close>

lemma keeps_built:
  assumes "\<And>ag. map fst (ag_tools ag) = ad_read_tools (wk_adapter dp) cr \<Longrightarrow> keeps W (busy j tok m) (f ag)"
  shows "keeps W (busy j tok m) (bind (lift_result (build_agent dp cr)) f)"
  using assms built_tools by (cases "build_agent dp cr") (auto simp: lift_result_def keeps_basic)

lemma keeps_persist_save:
  "keeps W (busy j tok m)
     (bind (persist_proposals dp record out) (\<lambda>ps. save_result cfg j (result_doc out ps)))"
proof -
  have "safe harmless (\<lambda>_. True) (\<lambda>_. True)
      (bind (persist_loop dp record t cs []) (\<lambda>ps. save_result cfg j (result_doc out ps)))" for t cs
    by (rule safe_bind [OF safe_harmless_persist safe_harmless_save(2)]) simp_all
  then show ?thesis
    unfolding persist_proposals_def bind_assoc by (intro keeps_bind [OF keeps_quiet(2)] keeps_harmless)
qed

lemma keeps_research: "keeps W (busy j tok m) (research dp dl j record)"
  unfolding research_def
  by (intro keeps_bind [OF keeps_credentials] keeps_built keeps_bind [OF keeps_stream_agent]
      keeps_bind [OF keeps_quiet(8)] keeps_persist_save)

text \<open>If it succeeds the result is there.\<close>

lemma research_saves:
  assumes "result_of W (research dp dl j record) s x = Inr u"
  shows "vw_result (store (state_after W (research dp dl j record) s x)) j \<noteq> None"
proof -
  have "runs W (research dp dl j record) s x u (state_after W (research dp dl j record) s x)
      (ctx_after W (research dp dl j record) s x)"
    using assms by (simp add: runs_iff)
  then obtain s1 x1 out ps where
    "runs W (save_result cfg j (result_doc out ps)) s1 x1 u (state_after W (research dp dl j record) s x)
       (ctx_after W (research dp dl j record) s x)"
    unfolding research_def runs_bind by blast
  then have "look (state_after W (research dp dl j record) s x) =
      (look s1)(key_of cfg ''result'' j \<mapsto> (VResult (result_doc out ps), Some (cf_result_ttl_s cfg)))"
    using run_save_result(2) [OF settings_valid, of j "result_doc out ps" s1 x1] by (simp add: runs_def)
  then show ?thesis by (simp add: view_of_update)
qed

text \<open>A running job can be moved to any terminal state.\<close>

lemma end_job:
  assumes "busy j tok m s" "t \<in> terminal_states"
  shows "\<exists>r. result_of W (transition cfg j t a e) s x = Inr r \<and> job_status r = t \<and>
    vw_job (store (state_after W (transition cfg j t a e) s x)) j = Some r \<and>
    vw_token (store (state_after W (transition cfg j t a e) s x)) j = None \<and>
    \<not> vw_cancel (store (state_after W (transition cfg j t a e) s x)) j \<and>
    vw_result (store (state_after W (transition cfg j t a e) s x)) = vw_result (store s)"
proof -
  obtain r where r: "vw_job (store s) j = Some r" "job_status r = RUNNING" and wt: "typed s"
    using assms(1) by (auto simp: busy_def)
  from transition_spec [OF wt, of j t a e x] obtain now where
    "(result_of W (transition cfg j t a e) s x, store (state_after W (transition cfg j t a e) s x)) =
       spec_transition now j t a e (store s)"
    by blast
  moreover have "t \<in> allowed_transitions RUNNING" using assms(2) by (cases t) auto
  ultimately show ?thesis using r assms(2) by (auto simp: spec_transition_def Let_def)
qed

abbreviation ended :: "string \<Rightarrow> job_status \<Rightarrow> 's \<Rightarrow> bool" where
  "ended j t s \<equiv> ended_as (store s) j t"

lemma ended_look: "look s' = look s \<Longrightarrow> ended j t s' = ended j t s"
  by simp

lemma run_fail_job:
  assumes "busy j tok m s"
  shows "result_of W (fail_job dp j c msg) s x = Inr ()" "ended j FAILED (state_after W (fail_job dp j c msg) s x)"
  using end_job [OF assms, of FAILED None "Some \<lparr>je_code = c, je_message = msg\<rparr>" x]
  by (auto simp: fail_job_def run_simps ended_as_def)

text \<open>The handlers: the job ends, or the attempt is to be retried and nothing has changed.\<close>

lemma run_attempt_failed:
  assumes "busy j tok m s" "job_max_attempts record = m"
  shows "case result_of W (attempt_failed dp j record n e) s x of
      Inr _ \<Rightarrow> \<exists>t \<in> {FAILED, CANCELLED}. ended j t (state_after W (attempt_failed dp j record n e) s x)
    | Inl e' \<Rightarrow> (\<exists>msg. e' = RetryableJobError msg) \<and> n < m \<and>
        busy j tok m (state_after W (attempt_failed dp j record n e) s x)"
proof -
  let ?p = "attempt_failed dp j record n e"
  have emit: "result_of W (emit_log l ev msg f) s x = Inr ()" "look (state_after W (emit_log l ev msg f) s x) = look s"
    for l ev msg f s x by (simp_all add: run_log)
  consider "e = TimeoutError" | "e = JobCancelled" | "e \<noteq> TimeoutError" "e \<noteq> JobCancelled" by blast
  then show ?thesis
  proof cases
    case 1
    then show ?thesis
      using run_fail_job [OF assms(1)]
      by (auto simp: attempt_failed_def run_simps run_log_event ended_look [OF run_log_event(2)])
  next
    case 2
    then show ?thesis
      using end_job [OF assms(1), of CANCELLED None None x]
      by (auto simp: attempt_failed_def run_simps run_log_event ended_look [OF run_log_event(2)] ended_as_def)
  next
    case 3
    show ?thesis
    proof (cases "n < m")
      case True
      with 3 assms have "?p = bind (log_event WARNING ''job_attempt_failed''
          (''attempt '' @ show_int n @ ''/'' @ show_int m @ '': '' @ exn_name e) [])
          (\<lambda>_. Raise (RetryableJobError (exn_str e)))"
        by (cases e) (simp_all add: attempt_failed_def)
      then show ?thesis
        using assms(1) True by (simp add: run_simps run_log_event busy_look [OF run_log_event(2)])
    next
      case False
      with 3 assms have "?p = bind (fail_job dp j INTERNAL_ERROR
            (''research failed after '' @ show_int n @ '' attempts ('' @ exn_name e @ '')''))
          (\<lambda>_. emit_log ERROR ''job_failed'' ''job failed'' [(''status'', ''failed'')])"
        by (cases e) (simp_all add: attempt_failed_def)
      then show ?thesis
        using run_fail_job [OF assms(1)] by (simp add: run_simps emit ended_look [OF emit(2)])
    qed
  qed
qed

text \<open>The \<open>try\<close> statement.\<close>

lemma run_completion:
  assumes "busy j tok m s"
  shows "result_of W (completion dp j started) s x = Inr ()"
    "ended j COMPLETED (state_after W (completion dp j started) s x)"
    "vw_result (store (state_after W (completion dp j started) s x)) = vw_result (store s)"
proof -
  obtain r where r: "result_of W (transition cfg j COMPLETED None None) s x = Inr r"
    using end_job [OF assms, of COMPLETED None None x] by auto
  let ?s = "state_after W (transition cfg j COMPLETED None None) s x"
  have "\<exists>t. result_of W perf_counter ?s y = Inr t" for y by (rule run_perf_counter(1))
  then obtain t where t: "result_of W perf_counter ?s (ctx_after W (transition cfg j COMPLETED None None) s x) = Inr t"
    by blast
  show "result_of W (completion dp j started) s x = Inr ()"
    using r t by (simp add: completion_def run_simps run_log_event)
  have same: "look (state_after W (completion dp j started) s x) = look ?s"
    using r t by (simp add: completion_def run_simps run_log_event run_perf_counter)
  show "ended j COMPLETED (state_after W (completion dp j started) s x)"
    unfolding ended_look [OF same] using end_job [OF assms, of COMPLETED None None x] by (auto simp: ended_as_def)
  show "vw_result (store (state_after W (completion dp j started) s x)) = vw_result (store s)"
    using end_job [OF assms, of COMPLETED None None x] by (auto simp: same)
qed

lemma run_attempt:
  assumes "busy j tok m s" "job_max_attempts record = m"
    and p_def: "p = catch (attempt_job dp dl j record started) (attempt_failed dp j record n)"
  shows "case result_of W p s x of
      Inr _ \<Rightarrow> \<exists>t \<in> terminal_states. ended j t (state_after W p s x) \<and>
        (t = COMPLETED \<longrightarrow> vw_result (store (state_after W p s x)) j \<noteq> None)
    | Inl e' \<Rightarrow> (\<exists>msg. e' = RetryableJobError msg) \<and> n < m \<and> busy j tok m (state_after W p s x)"
proof -
  let ?s = "state_after W (research dp dl j record) s x"
  let ?x = "ctx_after W (research dp dl j record) s x"
  have b: "busy j tok m ?s" by (rule keepsD [OF keeps_research assms(1)])
  show ?thesis
  proof (cases "result_of W (research dp dl j record) s x")
    case (Inr u)
    then show ?thesis
      using run_completion [OF b, of started ?x] research_saves [OF Inr]
      by (simp add: p_def attempt_split run_simps) (metis terminal_states_iff(3))
  next
    case (Inl e)
    then show ?thesis
      using run_attempt_failed [OF b assms(2), of n e ?x]
      by (auto simp: p_def attempt_split run_simps split: sum.splits)
  qed
qed

text \<open>The whole attempt.\<close>

lemma run_start_attempt:
  assumes "typed s" "vw_job (store s) j = Some r" "job_status r \<notin> terminal_states"
    and p_def: "p = start_attempt dp dl j n"
  shows "case result_of W p s x of
      Inr _ \<Rightarrow> \<exists>t \<in> terminal_states. ended j t (state_after W p s x) \<and>
        (t = COMPLETED \<longrightarrow> vw_result (store (state_after W p s x)) j \<noteq> None)
    | Inl e \<Rightarrow> (\<exists>msg. e = RetryableJobError msg) \<and> n < job_max_attempts r \<and>
        busy j (vw_token (store s) j) (job_max_attempts r) (state_after W p s x)"
proof -
  let ?t = "transition cfg j RUNNING (Some n) None"
  let ?s = "state_after W ?t s x"
  let ?x = "ctx_after W ?t s x"
  from transition_spec [OF assms(1), of j RUNNING "Some n" None x] obtain now where spec:
    "(result_of W ?t s x, store ?s) = spec_transition now j RUNNING (Some n) None (store s)"
    by blast
  have "RUNNING \<in> allowed_transitions (job_status r)" using assms(3) by (cases "job_status r") auto
  with spec assms(2) obtain r' where r': "result_of W ?t s x = Inr r'" "job_status r' = RUNNING"
    "job_max_attempts r' = job_max_attempts r" "vw_job (store ?s) j = Some r'"
    "vw_token (store ?s) = vw_token (store s)"
    by (auto simp: spec_transition_def Let_def)
  have wt: "typed ?s"
    by (rule well_typed_after [OF safe_mono [OF safe_transition] assms(1)]) auto
  let ?s1 = "state_after W perf_counter ?s ?x"
  let ?x1 = "ctx_after W perf_counter ?s ?x"
  obtain started where started: "result_of W perf_counter ?s ?x = Inr started"
    using run_perf_counter(1) by blast
  let ?s2 = "state_after W (log_event INFO ''job_started'' [] [(''status'', ''running'')]) ?s1 ?x1"
  let ?x2 = "ctx_after W (log_event INFO ''job_started'' [] [(''status'', ''running'')]) ?s1 ?x1"
  have look2: "look ?s2 = look ?s" by (simp add: run_log_event run_perf_counter)
  have "busy j (vw_token (store s) j) (job_max_attempts r) ?s2"
    by (rule busy_look [OF look2, THEN iffD2]) (use wt r' in \<open>simp add: busy_def\<close>)
  note settled = run_attempt [OF this r'(3) refl, where dl = dl and started = started and n = n and x = ?x2]
  let ?q = "catch (attempt_job dp dl j r' started) (attempt_failed dp j r' n)"
  have same: "result_of W p s x = result_of W ?q ?s2 ?x2" "state_after W p s x = state_after W ?q ?s2 ?x2"
    unfolding p_def start_attempt_def using r'(1) started by (simp_all add: run_bind run_log_event(1))
  show ?thesis unfolding same by (rule settled)
qed

lemma run_job_outcome:
  assumes "typed s" "vw_job (store s) j = Some r"
  shows "attempt_outcome n j r (store s) (store (state_after W (run_research_job dp dl j n) s x))
           (result_of W (run_research_job dp dl j n) s x)"
proof -
  let ?s = "state_after W (get_job cfg j) s x"
  let ?x = "apply_bindings (job_bindings j r) (ctx_after W (get_job cfg j) s x)"
  have same: "look ?s = look s" by (rule run_get_job(2))
  have wt: "typed ?s" using assms(1) same by simp
  note get = run_get_job(1) [OF assms(1), of j x]
  show ?thesis
  proof (cases "job_status r \<in> terminal_states")
    case True
    then show ?thesis
      by (simp add: run_research_job_def run_simps get assms(2) attempt_outcome_def same)
  next
    case live: False
    let ?c = "state_after W (is_cancel_requested cfg j) ?s ?x"
    let ?y = "ctx_after W (is_cancel_requested cfg j) ?s ?x"
    have same': "look ?c = look s" by (simp add: run_is_cancel_requested same)
    show ?thesis
    proof (cases "vw_cancel (store s) j")
      case True
      from transition_spec [of cfg _ ?c j CANCELLED None None ?y] assms(1) same' obtain now where
        "(result_of W (transition cfg j CANCELLED None None) ?c ?y,
          store (state_after W (transition cfg j CANCELLED None None) ?c ?y)) =
           spec_transition now j CANCELLED None None (store s)"
        by metis
      moreover have "CANCELLED \<in> allowed_transitions (job_status r)"
        using live by (cases "job_status r") auto
      ultimately show ?thesis
        using live True assms(2)
        by (auto simp: run_research_job_def run_simps get attempt_outcome_def run_is_cancel_requested same
            spec_transition_def Let_def ended_as_def)
    next
      case False
      have "typed ?c" "vw_job (store ?c) j = Some r" using assms same' by simp_all
      from run_start_attempt [OF this live refl, where dl = dl and n = n and x = ?y] show ?thesis
        using live False assms(2)
        by (auto simp: run_research_job_def run_simps get attempt_outcome_def run_is_cancel_requested same
            busy_def split: sum.splits)
    qed
  qed
qed

lemma run_job_missing:
  assumes "typed s" "vw_job (store s) j = None"
  shows "result_of W (run_research_job dp dl j n) s x = Inr ()"
    "look (state_after W (run_research_job dp dl j n) s x) = look s"
  using assms by (simp_all add: run_research_job_def run_simps run_get_job run_log_event)

end

section \<open>What is proposed\<close>

text \<open>A stored proposal that belongs to the job of the record.\<close>

definition staged_for :: "job_record \<Rightarrow> proposed_action list \<Rightarrow> stored_proposal \<Rightarrow> bool" where
  "staged_for record ps sp \<longleftrightarrow>
     sp_action sp \<in> set ps \<and> sp_job_id sp = job_id record \<and> sp_session_id sp = job_session_id record \<and>
     sp_consumer_id sp = job_consumer_id record \<and> sp_principal_hash sp = job_principal_hash record"

definition valid_candidate :: "worker_deps \<Rightarrow> agent_proposed_action \<Rightarrow> bool" where
  "valid_candidate dp c \<longleftrightarrow> valid_payload (wk_adapter dp) (ap_action_type c) (ap_payload c)"

definition proposals_from ::
    "worker_deps \<Rightarrow> job_record \<Rightarrow> time \<Rightarrow> agent_proposed_action list \<Rightarrow> string list \<Rightarrow> proposed_action list" where
  "proposals_from dp record t cs ids = map2 (new_proposal dp record t) ids (filter (valid_candidate dp) cs)"

context job_attempt
begin

lemma run_stage_proposal:
  assumes "typed s" "executable_proposal (wk_adapter dp) a"
  shows "\<exists>sp. result_of W (stage_proposal dp record a) s x = Inr () \<and>
    store (state_after W (stage_proposal dp record a) s x) =
      (store s)\<lparr>vw_proposal := (vw_proposal (store s))(pa_action_id a \<mapsto> sp)\<rparr> \<and>
    sp_action sp = a \<and> staged_for record [a] sp \<and> typed (state_after W (stage_proposal dp record a) s x)"
proof -
  obtain now where now: "result_of W utcnow s x = Inr now" using run_utcnow(1) by blast
  let ?sp = "\<lparr>sp_action = a, sp_job_id = job_id record, sp_session_id = job_session_id record,
              sp_consumer_id = job_consumer_id record, sp_principal_hash = job_principal_hash record,
              sp_created_at = now\<rparr>"
  let ?s = "state_after W (stage_proposal dp record a) s x"
  have "result_of W (stage_proposal dp record a) s x = Inr ()"
    "look ?s = (look s)(key_of cfg ''proposal'' (pa_action_id a) \<mapsto> (VProposal ?sp, Some (cf_proposal_ttl_s cfg)))"
    using settings_valid
    by (simp_all add: stage_proposal_def run_simps now run_utcnow(2,3) run_save_proposal run_log_event)
  moreover from this(2) assms have "typed ?s" by (auto intro!: well_typed_upd)
  ultimately show ?thesis by (intro exI [of _ ?sp]) (simp add: view_of_update staged_for_def)
qed

lemma staged_for_mono: "staged_for record ps sp \<Longrightarrow> set ps \<subseteq> set qs \<Longrightarrow> staged_for record qs sp"
  by (auto simp: staged_for_def)

text \<open>The loop never fails here; the accumulator is what has been staged so far.\<close>

lemma run_persist_loop:
  assumes "typed s" "\<forall>p \<in> set acc. \<exists>sp. vw_proposal (store s) (pa_action_id p) = Some sp \<and> staged_for rc acc sp"
  shows "\<exists>ids ps. length ids = length (filter (valid_candidate dp) cs) \<and>
    ps = acc @ proposals_from dp rc t cs ids \<and>
    result_of W (persist_loop dp rc t cs acc) s x = Inr ps \<and>
    (\<forall>p \<in> set ps. \<exists>sp. vw_proposal (store (state_after W (persist_loop dp rc t cs acc) s x)) (pa_action_id p) = Some sp \<and>
       staged_for rc ps sp)"
  using assms
proof (induction cs arbitrary: acc s x)
  case Nil
  then show ?case by (auto simp: proposals_from_def)
next
  case (Cons c cs)
  show ?case
  proof (cases "validate_payload (wk_adapter dp) (ap_action_type c) (ap_payload c)")
    case (Inl e)
    then have no: "\<not> valid_candidate dp c" and e: "rejected_payload e"
      by (auto simp: valid_candidate_def valid_payload_def validate_payload_def rejected_payload_def
          split: option.splits if_splits)
    let ?l = "log_event WARNING ''proposal_rejected'' (ap_action_type c @ '': '' @ exn_name e) []"
    have same: "look (state_after W ?l s x) = look s" by (rule run_log_event(2))
    have "typed (state_after W ?l s x)" "\<forall>p \<in> set acc. \<exists>sp.
        vw_proposal (store (state_after W ?l s x)) (pa_action_id p) = Some sp \<and> staged_for rc acc sp"
      using Cons.prems same by simp_all
    from Cons.IH [OF this, of "ctx_after W ?l s x"] show ?thesis
      using Inl no e by (simp add: run_bind run_log_event(1) proposals_from_def)
  next
    case (Inr v)
    then have yes: "valid_candidate dp c" by (simp add: valid_candidate_def valid_payload_def)
    let ?u = "state_after W uuid4 s x" and ?y = "ctx_after W uuid4 s x"
    obtain i where i: "result_of W uuid4 s x = Inr i" using run_uuid4(1) by blast
    have same: "look ?u = look s" by (rule run_uuid4(2))
    let ?a = "new_proposal dp rc t i c"
    have "executable_proposal (wk_adapter dp) ?a"
      using yes by (simp add: executable_proposal_def new_proposal_def valid_candidate_def)
    from run_stage_proposal [of ?u, OF _ this, of rc ?y] Cons.prems(1) same
    obtain sp where sp: "result_of W (stage_proposal dp rc ?a) ?u ?y = Inr ()"
      "store (state_after W (stage_proposal dp rc ?a) ?u ?y) =
         (store s)\<lparr>vw_proposal := (vw_proposal (store s))(pa_action_id ?a \<mapsto> sp)\<rparr>"
      "staged_for rc [?a] sp" "typed (state_after W (stage_proposal dp rc ?a) ?u ?y)"
      by auto
    let ?v = "state_after W (stage_proposal dp rc ?a) ?u ?y"
    have "\<forall>p \<in> set (acc @ [?a]). \<exists>sp. vw_proposal (store ?v) (pa_action_id p) = Some sp \<and>
        staged_for rc (acc @ [?a]) sp"
    proof
      fix p
      assume "p \<in> set (acc @ [?a])"
      moreover have "staged_for rc (acc @ [?a]) sp" by (rule staged_for_mono [OF sp(3)]) simp
      moreover have "staged_for rc (acc @ [?a]) sp'" if "staged_for rc acc sp'" for sp'
        by (rule staged_for_mono [OF that]) auto
      ultimately show "\<exists>sp. vw_proposal (store ?v) (pa_action_id p) = Some sp \<and>
          staged_for rc (acc @ [?a]) sp"
        using Cons.prems(2) unfolding sp(2) by (cases "pa_action_id p = pa_action_id ?a") auto
    qed
    from Cons.IH [OF sp(4) this, of "ctx_after W (stage_proposal dp rc ?a) ?u ?y"] obtain ids ps where
      *: "length ids = length (filter (valid_candidate dp) cs)"
      "ps = (acc @ [?a]) @ proposals_from dp rc t cs ids"
      "result_of W (persist_loop dp rc t cs (acc @ [?a])) ?v (ctx_after W (stage_proposal dp rc ?a) ?u ?y) = Inr ps"
      "\<forall>p \<in> set ps. \<exists>sp. vw_proposal (store (state_after W (persist_loop dp rc t cs (acc @ [?a])) ?v
          (ctx_after W (stage_proposal dp rc ?a) ?u ?y))) (pa_action_id p) = Some sp \<and> staged_for rc ps sp"
      by blast
    have "ps = acc @ proposals_from dp rc t (c # cs) (i # ids)"
      using *(2) yes by (simp add: proposals_from_def)
    moreover have "result_of W (persist_loop dp rc t (c # cs) acc) s x = Inr ps"
      "state_after W (persist_loop dp rc t (c # cs) acc) s x =
        state_after W (persist_loop dp rc t cs (acc @ [?a])) ?v (ctx_after W (stage_proposal dp rc ?a) ?u ?y)"
      using Inr i sp(1) *(3) by (simp_all add: run_bind)
    ultimately show ?thesis
      using *(1,4) yes by (intro exI [of _ "i # ids"] exI [of _ ps]) simp
  qed
qed

lemma run_persist_proposals:
  assumes "typed s"
  shows "\<exists>now ids ps. ps = proposals_from dp record (now + cf_proposal_ttl_s (wk_settings dp)) (ao_proposed_actions out) ids \<and>
    map ap_payload (filter (valid_candidate dp) (ao_proposed_actions out)) = map pa_payload ps \<and>
    result_of W (persist_proposals dp record out) s x = Inr ps \<and>
    list_all (\<lambda>p. \<exists>sp. vw_proposal (view_of (wk_settings dp)
        (look (state_after W (persist_proposals dp record out) s x))) (pa_action_id p) = Some sp \<and>
      staged_for record ps sp) ps"
proof -
  obtain now where now: "result_of W utcnow s x = Inr now" using run_utcnow(1) by blast
  let ?t = "now + cf_proposal_ttl_s cfg"
  let ?s = "state_after W utcnow s x" and ?x = "ctx_after W utcnow s x"
  have "typed ?s" using assms by (simp add: run_utcnow(2))
  from run_persist_loop [OF this, where acc = "[]" and cs = "ao_proposed_actions out" and rc = "record" and t = ?t and x = ?x] obtain ids ps where
    *: "length ids = length (filter (valid_candidate dp) (ao_proposed_actions out))"
    "ps = proposals_from dp record ?t (ao_proposed_actions out) ids"
    "result_of W (persist_loop dp record ?t (ao_proposed_actions out) []) ?s ?x = Inr ps"
    "\<forall>p \<in> set ps. \<exists>sp. vw_proposal (store (state_after W (persist_loop dp record ?t (ao_proposed_actions out) []) ?s ?x))
       (pa_action_id p) = Some sp \<and> staged_for record ps sp"
    by auto
  have "map ap_payload cs = map pa_payload (map2 (new_proposal dp record ?t) ids cs)" if "length ids = length cs" for cs
    using that by (induction ids cs rule: list_induct2) (simp_all add: new_proposal_def)
  with * now show ?thesis
    unfolding persist_proposals_def list_all_iff
    by (intro exI [of _ now] exI [of _ ids] exI [of _ ps]) (simp add: run_bind proposals_from_def)
qed

end

section \<open>A worker to run\<close>

text \<open>An agent that answers at once, a worker for the Jira domain, and the in-process world.\<close>

definition demo_harness :: harness where
  "demo_harness =
     \<lparr>hn_deep = (\<lambda>mdl tools instr subs. Inr (\<lambda>task.
        RunState (Some [DictMessage [(''content'', JStr ''all is well'')]]) RunEnds)),
      hn_react = (\<lambda>mdl tools instr. Inl (OtherError ''ImportError''))\<rparr>"

definition demo_worker :: worker_deps where
  "demo_worker =
     \<lparr>wk_settings = default_settings, wk_adapter = jira_adapter ''https://jira'',
      wk_vault = LocalTokenVault demo_kek, wk_crypto = demo_crypto,
      wk_factory = deep_agent_factory demo_harness, wk_build_llm = build_llm,
      wk_build_fast_llm = Some build_fast_llm, wk_json_schema = (\<lambda>_. [])\<rparr>"

interpretation demo_worker: worker demo_worker jira_mutates
  by (rule worker.intro) (simp_all add: demo_worker_def deep.agent_builder_axioms jira.domain_adapter_axioms)

interpretation demo_attempt: job_attempt mem_world mem_keys demo_worker jira_mutates
  by (rule job_attempt.intro) (rule platform_mem, rule demo_worker.worker_axioms)

lemma demo_worker_simps [simp]:
  "wk_settings demo_worker = default_settings" "wk_adapter demo_worker = jira_adapter ''https://jira''"
  by (simp_all add: demo_worker_def)

section \<open>Properties\<close>



text \<open>
  C22: every attempt settles its job. However the agent behaves, fails, hangs or is cut off, after an
  attempt that nobody disturbs the job has ended, with its staged token and its cancellation flag gone
  and, if it completed, with its result in the store; or attempts are left, the job is still running
  with its token, and the attempt raises the error that asks for a retry. A job that had ended is not
  touched, and one whose cancellation was asked for is cancelled.
\<close>

theorem job_attempt_settles:
  assumes "job_attempt W look dp mut"
    and "well_typed (wk_settings dp) (executable_proposal (wk_adapter dp)) (look s)"
    and "vw_job (view_of (wk_settings dp) (look s)) j = Some r"
  shows "attempt_outcome n j r (view_of (wk_settings dp) (look s))
           (view_of (wk_settings dp) (look (state_after W (run_research_job dp dl j n) s x)))
           (result_of W (run_research_job dp dl j n) s x)"
  using assms by (rule job_attempt.run_job_outcome)

theorem job_attempt_settles_witness:
  "\<exists>t \<in> terminal_states. ended_as (view_of default_settings (mem_keys (state_after mem_world
     (run_research_job demo_worker \<lparr>dl_events = 9, dl_calls = 99\<rparr> ''j1'' 2) demo_store empty_ctx))) ''j1'' t"
proof -
  have "vw_job (view_of (wk_settings demo_worker) (mem_keys demo_store)) ''j1'' = Some demo_job"
    "well_typed (wk_settings demo_worker) (executable_proposal (wk_adapter demo_worker)) (mem_keys demo_store)"
    using demo_store_job demo_store_typed by simp_all
  from job_attempt_settles [OF demo_attempt.job_attempt_axioms this(2,1), of 2 "\<lparr>dl_events = 9, dl_calls = 99\<rparr>" empty_ctx]
  show ?thesis
    by (auto simp: attempt_outcome_def demo_job_def view_of_def demo_store_def split: sum.splits)
qed


definition demo_output :: agent_output where
  "demo_output = \<lparr>ao_summary = [], ao_sources = [], ao_details = [],
     ao_proposed_actions =
       [\<lparr>ap_action_type = ''delete_issue'', ap_target = [], ap_payload = [], ap_preview = [], ap_preconditions = []\<rparr>,
        \<lparr>ap_action_type = ''add_comment'', ap_target = [],
         ap_payload = [(''issue_key'', JStr ''P-1''), (''body'', JStr ''done'')],
         ap_preview = ''Comment on P-1'', ap_preconditions = []\<rparr>]\<rparr>"


end
