(* ===== verification/Worker_Main.thy ===== *)
theory Worker_Main
  imports Job_Attempt
begin

text \<open>
  \<^verbatim>\<open>app/worker/main.py\<close>: the adapter between arq's callbacks and the run loop, and the start
  of the worker process.
\<close>

section \<open>The job function\<close>

text \<open>\<open>ctx.get("job_try", 1)\<close> is the number of this delivery, from 1.\<close>

definition retry_delay_s :: "int \<Rightarrow> int" where
  "retry_delay_s attempt = min (2 ^ nat attempt) 30"

definition research_job :: "worker_deps \<Rightarrow> deadline \<Rightarrow> int option \<Rightarrow> string \<Rightarrow> unit prog" where
  "research_job dp dl job_try j =
     (let attempt = (case job_try of Some n \<Rightarrow> n | None \<Rightarrow> 1) in
      catch (run_research_job dp dl j attempt)
        (\<lambda>exc. case exc of
           RetryableJobError msg \<Rightarrow> Raise (Retry (retry_delay_s attempt))
         | _ \<Rightarrow> Raise exc))"

section \<open>The process\<close>

text \<open>\<open>WorkerSettings\<close>, what arq is told: the delays are in seconds.\<close>

record worker_settings =
  ws_functions :: "string list"
  ws_queue_name :: string
  ws_max_tries :: int
  ws_job_timeout :: int
  ws_max_jobs :: int
  ws_health_check_interval :: int

definition worker_settings_of :: "settings \<Rightarrow> worker_settings" where
  "worker_settings_of cfg =
     \<lparr>ws_functions = [''research_job''], ws_queue_name = cf_queue_name cfg,
      ws_max_tries = cf_job_max_attempts cfg, ws_job_timeout = cf_job_timeout_s cfg + 60,
      ws_max_jobs = 4, ws_health_check_interval = 60\<rparr>"

text \<open>\<open>startup\<close>: logging, then the dependencies in the order of the constructor call.\<close>

definition worker_startup ::
    "harness \<Rightarrow> (schema \<Rightarrow> dict) \<Rightarrow> crypto \<Rightarrow> settings \<Rightarrow> worker_deps prog" where
  "worker_startup h schema_of cr cfg =
     bind (register_api_keys cfg) (\<lambda>_.
     bind (lift_result (build_token_vault cfg)) (\<lambda>v.
     bind (lift_result (build_adapter cfg)) (\<lambda>ad.
     bind (lift_result (get_agent_factory (initial_factories h) (cf_agent_factory cfg))) (\<lambda>factory.
     bind (log_event INFO ''worker_started'' (''domain='' @ cf_domain cfg) []) (\<lambda>_.
     Ret \<lparr>wk_settings = cfg, wk_adapter = ad, wk_vault = v, wk_crypto = cr, wk_factory = factory,
          wk_build_llm = build_llm, wk_build_fast_llm = Some build_fast_llm,
          wk_json_schema = schema_of\<rparr>)))))"

text \<open>Every worker that starts keeps the contracts the run loop relies on.\<close>

lemma started_worker:
  assumes "result_of W (worker_startup h schema_of cr cfg) s x = Inr dp" "settings_ok cfg"
  shows "worker dp (domain_mutates cfg) \<and> wk_settings dp = cfg"
proof -
  obtain ad factory v where "build_adapter cfg = Inr ad"
    "get_agent_factory (initial_factories h) (cf_agent_factory cfg) = Inr factory"
    "dp = \<lparr>wk_settings = cfg, wk_adapter = ad, wk_vault = v, wk_crypto = cr, wk_factory = factory,
          wk_build_llm = build_llm, wk_build_fast_llm = Some build_fast_llm,
          wk_json_schema = schema_of\<rparr>"
    using assms(1) unfolding worker_startup_def result_bind_Inr run_lift_result
    by (auto simp: runs_iff runs_simps)
  with assms(2) built_adapter_contract registered_builder show ?thesis
    by (simp add: worker_def)
qed

text \<open>What the job function can raise, and when it asks for a redelivery.\<close>

lemma research_job_result:
  "result_of W (research_job dp dl tr j) s x =
     (let n = (case tr of Some n \<Rightarrow> n | None \<Rightarrow> 1) in
      case result_of W (run_research_job dp dl j n) s x of
        Inl (RetryableJobError msg) \<Rightarrow> Inl (Retry (retry_delay_s n))
      | other \<Rightarrow> other)"
  "state_after W (research_job dp dl tr j) s x =
     state_after W (run_research_job dp dl j (case tr of Some n \<Rightarrow> n | None \<Rightarrow> 1)) s x"
  by (auto simp: research_job_def Let_def run_catch split: sum.split exn.split)

section \<open>Redelivery\<close>

text \<open>arq delivers the job again while the function raises \<open>Retry\<close>; each delivery has its own deadline.\<close>

fun deliver :: "'s world \<Rightarrow> worker_deps \<Rightarrow> deadline list \<Rightarrow> int \<Rightarrow> string \<Rightarrow> ctx \<Rightarrow> 's \<Rightarrow> 's" where
  "deliver W dp [] n j x s = s"
| "deliver W dp (dl # dls) n j x s =
     (let s' = state_after W (research_job dp dl (Some n) j) s x in
      case result_of W (research_job dp dl (Some n) j) s x of
        Inl (Retry d) \<Rightarrow> deliver W dp dls (n + 1) j x s'
      | _ \<Rightarrow> s')"

context job_attempt
begin

lemma typed_after: "typed s \<Longrightarrow> typed (state_after W (research_job dp dl (Some n) j) s x)"
proof -
  have "safe (\<lambda>c. store_cmd cfg (executable_proposal (wk_adapter dp)) c \<or> \<not> writes c) (\<lambda>_. True) (\<lambda>_. True)
      (run_research_job dp dl j n)"
  proof (rule safe_mono [OF safe_run_research_job])
    fix c
    assume "worker_cmd cfg (executable_proposal (wk_adapter dp)) mut c"
    then show "store_cmd cfg (executable_proposal (wk_adapter dp)) c \<or> \<not> writes c"
      by (cases c) (auto simp: worker_cmd_def reading_def)
  qed auto
  then show "typed s \<Longrightarrow> ?thesis" unfolding research_job_result by (simp add: well_typed_after)
qed

lemma research_job_cases:
  assumes "typed s" "vw_job (store s) j = Some r"
    and s'_def: "s' = state_after W (research_job dp dl (Some n) j) s x"
  shows "(\<exists>t \<in> terminal_states. \<exists>r'. vw_job (store s') j = Some r' \<and> job_status r' = t) \<and>
      result_of W (research_job dp dl (Some n) j) s x = Inr () \<or>
    result_of W (research_job dp dl (Some n) j) s x = Inl (Retry (retry_delay_s n)) \<and>
      n < job_max_attempts r \<and> vw_token (store s') j = vw_token (store s) j \<and>
      (\<exists>r'. vw_job (store s') j = Some r' \<and> job_status r' = RUNNING \<and>
        job_max_attempts r' = job_max_attempts r)"
proof -
  have s': "s' = state_after W (run_research_job dp dl j n) s x"
    by (simp add: s'_def research_job_result)
  from run_job_outcome [OF assms(1,2), of n dl x] show ?thesis
    using assms(2) unfolding s' [symmetric]
    by (auto simp: attempt_outcome_def ended_as_def research_job_result Let_def split: if_splits sum.splits)
qed

lemma deliver_ends:
  "typed s \<Longrightarrow> vw_job (store s) j = Some r \<Longrightarrow> dls \<noteq> [] \<Longrightarrow> job_max_attempts r < n + int (length dls) \<Longrightarrow>
   \<exists>r'. vw_job (store (deliver W dp dls n j x s)) j = Some r' \<and> job_status r' \<in> terminal_states"
proof (induction dls arbitrary: n s r)
  case (Cons dl dls)
  let ?s = "state_after W (research_job dp dl (Some n) j) s x"
  from research_job_cases [OF Cons.prems(1,2) refl, of dl n x] show ?case
  proof (elim disjE conjE)
    assume "\<exists>t \<in> terminal_states. \<exists>r'. vw_job (store ?s) j = Some r' \<and> job_status r' = t"
      "result_of W (research_job dp dl (Some n) j) s x = Inr ()"
    then show ?thesis by auto
  next
    assume retry: "result_of W (research_job dp dl (Some n) j) s x = Inl (Retry (retry_delay_s n))"
      and left: "n < job_max_attempts r"
      and again: "\<exists>r'. vw_job (store ?s) j = Some r' \<and> job_status r' = RUNNING \<and>
        job_max_attempts r' = job_max_attempts r"
    from again obtain r' where r': "vw_job (store ?s) j = Some r'" "job_max_attempts r' = job_max_attempts r"
      by blast
    have "dls \<noteq> []" using left Cons.prems(4) by auto
    with Cons.IH [OF typed_after [OF Cons.prems(1)] r'(1), of "n + 1"] r'(2) Cons.prems(4) retry
    show ?thesis by simp
  qed
qed simp

end

section \<open>Properties\<close>

text \<open>
  C21: every job finishes. A job that arq delivers again as long as it asks for it, each time with
  whatever deadline and whatever behaviour of the agent, the vault and the target, is in a terminal
  state after at most the number of attempts it was given, when nobody else writes its record.
\<close>

theorem job_finishes:
  assumes "job_attempt W look dp mut"
    and "well_typed (wk_settings dp) (executable_proposal (wk_adapter dp)) (look s)"
    and "vw_job (view_of (wk_settings dp) (look s)) j = Some r"
    and "1 \<le> job_max_attempts r" "int (length dls) = job_max_attempts r"
  shows "\<exists>r'. vw_job (view_of (wk_settings dp) (look (deliver W dp dls 1 j x s))) j = Some r' \<and>
              job_status r' \<in> terminal_states"
  by (rule job_attempt.deliver_ends [OF assms(1-3)]) (use assms(4,5) in auto)

theorem job_finishes_witness:
  "\<exists>r'. vw_job (view_of default_settings (mem_keys (deliver mem_world demo_worker
     [\<lparr>dl_events = 0, dl_calls = 0\<rparr>, \<lparr>dl_events = 9, dl_calls = 99\<rparr>] 1 ''j1'' empty_ctx demo_store))) ''j1'' = Some r' \<and>
   job_status r' \<in> terminal_states"
  using job_finishes [OF demo_attempt.job_attempt_axioms, of demo_store "''j1''" demo_job
      "[\<lparr>dl_events = 0, dl_calls = 0\<rparr>, \<lparr>dl_events = 9, dl_calls = 99\<rparr>]" empty_ctx]
    demo_store_typed demo_store_job
  by (simp add: demo_job_def)

text \<open>
  A redelivery is asked for with a delay of at least two and at most thirty seconds, only while
  attempts are left, and the staged token is kept for it; nothing else comes out of the job function.
\<close>

theorem retry_only_with_attempts_left:
  assumes "job_attempt W look dp mut"
    and "well_typed (wk_settings dp) (executable_proposal (wk_adapter dp)) (look s)"
    and "vw_job (view_of (wk_settings dp) (look s)) j = Some r"
    and "1 \<le> n" "result_of W (research_job dp dl (Some n) j) s x = Inl e"
  shows "\<exists>d. e = Retry d \<and> 2 \<le> d \<and> d \<le> 30 \<and> n < job_max_attempts r \<and>
    vw_token (view_of (wk_settings dp) (look (state_after W (research_job dp dl (Some n) j) s x))) j =
      vw_token (view_of (wk_settings dp) (look s)) j"
proof -
  have "2 ^ 1 \<le> (2 :: int) ^ nat n" using assms(4) by (intro power_increasing) auto
  then have "2 \<le> retry_delay_s n" "retry_delay_s n \<le> 30" by (auto simp: retry_delay_s_def)
  with job_attempt.research_job_cases [OF assms(1-3) refl, of dl n x] assms(5) show ?thesis by auto
qed

definition tokenless_store :: mem where
  "tokenless_store = mem_empty\<lparr>mem_keys := [key_of default_settings ''job'' ''j1'' \<mapsto> (VJob demo_job, Some 8400)]\<rparr>"

lemma tokenless_store_typed: "well_typed default_settings P (mem_keys tokenless_store)"
  by (auto simp: well_typed_def tokenless_store_def demo_job_def mem_empty_def)

lemma tokenless_retries:
  "result_of mem_world (research_job demo_worker dl (Some 1) ''j1'') tokenless_store empty_ctx = Inl (Retry 2)"
  by (simp add: research_job_def run_research_job_def start_attempt_def attempt_job_def
      resolve_job_credentials_def attempt_failed_def token_missing_def
      bound_context_def finally_do_def job_bindings_def transition_def store_defs token_key_def call_defs
      log_event_def when_do_def tokenless_store_def demo_job_def mem_empty_def retry_delay_s_def
      em_dash_def)

theorem retry_only_with_attempts_left_witness:
  "\<exists>d. result_of mem_world (research_job demo_worker \<lparr>dl_events = 9, dl_calls = 99\<rparr> (Some 1) ''j1'')
         tokenless_store empty_ctx = Inl (Retry d) \<and> 2 \<le> d \<and> d \<le> 30"
proof -
  have "vw_job (view_of (wk_settings demo_worker) (mem_keys tokenless_store)) ''j1'' = Some demo_job"
    by (simp add: view_of_def tokenless_store_def)
  from retry_only_with_attempts_left [OF demo_attempt.job_attempt_axioms _ this _ tokenless_retries]
  show ?thesis using tokenless_store_typed tokenless_retries by auto
qed

end
