(* ===== verification/Ctx_Logic.thy ===== *)
theory Ctx_Logic
  imports World
begin

text \<open>
  Postconditions over the value a program returns and the context variables it leaves behind,
  whatever the environment answers. A program that raises satisfies every postcondition; \<open>safe\<close> speaks
  about the exceptions.
\<close>

primrec yields :: "(ctx \<Rightarrow> 'a \<Rightarrow> bool) \<Rightarrow> 'a prog \<Rightarrow> ctx \<Rightarrow> bool" where
  "yields Q (Ret a) x = Q x a"
| "yields Q (Raise e) x = True"
| "yields Q (Op c k) x = (\<forall>r. yields Q (k r) x)"
| "yields Q (GetCtx k) x = yields Q (k x) x"
| "yields Q (SetCtx y p) x = yields Q p y"

lemma yields_result:
  "yields Q p x \<Longrightarrow> result_of W p s x = Inr a \<Longrightarrow> Q (ctx_after W p s x) a"
  by (induction p arbitrary: s x) auto

lemma yields_bind:
  "yields R p x \<Longrightarrow> (\<And>y a. R y a \<Longrightarrow> yields Q (f a) y) \<Longrightarrow> yields Q (bind p f) x"
  by (induction p arbitrary: x) auto

lemma yields_any: "yields (\<lambda>_ _. True) p x"
  by (induction p arbitrary: x) auto

lemma yields_mono: "yields Q p x \<Longrightarrow> (\<And>y a. Q y a \<Longrightarrow> R y a) \<Longrightarrow> yields R p x"
  by (induction p arbitrary: x) auto

lemma yields_keeps: "keeps_ctx p \<Longrightarrow> yields (\<lambda>y a. y = x) p x"
  by (induction p arbitrary: x) auto

text \<open>The two rules a handler's proof uses: a step whose effect on the context does not matter, and
  a step that leaves the context alone.\<close>

lemma yields_skip: "(\<And>y a. yields Q (f a) y) \<Longrightarrow> yields Q (bind p f) x"
  by (rule yields_bind [OF yields_any])

lemma yields_still: "keeps_ctx p \<Longrightarrow> (\<And>a. yields Q (f a) x) \<Longrightarrow> yields Q (bind p f) x"
  by (rule yields_bind [OF yields_keeps]) auto

lemma yields_catch:
  "yields Q p x \<Longrightarrow> (\<And>e y. yields Q (h e) y) \<Longrightarrow> yields Q (catch p h) x"
  by (induction p arbitrary: x) auto

end
