(* ===== verification/App_Main.thy ===== *)
theory App_Main
  imports Execute_Api Health_Api Worker_Main Ctx_Logic
begin

text \<open>
  \<^verbatim>\<open>app/main.py\<close>: the routes, the error envelope, the exception handlers, the layers a request
  passes, and the start of the API process. Reading and routing a request, the list of validation
  errors and the answer to an unknown route are FastAPI's: the record \<open>framework\<close>.

  The handler of \<open>Exception\<close> is run by the outermost layer (\<open>ServerErrorMiddleware\<close> of Starlette),
  the other two inside the correlation middleware: \<open>serve\<close> nests them in that order.
\<close>

section \<open>Routes\<close>

datatype route =
    LiveCheck | HealthCheck | Submit | Poll string | Cancel string | Execute
  | GetAction string | RejectAction string

text \<open>A path parameter is one segment that is not empty.\<close>

definition segment :: "string \<Rightarrow> string \<Rightarrow> string option" where
  "segment pre path =
     (let rest = drop (length pre) path in
      if take (length pre) path = pre \<and> rest \<noteq> [] \<and> CHR ''/'' \<notin> set rest then Some rest else None)"

text \<open>The routers, in the order \<open>create_app\<close> includes them; the first that matches takes the request.\<close>

definition live_route :: "string \<Rightarrow> string \<Rightarrow> route option" where
  "live_route m path = (if m = ''GET'' \<and> path = ''/health/live'' then Some LiveCheck else None)"

definition health_route :: "string \<Rightarrow> string \<Rightarrow> route option" where
  "health_route m path = (if m = ''GET'' \<and> path = ''/health'' then Some HealthCheck else None)"

definition research_route :: "string \<Rightarrow> string \<Rightarrow> route option" where
  "research_route m path =
     (if m = ''POST'' \<and> path = ''/research'' then Some Submit
      else
        (case segment ''/research/'' path of
           None \<Rightarrow> None
         | Some j \<Rightarrow> if m = ''GET'' then Some (Poll j) else if m = ''DELETE'' then Some (Cancel j) else None))"

definition execute_route :: "string \<Rightarrow> string \<Rightarrow> route option" where
  "execute_route m path =
     (if m = ''POST'' \<and> path = ''/execute'' then Some Execute
      else
        (case segment ''/actions/'' path of
           None \<Rightarrow> None
         | Some a \<Rightarrow>
             if m = ''GET'' then Some (GetAction a) else if m = ''DELETE'' then Some (RejectAction a) else None))"

definition route_of :: "asgi_scope \<Rightarrow> route option" where
  "route_of sc =
     (case List.find (\<lambda>r. r (sc_method sc) (sc_path sc) \<noteq> None)
             [live_route, health_route, research_route, execute_route] of
        None \<Rightarrow> None
      | Some r \<Rightarrow> r (sc_method sc) (sc_path sc))"

lemmas route_defs = route_of_def live_route_def health_route_def research_route_def execute_route_def

section \<open>Answers\<close>

datatype body =
    LiveBody "(string \<times> string) list" | HealthBody health_report | AcceptedBody research_accepted
  | JobBody job_status_response | ExecutedBody execute_response | ActionBody action_status_response
  | ErrorBody error_response | FrameworkBody string

record framework =
  fw_parse_datetime :: "json \<Rightarrow> time option"
  fw_validation_errors :: "asgi_scope \<Rightarrow> json"
  fw_no_route :: "asgi_scope \<Rightarrow> int \<times> string"

definition json_response :: "int \<Rightarrow> body \<Rightarrow> body asgi_response" where
  "json_response status b =
     \<lparr>rs_status = status, rs_headers = [(''content-type'', ''application/json'')], rs_body = b\<rparr>"

text \<open>\<open>_error_response\<close>\<close>

definition error_answer ::
    "int \<Rightarrow> error_code \<Rightarrow> string \<Rightarrow> dict option \<Rightarrow> body asgi_response prog" where
  "error_answer status code msg details =
     bind current_correlation_id (\<lambda>cid.
     Ret (json_response status (ErrorBody
       \<lparr>en_code = code, en_message = msg, en_details = details, en_correlation_id = cid\<rparr>)))"

definition handle_typed :: "framework \<Rightarrow> asgi_scope \<Rightarrow> exn \<Rightarrow> body asgi_response prog" where
  "handle_typed fw sc exc =
     (case exc of
        ApiError status code msg details \<Rightarrow> error_answer status code msg details
      | RequestValidationError \<Rightarrow>
          error_answer 422 VALIDATION_ERROR ''Request failed validation.''
            (Some [(''errors'', fw_validation_errors fw sc)])
      | _ \<Rightarrow> Raise exc)"

definition handle_unexpected :: "exn \<Rightarrow> body asgi_response prog" where
  "handle_unexpected exc =
     bind (emit_log ERROR ''unhandled_error'' ''unhandled error'' []) (\<lambda>_.
     error_answer 500 INTERNAL_ERROR ''Internal error.'' None)"

section \<open>Serving a request\<close>

text \<open>No body at all reads as null; a body that is no JSON text (\<open>None\<close>) is refused before any dependency runs.\<close>

record http_request =
  ht_scope :: asgi_scope
  ht_json :: "json option"

definition with_body :: "json option \<Rightarrow> (json \<Rightarrow> 'a prog) \<Rightarrow> 'a prog" where
  "with_body b f = (case b of None \<Rightarrow> Raise RequestValidationError | Some j \<Rightarrow> f j)"

definition answer_with :: "int \<Rightarrow> ('a \<Rightarrow> body) \<Rightarrow> 'a prog \<Rightarrow> body asgi_response prog" where
  "answer_with status wrap p = bind p (\<lambda>a. Ret (json_response status (wrap a)))"

fun endpoint ::
    "framework \<Rightarrow> deps \<Rightarrow> headers \<Rightarrow> json option \<Rightarrow> route \<Rightarrow> body asgi_response prog" where
  "endpoint fw dp hs b LiveCheck = Ret (json_response 200 (LiveBody liveness))"
| "endpoint fw dp hs b HealthCheck =
     bind (health dp hs) (\<lambda>(status, report). Ret (json_response status (HealthBody report)))"
| "endpoint fw dp hs b Submit =
     with_body b (\<lambda>j. answer_with 202 AcceptedBody (submit_endpoint dp hs j))"
| "endpoint fw dp hs b (Poll j) = answer_with 200 JobBody (poll_endpoint dp hs j)"
| "endpoint fw dp hs b (Cancel j) = answer_with 200 JobBody (cancel_endpoint dp hs j)"
| "endpoint fw dp hs b Execute =
     with_body b (\<lambda>j. answer_with 200 ExecutedBody (execute_endpoint (fw_parse_datetime fw) dp hs j))"
| "endpoint fw dp hs b (GetAction a) = answer_with 200 ActionBody (get_action_endpoint dp hs a)"
| "endpoint fw dp hs b (RejectAction a) = answer_with 200 ActionBody (reject_action_endpoint dp hs a)"

definition routed :: "framework \<Rightarrow> deps \<Rightarrow> http_request \<Rightarrow> body asgi_response prog" where
  "routed fw dp rq =
     (case route_of (ht_scope rq) of
        None \<Rightarrow>
          (case fw_no_route fw (ht_scope rq) of (status, text) \<Rightarrow>
             Ret (json_response status (FrameworkBody text)))
      | Some rt \<Rightarrow> endpoint fw dp (sc_headers (ht_scope rq)) (ht_json rq) rt)"

definition application :: "framework \<Rightarrow> deps \<Rightarrow> http_request \<Rightarrow> body asgi_response prog" where
  "application fw dp rq =
     correlation_middleware (ht_scope rq) (catch (routed fw dp rq) (handle_typed fw (ht_scope rq)))"

definition serve :: "framework \<Rightarrow> deps \<Rightarrow> http_request \<Rightarrow> body asgi_response prog" where
  "serve fw dp rq = catch (application fw dp rq) handle_unexpected"

section \<open>The start of the process\<close>

text \<open>
  \<open>_lifespan\<close> when it owns its resources. \<open>connect\<close> is arq's \<open>create_pool\<close>.
\<close>

definition api_startup :: "unit prog \<Rightarrow> crypto \<Rightarrow> settings \<Rightarrow> deps prog" where
  "api_startup connect cr cfg =
     bind (register_api_keys cfg) (\<lambda>_.
     bind connect (\<lambda>_.
     bind (lift_result (build_token_vault cfg)) (\<lambda>v.
     bind (lift_result (build_adapter cfg)) (\<lambda>ad.
     bind (lift_result (make_record INFO ''api started''
             [(''event'', JStr ''api_started''), (''message'', JStr (''domain='' @ cf_domain cfg))])) (\<lambda>_.
     bind (emit_log INFO ''api_started'' ''api started'' []) (\<lambda>_.
     Ret \<lparr>dp_settings = cfg, dp_adapter = ad, dp_vault = v, dp_crypto = cr\<rparr>))))))"

text \<open>\<open>create_app(deps)\<close>: the caller owns the resources, and only logging is set up.\<close>

definition create_app :: "framework \<Rightarrow> deps \<Rightarrow> (http_request \<Rightarrow> body asgi_response prog) prog" where
  "create_app fw dp = bind (register_api_keys (dp_settings dp)) (\<lambda>_. Ret (serve fw dp))"

section \<open>The correlation id of an answer\<close>

fun body_correlation_id :: "body \<Rightarrow> string option" where
  "body_correlation_id (AcceptedBody r) = Some (ra_correlation_id r)"
| "body_correlation_id (JobBody r) = Some (js_correlation_id r)"
| "body_correlation_id (ExecutedBody r) = Some (ex_correlation_id r)"
| "body_correlation_id (ActionBody r) = Some (as_correlation_id r)"
| "body_correlation_id (ErrorBody r) = Some (en_correlation_id r)"
| "body_correlation_id b = None"

definition correlated :: "ctx \<Rightarrow> body asgi_response \<Rightarrow> bool" where
  "correlated x r \<longleftrightarrow> (\<forall>c. body_correlation_id (rs_body r) = Some c \<longrightarrow> cx_correlation_id x = Some c)"

lemma yields_current: "yields (\<lambda>y c. cx_correlation_id y = Some c) current_correlation_id x"
  by (auto simp: current_correlation_id_def set_correlation_id_def modify_ctx_def intro!: yields_skip
      split: option.split)

lemma keeps_ctx_simple [simp]:
  "keeps_ctx utcnow" "keeps_ctx perf_counter" "keeps_ctx uuid4" "keeps_ctx (emit_log l e m f)"
  "keeps_ctx (log_event l e m f)" "keeps_ctx (lift_result r)"
  by (auto simp: call_defs log_event_def lift_result_def split: reply.split sum.split)

lemma keeps_ctx_roll_back: "keeps_ctx (enqueue_or_roll_back dp j)"
  by (auto simp: enqueue_or_roll_back_def intro!: keeps_ctx_catch keeps_ctx_bind keeps_ctx_enqueue
      keeps_ctx_store keeps_ctx_transition split: exn.split)

lemma correlated_json [simp]:
  "correlated x (json_response n b) \<longleftrightarrow>
     (\<forall>c. body_correlation_id b = Some c \<longrightarrow> cx_correlation_id x = Some c)"
  by (simp add: correlated_def json_response_def)

lemma yields_with_caller:
  "(\<And>c t y. yields Q (h c t) y) \<Longrightarrow> yields Q (with_caller dp hs h) x"
  unfolding with_caller_def by (intro yields_skip)

lemma yields_answer:
  "yields (\<lambda>y a. \<forall>c. body_correlation_id (wrap a) = Some c \<longrightarrow> cx_correlation_id y = Some c) p x \<Longrightarrow>
   yields correlated (answer_with n wrap p) x"
  unfolding answer_with_def by (erule yields_bind) simp

lemma yields_submit:
  "yields (\<lambda>y a. cx_correlation_id y = Some (ra_correlation_id a)) (submit_research dp b c t) x"
  unfolding submit_research_def
  by (intro yields_skip yields_bind [OF yields_current] yields_still keeps_ctx_stage keeps_ctx_store
      keeps_ctx_roll_back keeps_ctx_simple) simp

lemma yields_poll:
  "yields (\<lambda>y a. cx_correlation_id y = Some (js_correlation_id a)) (poll_research dp j c t) x"
proof -
  have auth: "yields (\<lambda>y r. cx_correlation_id y = Some (job_correlation_id r)) (authorized_job dp j c t) x"
    unfolding authorized_job_def
    by (rule yields_skip) (auto simp: set_job_id_def set_correlation_id_def modify_ctx_def
        intro!: yields_skip split: option.split)
  show ?thesis
    unfolding poll_research_def Let_def
    by (rule yields_bind [OF auth], rule yields_still [OF keeps_ctx_store(8)])
      (auto simp: status_response_def intro!: yields_still keeps_ctx_store split: option.split)
qed

lemma yields_execute:
  "yields (\<lambda>y a. cx_correlation_id y = Some (ex_correlation_id a)) (execute_action dp b c t k) x"
proof -
  have rec: "yields (\<lambda>y a. cx_correlation_id y = Some (ex_correlation_id a))
      (record_outcome dp b k rh st out) y" for rh st out y
    unfolding record_outcome_def Let_def
    by (intro yields_bind [OF yields_current] yields_still keeps_ctx_store keeps_ctx_simple) simp
  have fresh: "yields (\<lambda>y a. cx_correlation_id y = Some (ex_correlation_id a))
      (execute_fresh dp b c t k rh) y" for rh y
    unfolding execute_fresh_def Let_def
    by (intro yields_skip) (auto intro!: yields_skip rec)
  have rep: "yields (\<lambda>y a. cx_correlation_id y = Some (ex_correlation_id a)) (replay b rh i) y" for rh i y
    unfolding replay_def by (auto intro!: yields_skip yields_bind [OF yields_current])
  show ?thesis
    unfolding execute_action_def Let_def
    by (intro yields_skip) (auto intro: fresh rep split: option.split)
qed

lemma yields_actions:
  "yields (\<lambda>y a. cx_correlation_id y = Some (as_correlation_id a)) (get_action dp i c t) x"
  "yields (\<lambda>y a. cx_correlation_id y = Some (as_correlation_id a)) (reject_action dp i c t) x"
  unfolding get_action_def reject_action_def
  by (intro yields_skip yields_bind [OF yields_current]; simp)+

lemma yields_endpoint:
  "\<forall>j. rt \<noteq> Cancel j \<Longrightarrow> yields correlated (endpoint fw dp hs b rt) x"
  by (cases rt) (auto simp: with_body_def submit_endpoint_def poll_endpoint_def execute_endpoint_def
      get_action_endpoint_def reject_action_endpoint_def split: option.split prod.split
      intro!: yields_skip yields_answer yields_with_caller yields_submit yields_poll yields_execute
        yields_actions)

lemma yields_error_answer: "yields correlated (error_answer n c m d) x"
  unfolding error_answer_def by (rule yields_bind [OF yields_current]) simp

lemma yields_routed:
  assumes "\<forall>j. route_of (ht_scope rq) \<noteq> Some (Cancel j)"
  shows "yields correlated (catch (routed fw dp rq) (handle_typed fw (ht_scope rq))) x"
proof (rule yields_catch)
  show "yields correlated (routed fw dp rq) x"
    using assms by (auto simp: routed_def intro!: yields_endpoint split: option.split prod.split)
  show "yields correlated (handle_typed fw (ht_scope rq) e) y" for e y
    by (auto simp: handle_typed_def intro: yields_error_answer split: exn.split)
qed

section \<open>What comes out\<close>

definition supplied_id :: "asgi_scope \<Rightarrow> string option" where
  "supplied_id sc =
     (case lower_headers (sc_headers sc) (lower correlation_header) of
        Some h \<Rightarrow> if h = [] then None else Some h | None \<Rightarrow> None)"

definition opaque_error :: "string \<Rightarrow> body asgi_response" where
  "opaque_error cid = json_response 500 (ErrorBody
     \<lparr>en_code = INTERNAL_ERROR, en_message = ''Internal error.'', en_details = None,
      en_correlation_id = cid\<rparr>)"

context platform
begin

lemma run_new_id: "\<exists>u. result_of W new_id s x = Inr u" "look (state_after W new_id s x) = look s"
  by (simp_all add: new_id_def run_uuid4)

lemma look_access_log: "look (state_after W (access_log sc started n) s x) = look s"
  by (rule look_unchanged [where E = "\<lambda>_. True" and R = "\<lambda>_. True"])
    (auto simp: access_log_def when_do_def perf_counter_def emit_log_def bad_reply_def Let_def split: reply.split)

text \<open>The middleware around any application: the id it binds, and what it does to the answer.\<close>

lemma run_middleware:
  assumes "sc_type sc = ''http''"
  shows "\<exists>cid s1 x1. cx_correlation_id x1 = Some cid \<and> look s1 = look s \<and>
     (\<forall>h. supplied_id sc = Some h \<longrightarrow> cid = h) \<and>
     result_of W (correlation_middleware sc app) s x =
       (case result_of W app s1 x1 of
          Inl e \<Rightarrow> Inl e
        | Inr r \<Rightarrow> Inr (echo_header cid (cx_correlation_id (ctx_after W app s1 x1)) r)) \<and>
     look (state_after W (correlation_middleware sc app) s x) = look (state_after W app s1 x1)"
proof -
  let ?first = "case lower_headers (sc_headers sc) (lower correlation_header) of
    Some h \<Rightarrow> if h = [] then new_id else Ret h | None \<Rightarrow> new_id"
  obtain cid where cid: "result_of W ?first s x = Inr cid" "\<forall>h. supplied_id sc = Some h \<longrightarrow> cid = h"
  proof (cases "supplied_id sc")
    case None
    then have "?first = new_id" by (auto simp: supplied_id_def split: option.splits if_splits)
    with run_new_id(1) [of s x] None that show thesis by auto
  next
    case (Some h)
    then have "?first = Ret h" by (auto simp: supplied_id_def split: option.splits if_splits)
    with Some that show thesis by auto
  qed
  define s0 where "s0 = state_after W ?first s x"
  have s0: "look s0 = look s" "ctx_after W ?first s x = x"
    by (auto simp: s0_def run_new_id ctx_new_id split: option.split)
  obtain rid where rid: "result_of W new_id s0 x = Inr rid" using run_new_id(1) by blast
  define x1 where "x1 = x\<lparr>cx_correlation_id := Some cid,
    cx_from_header := (lower_headers (sc_headers sc) (lower correlation_header) \<noteq> None),
    cx_request_id := Some rid\<rparr>"
  define s' where "s' = state_after W new_id s0 x"
  obtain t where t: "result_of W perf_counter s' x1 = Inr t" using run_perf_counter(1) by blast
  define s1 where "s1 = state_after W perf_counter s' x1"
  have "look s1 = look s" by (simp add: s1_def s'_def run_perf_counter run_new_id s0)
  moreover have "result_of W (correlation_middleware sc app) s x =
       (case result_of W app s1 x1 of
          Inl e \<Rightarrow> Inl e
        | Inr r \<Rightarrow> Inr (echo_header cid (cx_correlation_id (ctx_after W app s1 x1)) r))"
    "look (state_after W (correlation_middleware sc app) s x) = look (state_after W app s1 x1)"
    unfolding correlation_middleware_def Let_def
    using assms cid(1) s0(2) rid t
    by (auto simp add: run_bind s0_def [symmetric] s'_def [symmetric] ctx_new_id s1_def [symmetric]
        x1_def [symmetric] run_perf_counter(3) run_catch run_access_log run_modify_ctx look_access_log
        simp del: not_None_eq split: sum.split)
  ultimately show ?thesis using cid(2)
    by (intro exI [of _ cid] exI [of _ s1] exI [of _ x1]) (simp add: x1_def)
qed

lemma run_error_answer:
  "\<exists>cid. result_of W (error_answer n c m d) s x = Inr (json_response n (ErrorBody
     \<lparr>en_code = c, en_message = m, en_details = d, en_correlation_id = cid\<rparr>))"
  "look (state_after W (error_answer n c m d) s x) = look s"
  using run_correlation_id(1) [of s x] run_correlation_id(2) [of s x]
  by (auto simp: error_answer_def run_bind)

lemma run_unexpected:
  "\<exists>cid. result_of W (handle_unexpected e) s x = Inr (opaque_error cid)"
  "look (state_after W (handle_unexpected e) s x) = look s"
  using run_error_answer(1) [of 500 INTERNAL_ERROR "''Internal error.''" None]
  by (simp_all add: handle_unexpected_def run_bind run_log run_error_answer(2) opaque_error_def)

text \<open>The two ways an answer comes about: from inside the middleware, or as the opaque error.\<close>

lemma serve_cases [consumes 1, case_names opaque answered]:
  assumes "sc_type (ht_scope rq) = ''http''"
  obtains (opaque) cid s1 x1 e where
      "result_of W (catch (routed fw dp rq) (handle_typed fw (ht_scope rq))) s1 x1 = Inl e"
      "result_of W (serve fw dp rq) s x = Inr (opaque_error cid)"
  | (answered) cid s1 x1 r where
      "cx_correlation_id x1 = Some cid" "look s1 = look s" "\<forall>h. supplied_id (ht_scope rq) = Some h \<longrightarrow> cid = h"
      "result_of W (catch (routed fw dp rq) (handle_typed fw (ht_scope rq))) s1 x1 = Inr r"
      "result_of W (serve fw dp rq) s x = Inr (echo_header cid (cx_correlation_id
         (ctx_after W (catch (routed fw dp rq) (handle_typed fw (ht_scope rq))) s1 x1)) r)"
      "look (state_after W (serve fw dp rq) s x) =
         look (state_after W (catch (routed fw dp rq) (handle_typed fw (ht_scope rq))) s1 x1)"
proof -
  let ?app = "catch (routed fw dp rq) (handle_typed fw (ht_scope rq))"
  from run_middleware [OF assms, of s ?app x] obtain cid s1 x1 where
    start: "cx_correlation_id x1 = Some cid" "look s1 = look s"
      "\<forall>h. supplied_id (ht_scope rq) = Some h \<longrightarrow> cid = h"
    and app: "result_of W (application fw dp rq) s x =
      (case result_of W ?app s1 x1 of Inl e \<Rightarrow> Inl e
        | Inr r \<Rightarrow> Inr (echo_header cid (cx_correlation_id (ctx_after W ?app s1 x1)) r))"
      "look (state_after W (application fw dp rq) s x) = look (state_after W ?app s1 x1)"
    unfolding application_def by blast
  show thesis
  proof (cases "result_of W ?app s1 x1")
    case (Inl e)
    obtain cid' where "result_of W (handle_unexpected e) (state_after W (application fw dp rq) s x)
        (ctx_after W (application fw dp rq) s x) = Inr (opaque_error cid')"
      using run_unexpected(1) by blast
    with app(1) [unfolded Inl] have "result_of W (serve fw dp rq) s x = Inr (opaque_error cid')"
      by (simp add: serve_def run_catch)
    with Inl show thesis by (rule opaque)
  next
    case (Inr r)
    have res: "result_of W (application fw dp rq) s x =
        Inr (echo_header cid (cx_correlation_id (ctx_after W ?app s1 x1)) r)"
      by (simp only: app(1) Inr sum.case)
    show thesis
      by (rule answered [OF start Inr]) (simp_all only: serve_def run_catch res sum.case app(2))
  qed
qed

lemma request_answered:
  assumes "sc_type (ht_scope rq) = ''http''"
  obtains r cid where "result_of W (serve fw dp rq) s x = Inr r"
    "(\<exists>hs. rs_headers r = hs @ [(correlation_header, cid)] \<and>
       ((\<forall>j. route_of (ht_scope rq) \<noteq> Some (Cancel j)) \<longrightarrow>
        (\<forall>c. body_correlation_id (rs_body r) = Some c \<longrightarrow> c = cid \<or> c = []))) \<or>
     r = opaque_error cid"
  using assms
proof (cases rule: serve_cases [where fw = fw and dp = dp and s = s and x = x])
  case (opaque cid s1 x1 e)
  from opaque(2) show thesis by (rule that) blast
next
  case (answered cid s1 x1 r)
  let ?x = "ctx_after W (catch (routed fw dp rq) (handle_typed fw (ht_scope rq))) s1 x1"
  let ?cid = "case cx_correlation_id ?x of Some c \<Rightarrow> if c = [] then cid else c | None \<Rightarrow> cid"
  have "correlated ?x r" if "\<forall>j. route_of (ht_scope rq) \<noteq> Some (Cancel j)"
    using yields_result [OF yields_routed [OF that] answered(4)] .
  then have "(\<forall>j. route_of (ht_scope rq) \<noteq> Some (Cancel j)) \<longrightarrow>
      (\<forall>c. body_correlation_id (rs_body r) = Some c \<longrightarrow> c = ?cid \<or> c = [])"
    by (auto simp: correlated_def)
  with answered(5) show thesis by (intro that) (auto simp: echo_header_def)
qed

end

end
