(* ===== verification/Request_Path.thy ===== *)
theory Request_Path
  imports App_Main
begin

text \<open>
  Properties of a request as a whole, from the socket to the answer: through the outermost error
  handler, the correlation middleware, the typed error handlers, the routing, authentication and the
  handler.
\<close>

section \<open>Whatever the environment answers\<close>

definition plumbing :: "(cmd \<Rightarrow> bool) \<Rightarrow> bool" where
  "plumbing Q \<longleftrightarrow> Q NewUuid \<and> Q PerfCounter \<and> (\<forall>l e m f. Q (LogLine l e m f))"

lemma safe_plumbing:
  assumes "plumbing Q"
  shows "safe Q (\<lambda>_. True) (\<lambda>_. True) new_id" "safe Q (\<lambda>_. True) (\<lambda>_. True) perf_counter"
    "safe Q (\<lambda>_. True) (\<lambda>_. True) (emit_log l e m f)"
    "safe Q (\<lambda>_. True) (\<lambda>_. True) (access_log sc started n)"
    "safe Q (\<lambda>_. True) (\<lambda>_. True) current_correlation_id"
    "safe Q (\<lambda>_. True) (\<lambda>_. True) (error_answer st c m d)"
  using assms
  by (auto simp: plumbing_def new_id_def access_log_def when_do_def Let_def error_answer_def emit_log_def
      intro!: safe_bind [where R = "\<lambda>_. True"])

lemma safe_middleware:
  assumes Q: "plumbing Q" and app: "safe Q E R app" and echo: "\<And>cid b r. R r \<Longrightarrow> R (echo_header cid b r)"
  shows "safe Q (\<lambda>_. True) R (correlation_middleware sc app)"
proof (cases "sc_type sc = ''http''")
  case True
  note T = safe_bind [where R = "\<lambda>_. True"]
  have after: "safe Q (\<lambda>_. True) R
      (bind app (\<lambda>r. GetCtx (\<lambda>x. bind (access_log sc t (Some (rs_status r))) (\<lambda>_.
         bind (modify_ctx (reset_request old)) (\<lambda>_.
         Ret (echo_header cid (cx_correlation_id x) r))))))" for t old cid
    by (rule safe_bind [OF safe_mono [OF app]]) (auto intro!: T safe_plumbing [OF Q] echo)
  have inner: "safe Q (\<lambda>_. True) R
      (catch (bind app (\<lambda>r. GetCtx (\<lambda>x. bind (access_log sc t (Some (rs_status r))) (\<lambda>_.
         bind (modify_ctx (reset_request old)) (\<lambda>_.
         Ret (echo_header cid (cx_correlation_id x) r))))))
       (\<lambda>e. bind (access_log sc t None) (\<lambda>_. bind (modify_ctx (reset_request old)) (\<lambda>_. Raise e))))"
    for t old cid
    by (rule safe_catch [OF after]) (auto intro!: T safe_plumbing [OF Q])
  show ?thesis
    unfolding correlation_middleware_def Let_def
    using True by (auto intro!: T safe_plumbing [OF Q] inner split: option.split)
qed (simp add: correlation_middleware_def safe_mono [OF app])

lemma safe_handle_typed:
  "plumbing Q \<Longrightarrow> safe Q (\<lambda>_. True) (\<lambda>_. True) (handle_typed fw sc e)"
  by (auto simp: handle_typed_def intro: safe_plumbing split: exn.split)

lemma safe_serve:
  assumes Q: "plumbing Q" and "safe Q (\<lambda>_. True) (\<lambda>_. True) (routed fw dp rq)"
  shows "safe Q (\<lambda>_. True) (\<lambda>_. True) (serve fw dp rq)"
proof -
  have "safe Q (\<lambda>_. True) (\<lambda>_. True) (application fw dp rq)"
    unfolding application_def
    by (rule safe_middleware [OF Q safe_catch [OF assms(2) safe_handle_typed [OF Q]]]) auto
  then show ?thesis
    unfolding serve_def
    by (rule safe_catch)
      (auto simp: handle_unexpected_def intro!: safe_bind [where R = "\<lambda>_. True"] safe_plumbing [OF Q])
qed

text \<open>What each handler can do: everything but an execution keeps to the store, the vault, the queue
  and the log.\<close>

lemma safe_actions_research:
  assumes "settings_ok (dp_settings dp)"
  shows "safe (research_cmd (dp_settings dp) P) (\<lambda>_. True) (\<lambda>_. True) (get_action dp a c t)"
    and "safe (research_cmd (dp_settings dp) P) (\<lambda>_. True) (\<lambda>_. True) (reject_action dp a c t)"
  unfolding get_action_def reject_action_def
  by (auto intro!: safe_steps safe_authorized_proposal safe_store_in_research assms simp: research_cmd_def)

definition api_cmd :: "settings \<Rightarrow> (proposed_action \<Rightarrow> bool) \<Rightarrow> cmd \<Rightarrow> bool" where
  "api_cmd cfg P c \<longleftrightarrow> research_cmd cfg P c \<or> health_cmd c"

lemma in_api_cmd:
  "safe (research_cmd cfg P) E R p \<Longrightarrow> safe (api_cmd cfg P) E R p"
  "safe health_cmd E R p \<Longrightarrow> safe (api_cmd cfg P) E R p"
  by (erule safe_mono; simp add: api_cmd_def)+

lemma plumbing_cmds [simp]:
  "plumbing (api_cmd cfg P)" "plumbing (execute_cmd cfg P)"
  by (auto simp: plumbing_def api_cmd_def execute_cmd_def research_cmd_def)

lemma safe_answer_with:
  "safe Q E (\<lambda>_. True) p \<Longrightarrow> safe Q E (\<lambda>_. True) (answer_with n wrap p)"
  unfolding answer_with_def by (erule safe_bind) simp

lemma safe_endpoint:
  assumes ok: "settings_ok (dp_settings dp)" and "rt \<noteq> Execute"
  shows "safe (api_cmd (dp_settings dp) P) (\<lambda>_. True) (\<lambda>_. True) (endpoint fw dp hs b rt)"
proof (cases rt)
  case HealthCheck
  have "safe (api_cmd (dp_settings dp) P) (\<lambda>_. True) (\<lambda>_. True) (health dp hs)"
    by (rule in_api_cmd(2) [OF safe_mono [OF safe_health]]) auto
  with HealthCheck show ?thesis by (auto intro!: safe_bind [where R = "\<lambda>_. True"] split: prod.split)
next
  case (GetAction a)
  then show ?thesis
    by (auto simp: get_action_endpoint_def
        intro!: safe_answer_with in_api_cmd(1) safe_with_caller safe_actions_research ok)
next
  case (RejectAction a)
  then show ?thesis
    by (auto simp: reject_action_endpoint_def
        intro!: safe_answer_with in_api_cmd(1) safe_with_caller safe_actions_research ok)
qed (use assms in \<open>auto simp: with_body_def intro!: safe_answer_with in_api_cmd(1) safe_research_endpoints
      split: option.split\<close>)

lemma api_cmd_quiet: "safe (api_cmd cfg P) E R p \<Longrightarrow> at_most (mutating mut) 0 p"
  by (rule at_most_none, erule safe_mono)
    (auto simp: api_cmd_def elim!: mutating.elims health_cmd.elims auth_cmd.elims)

lemma api_cmd_writes: "api_cmd cfg P c \<Longrightarrow> store_cmd cfg P c \<or> \<not> writes c"
  by (cases c) (auto simp: api_cmd_def research_cmd_def)

section \<open>At most one mutation\<close>

lemma quiet_plumbing:
  "at_most (mutating mut) n new_id" "at_most (mutating mut) n perf_counter"
  "at_most (mutating mut) n (emit_log l e m f)" "at_most (mutating mut) n (access_log sc t k)"
  "at_most (mutating mut) n (error_answer st c m d)"
proof -
  have Q: "plumbing (\<lambda>c. \<not> mutating mut c)" by (simp add: plumbing_def)
  show "at_most (mutating mut) n new_id" "at_most (mutating mut) n perf_counter"
    "at_most (mutating mut) n (emit_log l e m f)" "at_most (mutating mut) n (access_log sc t k)"
    "at_most (mutating mut) n (error_answer st c m d)"
    by (rule at_most_mono [OF at_most_none [OF safe_plumbing(1) [OF Q]]]
        at_most_mono [OF at_most_none [OF safe_plumbing(2) [OF Q]]]
        at_most_mono [OF at_most_none [OF safe_plumbing(3) [OF Q]]]
        at_most_mono [OF at_most_none [OF safe_plumbing(4) [OF Q]]]
        at_most_mono [OF at_most_none [OF safe_plumbing(6) [OF Q]]], simp)+
qed

lemma middleware_at_most:
  assumes "at_most (mutating mut) n app"
  shows "at_most (mutating mut) n (correlation_middleware sc app)"
proof (cases "sc_type sc = ''http''")
  case True
  have "at_most (mutating mut) (n + 0)
      (catch (bind app (\<lambda>r. GetCtx (\<lambda>x. bind (access_log sc t (Some (rs_status r))) (\<lambda>_.
         bind (modify_ctx (reset_request old)) (\<lambda>_.
         Ret (echo_header cid (cx_correlation_id x) r))))))
       (\<lambda>e. bind (access_log sc t None) (\<lambda>_. bind (modify_ctx (reset_request old)) (\<lambda>_. Raise e))))"
    for t old cid
    by (rule at_most_catch)
      (auto simp: modify_ctx_def intro!: at_most_after [OF assms] at_most_before [OF quiet_plumbing(4)])
  then show ?thesis
    unfolding correlation_middleware_def Let_def
    using True by (auto intro!: at_most_before quiet_plumbing split: option.split)
qed (simp add: correlation_middleware_def assms)

lemma routed_at_most:
  assumes "domain_adapter (dp_adapter dp) mut" "settings_ok (dp_settings dp)"
  shows "at_most (mutating mut) (if route_of (ht_scope rq) = Some Execute then 1 else 0) (routed fw dp rq)"
proof (cases "route_of (ht_scope rq) = Some Execute")
  case True
  have caller: "at_most (mutating mut) 0 (require_api_key cfg hs)"
    "at_most (mutating mut) 0 (get_user_token ad hs)" for cfg ad hs
    by (rule quiet_research [OF safe_any_auth(1)] quiet_research [OF safe_any_auth(2)])+
  have "at_most (mutating mut) 1 (execute_endpoint pd dp hs j)" for pd hs j
    unfolding execute_endpoint_def with_caller_def
    by (auto intro!: at_most_before caller domain_adapter.execute_action_once [OF assms(1)]
        split: option.split)
  with True show ?thesis
    by (auto simp: routed_def with_body_def answer_with_def intro!: at_most_after split: option.split)
next
  case False
  then show ?thesis
    by (auto simp: routed_def intro!: api_cmd_quiet [OF safe_endpoint [OF assms(2)]]
        split: option.split prod.split)
qed

lemma serve_at_most:
  assumes "at_most (mutating mut) n (routed fw dp rq)"
  shows "at_most (mutating mut) n (serve fw dp rq)"
proof -
  have "at_most (mutating mut) (n + 0) (catch (routed fw dp rq) (handle_typed fw (ht_scope rq)))"
    by (rule at_most_catch [OF assms]) (auto simp: handle_typed_def intro: quiet_plumbing split: exn.split)
  then have "at_most (mutating mut) n (application fw dp rq)"
    unfolding application_def by (intro middleware_at_most) simp
  then have "at_most (mutating mut) (n + 0) (serve fw dp rq)"
    unfolding serve_def
    by (rule at_most_catch) (auto simp: handle_unexpected_def intro!: at_most_before quiet_plumbing)
  then show ?thesis by simp
qed

section \<open>Without a key\<close>

definition unauthenticated :: "settings \<Rightarrow> headers \<Rightarrow> bool" where
  "unauthenticated cfg hs \<longleftrightarrow>
     (\<forall>p. request_header ''X-Api-Key'' hs = Some p \<longrightarrow> p = [] \<or> p \<notin> snd ` set (cf_api_keys cfg))"

fun inert :: "cmd \<Rightarrow> bool" where
  "inert NewUuid = True"
| "inert PerfCounter = True"
| "inert (LogLine l e m f) = True"
| "inert _ = False"

lemma plumbing_inert [simp]: "plumbing inert"
  by (simp add: plumbing_def)

abbreviation refused :: "exn \<Rightarrow> bool" where
  "refused e \<equiv> \<exists>m. e = ApiError 401 INVALID_API_KEY m None"

lemma no_key_no_consumer:
  assumes "unauthenticated cfg hs"
  shows "safe inert refused (\<lambda>_. False) (require_api_key cfg hs)"
  using assms
  by (auto simp: require_api_key_def emit_log_def unauthenticated_def verify_api_key_None [THEN iffD2]
      split: option.split)

text \<open>The routes with a request body; it is read and parsed before the dependencies run.\<close>

definition reads_body :: "route \<Rightarrow> bool" where
  "reads_body rt \<longleftrightarrow> rt = Submit \<or> rt = Execute"

lemma no_key_no_endpoint:
  assumes "unauthenticated (dp_settings dp) hs" "rt \<noteq> LiveCheck" "reads_body rt \<longrightarrow> b \<noteq> None"
  shows "safe inert refused (\<lambda>_. False) (endpoint fw dp hs b rt)"
proof -
  note refuse = safe_bind [OF no_key_no_consumer [OF assms(1)], of "\<lambda>_. False"]
  show ?thesis
    using assms(2,3)
    by (cases rt) (auto simp: reads_body_def health_def Let_def with_body_def answer_with_def with_caller_def
        submit_endpoint_def poll_endpoint_def cancel_endpoint_def execute_endpoint_def
        get_action_endpoint_def reject_action_endpoint_def intro!: refuse split: option.split)
qed

lemma no_key_routed:
  assumes "unauthenticated (dp_settings dp) (sc_headers (ht_scope rq))"
    "route_of (ht_scope rq) = Some rt" "rt \<noteq> LiveCheck"
    "reads_body rt \<longrightarrow> ht_json rq \<noteq> None"
  shows "safe inert refused (\<lambda>_. False) (routed fw dp rq)"
  using no_key_no_endpoint [OF assms(1,3,4)] assms(2) by (simp add: routed_def)

context platform
begin

lemma no_key_answer:
  assumes http: "sc_type (ht_scope rq) = ''http''"
    and r: "safe inert refused (\<lambda>_. False) (routed fw dp rq)"
  shows "\<exists>r e. result_of W (serve fw dp rq) s x = Inr r \<and> rs_status r = 401 \<and>
     rs_body r = ErrorBody e \<and> en_code e = INVALID_API_KEY \<and> en_details e = None"
proof -
  let ?app = "catch (routed fw dp rq) (handle_typed fw (ht_scope rq))"
  have app: "\<exists>r e. result_of W ?app s x = Inr r \<and> rs_status r = 401 \<and> rs_body r = ErrorBody e \<and>
      en_code e = INVALID_API_KEY \<and> en_details e = None" for s x
  proof -
    obtain m where m: "result_of W (routed fw dp rq) s x = Inl (ApiError 401 INVALID_API_KEY m None)"
      using safe_result [OF r, where W = W and s = s and x = x] by (auto split: sum.splits)
    from run_error_answer(1) [of 401 INVALID_API_KEY m None] show ?thesis
      by (fastforce simp: run_catch m handle_typed_def json_response_def)
  qed
  from http show ?thesis
  proof (cases rule: serve_cases [where fw = fw and dp = dp and s = s and x = x])
    case (answered cid s1 x1 r)
    with app [of s1 x1] show ?thesis by (auto simp: echo_header_def)
  next
    case (opaque cid s1 x1 e)
    with app [of s1 x1] show ?thesis by auto
  qed
qed

end

section \<open>The correlation id of a submission\<close>

lemma holds_id:
  "cx_correlation_id x = Some h \<Longrightarrow>
   yields (\<lambda>y a. cx_correlation_id y = Some h \<and> ra_correlation_id a = h) (submit_research dp b c t) x"
  unfolding submit_research_def set_job_id_def modify_ctx_def current_correlation_id_def
  by (rule yields_still, simp)
    (auto intro!: yields_still keeps_ctx_stage keeps_ctx_store keeps_ctx_roll_back keeps_ctx_simple)

lemma caller_keeps_id:
  assumes "cx_correlation_id x = Some h"
    "\<And>c t y. cx_correlation_id y = Some h \<Longrightarrow> yields Q (f c t) y"
  shows "yields Q (with_caller dp hs f) x"
proof -
  have user: "keeps_ctx (get_user_token ad hs)" for ad
    by (auto simp: get_user_token_def Let_def register_secret_def register_secret_value_def when_do_def
        split: option.split)
  have key: "yields (\<lambda>y _. cx_correlation_id y = Some h) (require_api_key cfg hs) x" for cfg
    using assms(1) by (auto simp: require_api_key_def emit_log_def set_consumer_id_def modify_ctx_def
        split: option.split)
  show ?thesis
    unfolding with_caller_def
    by (rule yields_bind [OF key], rule yields_still [OF user]) (rule assms(2))
qed

lemma submission_keeps_id:
  assumes "cx_correlation_id x = Some h"
  shows "yields (\<lambda>y r. cx_correlation_id y = Some h \<and> body_correlation_id (rs_body r) = Some h)
    (endpoint fw dp hs b Submit) x"
proof -
  have "yields (\<lambda>y a. cx_correlation_id y = Some h \<and> ra_correlation_id a = h)
      (submit_endpoint dp hs j) x" for j
    unfolding submit_endpoint_def
    by (rule caller_keeps_id [OF assms]) (auto intro: holds_id split: option.split)
  then show ?thesis
    by (auto simp: with_body_def answer_with_def json_response_def intro!: yields_bind split: option.split)
qed

lemma startup_record_refused:
  "make_record INFO ''api started'' [(''event'', e), (''message'', m)] =
     Inl (KeyError ''Attempt to overwrite message in LogRecord'')"
  by (simp add: make_record_def reserved_def record_attributes_def)

text \<open>What the store holds for an accepted submission.\<close>

definition queued_for :: "deps \<Rightarrow> research_accepted \<Rightarrow> view \<Rightarrow> bool" where
  "queued_for dp a v \<longleftrightarrow>
     (\<exists>record. vw_job v (ra_job_id a) = Some record \<and> job_status record = QUEUED \<and>
        job_correlation_id record = ra_correlation_id a \<and>
        job_consumer_id record \<in> fst ` set (cf_api_keys (dp_settings dp)))"

lemma caught [consumes 1, case_names handled returned]:
  assumes "result_of W (catch p h) s x = Inr r"
  obtains (handled) e where "result_of W p s x = Inl e"
      "result_of W (h e) (state_after W p s x) (ctx_after W p s x) = Inr r"
  | (returned) "result_of W p s x = Inr r" "ctx_after W (catch p h) s x = ctx_after W p s x"
  using assms by (auto simp: run_catch split: sum.splits)

context platform
begin

lemma accepted_is_queued:
  assumes "result_of W (endpoint fw dp hs b Submit) s x = Inr r" "rs_body r = AcceptedBody a"
    "settings_ok (dp_settings dp)" "well_typed (dp_settings dp) P (look s)"
  shows "queued_for dp a (view_of (dp_settings dp) (look (state_after W (endpoint fw dp hs b Submit) s x)))"
proof -
  let ?cfg = "dp_settings dp"
  from assms(1,2) obtain j where j: "b = Some j" "result_of W (submit_endpoint dp hs j) s x = Inr a"
    by (auto simp: with_body_def answer_with_def run_bind json_response_def split: option.splits sum.splits)
  then have after: "state_after W (endpoint fw dp hs b Submit) s x = state_after W (submit_endpoint dp hs j) s x"
    by (simp add: with_body_def answer_with_def run_bind)
  from j(2) obtain c t s1 x1 s2 x2 rb where
    c: "runs W (require_api_key ?cfg hs) s x c s1 x1"
    and t: "runs W (get_user_token (dp_adapter dp) hs) s1 x1 t s2 x2"
    and sub: "runs W (submit_research dp rb c t) s2 x2 a
        (state_after W (submit_endpoint dp hs j) s x) (ctx_after W (submit_endpoint dp hs j) s x)"
    unfolding submit_endpoint_def with_caller_def runs_iff
    by (auto simp: runs_bind runs_simps split: option.splits)
  have quiet: "safe (\<lambda>c. \<not> writes c) (\<lambda>_. True) (\<lambda>_. True) (require_api_key ?cfg hs)"
    "safe (\<lambda>c. \<not> writes c) (\<lambda>_. True) (\<lambda>_. True) (get_user_token (dp_adapter dp) hs)"
    by (rule safe_mono [OF safe_require_api_key] safe_mono [OF safe_get_user_token];
        auto elim: auth_cmd.elims)+
  have "look s2 = look s"
    using look_unchanged [OF quiet(1)] look_unchanged [OF quiet(2)] c t by (auto simp: runs_def)
  moreover have "c \<in> fst ` set (cf_api_keys ?cfg)"
    using safe_result [OF safe_require_api_key [where cfg = ?cfg and hs = hs], where W = W and s = s and x = x] c
    by (force simp: runs_def)
  moreover obtain now where "vw_job (view_of ?cfg (look (state_after W (submit_endpoint dp hs j) s x))) =
      (vw_job (view_of ?cfg (look s)))(ra_job_id a \<mapsto>
        new_job_record dp (ra_job_id a) rb c t (ra_correlation_id a) now)"
    using submit_outcomes [OF assms(3), of P s2 x2 rb c t] assms(4) sub \<open>look s2 = look s\<close>
    by (auto simp: submit_outcome_def runs_def)
  ultimately show ?thesis
    unfolding after queued_for_def by (simp add: new_job_record_def)
qed

lemma submission_id:
  assumes http: "sc_type (ht_scope rq) = ''http''" and route: "route_of (ht_scope rq) = Some Submit"
    and supplied: "supplied_id (ht_scope rq) = Some h"
    and res: "result_of W (serve fw dp rq) s x = Inr r" and body: "rs_body r = AcceptedBody a"
    and cfg: "settings_ok (dp_settings dp)" and typed: "well_typed (dp_settings dp) P (look s)"
  shows "ra_correlation_id a = h \<and> (correlation_header, h) \<in> set (rs_headers r) \<and>
    queued_for dp a (view_of (dp_settings dp) (look (state_after W (serve fw dp rq) s x)))"
proof -
  from http show ?thesis
  proof (cases rule: serve_cases [where fw = fw and dp = dp and s = s and x = x])
    case (opaque cid s1 x1 e)
    with res body show ?thesis by (auto simp: opaque_error_def json_response_def)
  next
    case (answered cid s1 x1 r0)
    have routed: "routed fw dp rq = endpoint fw dp (sc_headers (ht_scope rq)) (ht_json rq) Submit"
      by (simp add: routed_def route del: endpoint.simps)
    have cid: "cid = h" using answered(3) supplied by blast
    have r: "r = echo_header h (cx_correlation_id
        (ctx_after W (catch (routed fw dp rq) (handle_typed fw (ht_scope rq))) s1 x1)) r0"
      using answered(5) res cid by simp
    from answered(4) show ?thesis
    proof (cases rule: caught)
      case (handled e)
      then have "\<exists>err. rs_body r0 = ErrorBody err"
        by (auto simp: handle_typed_def error_answer_def run_bind json_response_def
            split: exn.splits sum.splits)
      with r body show ?thesis by (auto simp: echo_header_def)
    next
      case returned
      have "look (state_after W (serve fw dp rq) s x) = look (state_after W (routed fw dp rq) s1 x1)"
        using answered(6) returned by (simp add: run_catch)
      moreover have "cx_correlation_id (ctx_after W (routed fw dp rq) s1 x1) = Some h \<and>
          body_correlation_id (rs_body r0) = Some h"
        using yields_result [OF submission_keeps_id [OF answered(1)] returned(1) [unfolded routed]]
        by (simp add: routed cid)
      moreover have "rs_body r0 = AcceptedBody a" using r body by (simp add: echo_header_def)
      moreover have "queued_for dp a (view_of (dp_settings dp) (look (state_after W (routed fw dp rq) s1 x1)))"
        using returned(1) calculation(3) answered(2) typed cfg unfolding routed
        by (intro accepted_is_queued) auto
      ultimately show ?thesis using r returned(2) by (auto simp: echo_header_def)
    qed
  qed
qed

end

section \<open>Properties\<close>


definition demo_framework :: framework where
  "demo_framework = \<lparr>fw_parse_datetime = (\<lambda>_. None), fw_validation_errors = (\<lambda>_. JArr []),
     fw_no_route = (\<lambda>_. (404, ''Not Found''))\<rparr>"

definition keyed_deps :: deps where
  "keyed_deps = demo_deps\<lparr>dp_settings := default_settings\<lparr>cf_api_keys := [(''alpha'', ''k1'')]\<rparr>\<rparr>"

definition submission :: "(string \<times> string) list \<Rightarrow> http_request" where
  "submission hs =
     \<lparr>ht_scope = \<lparr>sc_type = ''http'', sc_method = ''POST'', sc_path = ''/research'', sc_headers = hs\<rparr>,
      ht_json = Some (JObj [(''task'', JStr ''look''), (''session_id'', JStr ''s1'')])\<rparr>"


text \<open>
  C10: without a key nothing happens. Every request to any route but the liveness probe that presents no
  configured API key (and whose body is JSON, where the route has one) is answered 401 \<open>INVALID_API_KEY\<close>, and all it does is draw ids, read the
  clock and write log lines: no store access, no queue, no vault, no call to the target system.
\<close>

theorem unauthenticated_is_refused:
  assumes "platform W look" "sc_type (ht_scope rq) = ''http''"
    and "unauthenticated (dp_settings dp) (sc_headers (ht_scope rq))"
    and "route_of (ht_scope rq) = Some rt" "rt \<noteq> LiveCheck"
    and "reads_body rt \<longrightarrow> ht_json rq \<noteq> None"
  shows "(\<exists>r e. result_of W (serve fw dp rq) s x = Inr r \<and> rs_status r = 401 \<and>
            rs_body r = ErrorBody e \<and> en_code e = INVALID_API_KEY \<and> en_details e = None) \<and>
         inert ` fst ` set (trace_of W (serve fw dp rq) s x) \<subseteq> {True}"
proof
  note r = no_key_routed [OF assms(3-6)]
  show "\<exists>r e. result_of W (serve fw dp rq) s x = Inr r \<and> rs_status r = 401 \<and>
      rs_body r = ErrorBody e \<and> en_code e = INVALID_API_KEY \<and> en_details e = None"
    by (rule platform.no_key_answer [OF assms(1,2) r])
  have "safe inert (\<lambda>_. True) (\<lambda>_. True) (serve fw dp rq)"
    by (rule safe_serve [OF plumbing_inert safe_mono [OF r]]) auto
  then show "inert ` fst ` set (trace_of W (serve fw dp rq) s x) \<subseteq> {True}"
    by (auto dest: safe_trace)
qed

theorem unauthenticated_is_refused_witness:
  "\<exists>r. result_of mem_world (serve demo_framework keyed_deps (submission [(''X-API-Key'', ''guess'')])) mem_empty
     empty_ctx = Inr r \<and> rs_status r = 401"
proof -
  have "request_header ''X-Api-Key'' [(''X-API-Key'', ''guess'')] = Some ''guess''" by code_simp
  then have "unauthenticated (dp_settings keyed_deps) (sc_headers (ht_scope (submission [(''X-API-Key'', ''guess'')])))"
    by (simp add: unauthenticated_def submission_def keyed_deps_def)
  from unauthenticated_is_refused [OF platform_mem _ this, of Submit demo_framework mem_empty empty_ctx]
  show ?thesis by (auto simp: submission_def route_defs)
qed

text \<open>
  C6: one request sends at most one mutating request to the target system, and only \<open>POST /execute\<close>
  sends any, in every environment.
\<close>

theorem one_mutation_per_request:
  assumes "domain_adapter (dp_adapter dp) mut" "settings_ok (dp_settings dp)"
  shows "length (mutations mut (trace_of W (serve fw dp rq) s x)) \<le>
           (if route_of (ht_scope rq) = Some Execute then 1 else 0)"
  unfolding mutations_def by (rule at_most_trace [OF serve_at_most [OF routed_at_most [OF assms]]])

theorem one_mutation_per_request_witness:
  "length (mutations jira_mutates (trace_of mem_world (serve demo_framework keyed_deps (submission []))
     mem_empty empty_ctx)) \<le> 0"
proof -
  have "dp_adapter keyed_deps = jira_adapter ''https://jira''" by (simp add: keyed_deps_def)
  then have ad: "domain_adapter (dp_adapter keyed_deps) jira_mutates" by (simp only: jira_domain)
  have "settings_ok (dp_settings keyed_deps)"
    by (simp add: keyed_deps_def settings_ok_def default_settings_def)
  note ok = ad this
  have no: "route_of (ht_scope (submission [])) \<noteq> Some Execute"
    by (simp add: submission_def route_defs)
  from one_mutation_per_request [OF ok, where W = mem_world and rq = "submission []" and
      fw = demo_framework and s = mem_empty and x = empty_ctx]
  show ?thesis unfolding if_not_P [OF no] .
qed

text \<open>
  C37: an accepted submission, end to end. The correlation id the caller supplies is the one in the
  body, the one in the echoed header and the one of the record in the store, which is queued and
  charged to a configured consumer.
\<close>

theorem submission_keeps_correlation_id:
  assumes "platform W look" "sc_type (ht_scope rq) = ''http''" "route_of (ht_scope rq) = Some Submit"
    and "supplied_id (ht_scope rq) = Some h"
    and "result_of W (serve fw dp rq) s x = Inr r" "rs_body r = AcceptedBody a"
    and "settings_ok (dp_settings dp)" "well_typed (dp_settings dp) P (look s)"
  shows "ra_correlation_id a = h \<and> (correlation_header, h) \<in> set (rs_headers r) \<and>
    queued_for dp a (view_of (dp_settings dp) (look (state_after W (serve fw dp rq) s x)))"
  by (rule platform.submission_id [OF assms])

definition accepted :: "exn + body asgi_response \<Rightarrow> bool" where
  "accepted res =
     (case res of Inr r \<Rightarrow> (case rs_body r of AcceptedBody a \<Rightarrow> True | _ \<Rightarrow> False) | Inl e \<Rightarrow> False)"

abbreviation traced_submission :: http_request where
  "traced_submission \<equiv> submission [(''X-Api-Key'', ''k1''), (''x-correlation-id'', ''c-7'')]"

theorem submission_keeps_correlation_id_witness:
  "\<exists>r a. result_of mem_world (serve demo_framework health_deps traced_submission) mem_empty empty_ctx = Inr r \<and>
     rs_body r = AcceptedBody a \<and> ra_correlation_id a = ''c-7'' \<and>
     queued_for health_deps a (view_of (dp_settings health_deps) (mem_keys
       (state_after mem_world (serve demo_framework health_deps traced_submission) mem_empty empty_ctx)))"
proof -
  have "accepted (result_of mem_world (serve demo_framework health_deps traced_submission) mem_empty empty_ctx)"
    by code_simp
  then obtain r a where r: "result_of mem_world (serve demo_framework health_deps traced_submission)
      mem_empty empty_ctx = Inr r" "rs_body r = AcceptedBody a"
    by (auto simp: accepted_def split: sum.splits body.splits)
  have id: "supplied_id (ht_scope traced_submission) = Some ''c-7''" by code_simp
  have "settings_ok (dp_settings health_deps)"
    by (simp add: health_deps_def settings_ok_def default_settings_def)
  moreover have "well_typed (dp_settings health_deps) (\<lambda>_. True) (mem_keys mem_empty)"
    by (simp add: mem_empty_def)
  ultimately show ?thesis
    using submission_keeps_correlation_id [OF platform_mem _ _ id r] r
    by (auto simp: submission_def route_defs)
qed

text \<open>
  The API process cannot start in the mode in which it owns its resources. The record of the
  line \<open>api started\<close> is built with an \<open>extra\<close> named \<open>message\<close>, which the standard library refuses; when
  everything before it succeeds the start ends with that \<open>KeyError\<close>.
\<close>

theorem api_startup_raises:
  "(\<exists>e. result_of W (api_startup connect cr cfg) s x = Inl e) \<and>
   (build_token_vault cfg = Inr v \<longrightarrow> build_adapter cfg = Inr ad \<longrightarrow>
    result_of W (api_startup (Ret ()) cr cfg) s x =
      Inl (KeyError ''Attempt to overwrite message in LogRecord''))"
proof -
  have keys: "result_of W (register_api_keys cfg) s x = Inr ()" for s x
  proof -
    have "result_of W (foldr (\<lambda>(c, key) p. bind (register_secret (Some key)) (\<lambda>_. p)) ks (Ret ())) s x = Inr ()"
      for ks s x
      by (induction ks arbitrary: s x)
        (auto simp: run_bind register_secret_def register_secret_value_def when_do_def split: prod.split)
    then show ?thesis by (simp add: register_api_keys_def)
  qed
  show ?thesis
    by (auto simp: api_startup_def run_bind keys run_lift_result startup_record_refused split: sum.split)
qed

theorem api_startup_raises_witness:
  "result_of mem_world (api_startup (Ret ()) demo_crypto default_settings) mem_empty empty_ctx =
     Inl (KeyError ''Attempt to overwrite message in LogRecord'')"
proof -
  have "build_token_vault default_settings = Inr NullTokenVault"
    "build_adapter default_settings = Inr (jira_adapter [])"
    by (simp_all add: build_token_vault_def build_adapter_def adapter_builders_def default_settings_def)
  then show ?thesis
    using api_startup_raises [of mem_world _ demo_crypto default_settings mem_empty empty_ctx
        NullTokenVault "jira_adapter []"] by blast
qed

end
