(* ===== verification/Service.thy ===== *)
theory Service
  imports Request_Path
begin

text \<open>
  The whole service: any number of API requests and research jobs over one store, interleaved call by
  call, any of them killed at any point, keys expiring in between. \<open>service_run\<close> of \<^theory_text>\<open>World\<close> gives the
  interleavings; the invariants rest on what the single programs can issue.
\<close>

section \<open>The deployment\<close>

text \<open>
  An API process and a worker with the same settings and adapter, each with a vault of its own.
\<close>

definition paired :: "deps \<Rightarrow> worker_deps \<Rightarrow> bool" where
  "paired dp wk \<longleftrightarrow> dp_settings dp = wk_settings wk \<and> dp_adapter dp = wk_adapter wk"

definition request_process :: "framework \<Rightarrow> deps \<Rightarrow> http_request \<Rightarrow> unit prog" where
  "request_process fw dp rq = void (serve fw dp rq)"

definition processes :: "framework \<Rightarrow> deps \<Rightarrow> worker_deps \<Rightarrow> unit prog set" where
  "processes fw dp wk =
     range (request_process fw dp) \<union> {research_job wk dl tr j | dl tr j. True}"

definition time_passes :: "('s \<Rightarrow> key_space) \<Rightarrow> 's \<Rightarrow> 's \<Rightarrow> bool" where
  "time_passes look s s' \<longleftrightarrow> (\<exists>n. look s' = elapse n (look s))"

text \<open>What any of the processes can issue.\<close>

definition service_cmd :: "settings \<Rightarrow> (proposed_action \<Rightarrow> bool) \<Rightarrow> cmd \<Rightarrow> bool" where
  "service_cmd cfg P c \<longleftrightarrow> (store_cmd cfg P c \<or> \<not> writes c)"

lemma safe_service_cmd:
  "safe (api_cmd cfg P) E R p \<Longrightarrow> safe (service_cmd cfg P) E R p"
  "safe (execute_cmd cfg P) E R p \<Longrightarrow> safe (service_cmd cfg P) E R p"
  by (erule safe_mono; auto simp: service_cmd_def dest: api_cmd_writes writes_in_execute)+

lemma plumbing_service [simp]: "plumbing (service_cmd cfg P)"
  by (simp add: plumbing_def service_cmd_def)

lemma safe_request:
  assumes "domain_adapter (dp_adapter dp) mut" "settings_ok (dp_settings dp)"
  shows "safe (service_cmd (dp_settings dp) P) (\<lambda>_. True) (\<lambda>_. True) (request_process fw dp rq)"
proof -
  let ?Q = "service_cmd (dp_settings dp) P"
  have exec: "safe ?Q (\<lambda>_. True) (\<lambda>_. True) (endpoint fw dp hs b Execute)" for hs b
  proof -
    have "safe (execute_cmd (dp_settings dp) P) (\<lambda>_. True) (\<lambda>_. True) (execute_endpoint pd dp hs j)" for pd j
      unfolding execute_endpoint_def with_caller_def
      by (intro safe_bind [where R = "\<lambda>_. True"] research_in_execute [OF safe_any_auth(1)]
          research_in_execute [OF safe_any_auth(2)])
        (auto intro: safe_execute_action [OF assms] split: option.split)
    then show ?thesis
      by (auto simp: with_body_def intro!: safe_answer_with safe_service_cmd(2) split: option.split)
  qed
  have "safe ?Q (\<lambda>_. True) (\<lambda>_. True) (endpoint fw dp hs b rt)" for hs b rt
    by (cases "rt = Execute")
      (use exec safe_service_cmd(1) [OF safe_endpoint [OF assms(2)]] in \<open>auto simp del: endpoint.simps\<close>)
  then have "safe ?Q (\<lambda>_. True) (\<lambda>_. True) (routed fw dp rq)"
    by (auto simp: routed_def simp del: endpoint.simps split: option.split prod.split)
  then show ?thesis
    unfolding request_process_def by (rule safe_void [OF safe_serve [OF plumbing_service]])
qed

lemma safe_job:
  assumes "worker wk mut"
  shows "safe (service_cmd (wk_settings wk) (executable_proposal (wk_adapter wk))) (\<lambda>_. True) (\<lambda>_. True)
           (research_job wk dl tr j)"
proof -
  let ?Q = "service_cmd (wk_settings wk) (executable_proposal (wk_adapter wk))"
  have "safe ?Q (\<lambda>_. True) (\<lambda>_. True) (run_research_job wk dl j n)" for n
  proof (rule safe_mono [OF worker.safe_run_research_job [OF assms]])
    fix c
    assume "worker_cmd (wk_settings wk) (executable_proposal (wk_adapter wk)) mut c"
    then show "?Q c" by (cases c) (auto simp: worker_cmd_def service_cmd_def reading_def)
  qed auto
  then show ?thesis
    unfolding research_job_def Let_def
    by (rule safe_catch) (auto split: exn.split)
qed

section \<open>The store in every interleaving\<close>

context redis_server
begin

lemma stored_data_valid:
  assumes run: "service_run W (time_passes look) (processes fw dp wk) s0 (s, ps)"
    and wk: "worker wk mut" and pair: "paired dp wk"
    and init: "well_typed (wk_settings wk) (executable_proposal (wk_adapter wk)) (look s0)"
  shows "well_typed (wk_settings wk) (executable_proposal (wk_adapter wk)) (look s)"
proof (rule service_invariant [OF run, where Inv = "\<lambda>s. well_typed (wk_settings wk)
    (executable_proposal (wk_adapter wk)) (look s)", OF init])
  let ?cfg = "wk_settings wk" and ?P = "executable_proposal (wk_adapter wk)"
  note contract = worker.adapter_contract [OF wk] worker.settings_valid [OF wk]
  show "safe (service_cmd ?cfg ?P) (\<lambda>_. True) (\<lambda>_. True) p" if "p \<in> processes fw dp wk" for p
    using that safe_request [of dp mut ?P fw] safe_job [OF wk] contract pair
    by (auto simp: processes_def paired_def)
  show "well_typed ?cfg ?P (look (fst (W s c)))"
    if "well_typed ?cfg ?P (look s)" "service_cmd ?cfg ?P c" for s c
    using that by (auto simp: service_cmd_def intro: well_typed_step)
  show "well_typed ?cfg ?P (look s')" if "well_typed ?cfg ?P (look s)" "time_passes look s s'" for s s'
    using that by (auto simp: time_passes_def well_typed_elapse)
qed

end

text \<open>A schedule of processes that have been started is one of the interleavings.\<close>

lemma schedule_is_run:
  "service_run W Env P s0 conf \<Longrightarrow> service_run W Env P s0 (schedule W sched conf)"
proof (induction sched arbitrary: conf)
  case (Cons i sched)
  obtain s ps where conf: "conf = (s, ps)" by fastforce
  show ?case
  proof (cases "i < length ps")
    case True
    obtain s' x' q where a: "advance W s (ps ! i) = (s', x', q)" by (rule prod_cases3)
    with True have "service_run W Env P s0 (s', ps[i := (x', q)])"
      using Cons.prems conf by (auto intro: service_run.move)
    with Cons.IH True a show ?thesis by (simp add: conf)
  next
    case False
    with Cons show ?thesis by (simp add: conf)
  qed
qed simp

lemma started_processes:
  "set qs \<subseteq> P \<Longrightarrow> service_run W Env P s (s, map (Pair x) qs)"
proof (induction qs rule: rev_induct)
  case (snoc q qs)
  then show ?case using service_run.spawn [of W Env P s s "map (Pair x) qs" q x] by simp
qed (simp add: service_run.start)

text \<open>A store with values of the right type is read completely.\<close>

lemma view_complete:
  assumes "well_typed cfg P ks"
  shows "(vw_job (view_of cfg ks) i = None) = (ks (key_of cfg ''job'' i) = None)"
    and "(vw_result (view_of cfg ks) i = None) = (ks (key_of cfg ''result'' i) = None)"
    and "(vw_token (view_of cfg ks) i = None) = (ks (key_of cfg ''tok'' i) = None)"
    and "(vw_proposal (view_of cfg ks) i = None) = (ks (key_of cfg ''proposal'' i) = None)"
    and "(vw_idem (view_of cfg ks) i = None) = (ks (key_of cfg ''idem'' i) = None)"
proof -
  have typed: "k \<in> set kinds \<Longrightarrow> ks (key_of cfg k i) = Some (v, t) \<Longrightarrow> fits P k i v" for k v t
    using assms by (simp add: well_typed_def)
  show "(vw_job (view_of cfg ks) i = None) = (ks (key_of cfg ''job'' i) = None)"
    using typed [of "''job''"] by (force simp: view_of_def split: option.split rval.split)
  show "(vw_result (view_of cfg ks) i = None) = (ks (key_of cfg ''result'' i) = None)"
    using typed [of "''result''"] by (force simp: view_of_def split: option.split rval.split)
  show "(vw_token (view_of cfg ks) i = None) = (ks (key_of cfg ''tok'' i) = None)"
    using typed [of "''tok''"] by (force simp: view_of_def split: option.split rval.split)
  show "(vw_proposal (view_of cfg ks) i = None) = (ks (key_of cfg ''proposal'' i) = None)"
    using typed [of "''proposal''"] by (force simp: view_of_def split: option.split rval.split)
  show "(vw_idem (view_of cfg ks) i = None) = (ks (key_of cfg ''idem'' i) = None)"
    using typed [of "''idem''"] by (force simp: view_of_def split: option.split rval.split)
qed

section \<open>Properties\<close>

text \<open>
  C7: the store is valid in every interleaving. Start any requests and jobs in any order over an
  empty store, interleave them call by call, kill any of them anywhere, let keys expire: every job
  record is under its own id, and every stored proposal, and every one listed in a result, is one whose
  payload satisfies the schema of its action, so a consumer never sees an action that could not be
  executed as proposed.
\<close>

theorem stored_proposals_always_executable:
  assumes "redis_server W look" "worker wk mut" "paired dp wk"
    and "look s0 = (\<lambda>_. None)"
    and "service_run W (time_passes look) (processes fw dp wk) s0 (s, ps)"
  shows "(\<forall>j r. vw_job (view_of (wk_settings wk) (look s)) j = Some r \<longrightarrow> job_id r = j) \<and>
    (\<forall>a p. vw_proposal (view_of (wk_settings wk) (look s)) a = Some p \<longrightarrow>
       pa_action_id (sp_action p) = a \<and> executable_proposal (wk_adapter wk) (sp_action p)) \<and>
    (\<forall>j d. vw_result (view_of (wk_settings wk) (look s)) j = Some d \<longrightarrow>
       list_all (executable_proposal (wk_adapter wk)) (rd_proposed_actions d))"
proof -
  have typed: "well_typed (wk_settings wk) (executable_proposal (wk_adapter wk)) (look s)"
    by (rule redis_server.stored_data_valid [OF assms(1,5,2,3)]) (simp add: assms(4))
  have fits: "fits (executable_proposal (wk_adapter wk)) k i v"
    if "k \<in> set kinds" "look s (key_of (wk_settings wk) k i) = Some (v, t)" for k i v t
    using typed that by (auto simp: well_typed_def)
  show ?thesis
    using fits [of "''job''"] fits [of "''proposal''"] fits [of "''result''"]
    by (fastforce simp: view_of_def split: option.splits rval.splits prod.splits)
qed

definition demo_api :: deps where
  "demo_api = \<lparr>dp_settings = wk_settings demo_worker, dp_adapter = wk_adapter demo_worker,
     dp_vault = wk_vault demo_worker, dp_crypto = wk_crypto demo_worker\<rparr>"

abbreviation demo_processes :: "unit prog list" where
  "demo_processes \<equiv> [request_process demo_framework demo_api (submission []),
     research_job demo_worker \<lparr>dl_events = 9, dl_calls = 99\<rparr> (Some 1) ''j1'']"

lemma demo_paired: "paired demo_api demo_worker"
  by (simp add: paired_def demo_api_def)

lemma demo_run:
  "service_run mem_world (time_passes mem_keys) (processes demo_framework demo_api demo_worker) mem_empty
     (schedule mem_world sched (mem_empty, map (Pair empty_ctx) demo_processes))"
  by (intro schedule_is_run started_processes) (auto simp: processes_def)

theorem stored_proposals_always_executable_witness:
  "\<forall>a. pred_option (\<lambda>p. pa_action_id (sp_action p) = a)
     (vw_proposal (view_of (wk_settings demo_worker) (mem_keys (fst (schedule mem_world [1, 0, 1, 1, 0]
       (mem_empty, map (Pair empty_ctx) demo_processes))))) a)"
proof -
  let ?conf = "schedule mem_world [1, 0, 1, 1, 0] (mem_empty, map (Pair empty_ctx) demo_processes)"
  note demo_run demo_paired
  moreover have "mem_keys mem_empty = (\<lambda>_. None)" by (simp add: mem_empty_def)
  ultimately have "\<forall>a p. vw_proposal (view_of (wk_settings demo_worker) (mem_keys (fst ?conf))) a = Some p \<longrightarrow>
      pa_action_id (sp_action p) = a"
    using stored_proposals_always_executable [OF redis_server_mem demo_worker.worker_axioms,
        of demo_api mem_empty demo_framework "fst ?conf" "snd ?conf"]
    by (simp only: prod.collapse) blast
  then show ?thesis by (simp only: option.pred_set Ball_def elem_set)
qed

text \<open>
  C8: what is under a key has the type its reader expects. In every interleaving of requests and jobs, with
  crashes and expiring keys, no read of the store ever fails to decode what it finds: every reader
  returns what the abstract store has there, and \<open>None\<close> only if there is nothing under the key.
\<close>

theorem every_read_decodes:
  assumes "platform W look" "worker wk mut" "paired dp wk" "look s0 = (\<lambda>_. None)"
    and "service_run W (time_passes look) (processes fw dp wk) s0 (s, ps)"
    and "cfg = wk_settings wk"
  shows "(\<exists>v. result_of W (get_job cfg i) s x = Inr v \<and> (v = None) = (look s (key_of cfg ''job'' i) = None)) \<and>
    (\<exists>v. result_of W (get_result cfg i) s x = Inr v \<and> (v = None) = (look s (key_of cfg ''result'' i) = None)) \<and>
    (\<exists>v. result_of W (load_token cfg i) s x = Inr v \<and> (v = None) = (look s (key_of cfg ''tok'' i) = None)) \<and>
    (\<exists>v. result_of W (get_proposal cfg i) s x = Inr v \<and> (v = None) = (look s (key_of cfg ''proposal'' i) = None)) \<and>
    (\<exists>v. result_of W (get_idempotency cfg i) s x = Inr v \<and> (v = None) = (look s (key_of cfg ''idem'' i) = None))"
proof -
  have typed: "well_typed cfg (executable_proposal (wk_adapter wk)) (look s)"
    unfolding assms(6)
    by (rule redis_server.stored_data_valid [OF platform.axioms(1) [OF assms(1)] assms(5,2,3)]) (simp add: assms(4))
  show ?thesis
    by (simp add: platform.run_get_job(1) [OF assms(1) typed] platform.run_get_result(1) [OF assms(1) typed]
        platform.run_load_token(1) [OF assms(1) typed] platform.run_get_proposal(1) [OF assms(1) typed]
        platform.run_get_idempotency(1) [OF assms(1) typed] view_complete [OF typed])
qed

theorem every_read_decodes_witness:
  "\<exists>v. result_of mem_world (get_job default_settings ''j1'') (fst (schedule mem_world [1, 0, 1, 1, 0]
      (mem_empty, map (Pair empty_ctx) demo_processes))) empty_ctx = Inr v"
proof -
  let ?conf = "schedule mem_world [1, 0, 1, 1, 0] (mem_empty, map (Pair empty_ctx) demo_processes)"
  have "mem_keys mem_empty = (\<lambda>_. None)" by (simp add: mem_empty_def)
  from every_read_decodes [OF platform_mem demo_worker.worker_axioms demo_paired this, where s = "fst ?conf" and
      ps = "snd ?conf" and cfg = default_settings and i = "''j1''" and x = empty_ctx, unfolded prod.collapse, OF demo_run]
  show ?thesis by auto
qed

end
