(* ===== verification/Approval.thy ===== *)
theory Approval
  imports Service
begin

text \<open>
  From the proposal a job stages to the execution a consumer asks for: the schema check of the worker,
  the store in between and the checks of \<^verbatim>\<open>/execute\<close>, taken together.
\<close>

section \<open>Why an approved proposal is refused\<close>

text \<open>
  The reasons that are left for a proposal \<open>p\<close> approved with payload \<open>ap\<close>, when the payload passes the two
  checks on it: a clock that has reached the expiry, missing credentials, the answer of the target
  system to the precondition check or to the mutation.
\<close>

definition refusal ::
    "'s world \<Rightarrow> adapter \<Rightarrow> stored_proposal \<Rightarrow> dict \<Rightarrow> string \<Rightarrow> string option \<Rightarrow> exn \<Rightarrow> bool" where
  "refusal W ad p ap a t e \<longleftrightarrow>
     (\<exists>s now. snd (W s UtcNow) = RInt now \<and> pa_expires_at (sp_action p) \<le> now \<and> e = expired_action a) \<or>
     resolve_credentials ad t = Inl e \<or>
     (\<exists>cr s x. resolve_credentials ad t = Inr cr \<and>
        (result_of W (precheck ad (sp_action p) cr) s x = Inl e \<or>
         result_of W (mutate ad a (sp_action p) ap cr) s x = Inl e))"

lemma same_payload_expected: "wf_json (JObj (pa_payload a)) \<Longrightarrow> unexpected_fields a (pa_payload a) = []"
proof -
  assume wf: "wf_json (JObj (pa_payload a))"
  have "wf_json (dget k (pa_payload a))" for k
    using wf by (auto simp: dget_def list_all_iff split: option.split dest: map_of_SomeD)
  then show ?thesis by (simp add: unexpected_fields_def)
qed

lemma utcnow_reading: "runs W utcnow s x now s' x' \<Longrightarrow> snd (W s UtcNow) = RInt now"
  by (auto simp: runs_def utcnow_def bad_reply_def split: reply.splits)

context execution
begin

lemma fresh_refusal:
  assumes typed: "well_typed (dp_settings dp) P (look s)"
    and p: "vw_proposal (view_of (dp_settings dp) (look s)) (er_action_id body) = Some p"
    and own: "permitted_action dp p c t"
    and pay: "verify_payload_against_proposal p (er_approved_payload body) = Inr ()"
      "validate_approved ad p (er_approved_payload body) = Inr ()"
    and fail: "fails W (execute_fresh dp body c t key rh) s x e s'"
  shows "refusal W ad p (er_approved_payload body) (er_action_id body) t e"
proof -
  let ?a = "er_action_id body"
  have granted: "result_of W (authorized_proposal dp ?a c t) s x = Inr p"
    using run_authorized_proposal(1) [OF typed] p own by simp
  let ?s1 = "state_after W (authorized_proposal dp ?a c t) s x"
  let ?x1 = "ctx_after W (authorized_proposal dp ?a c t) s x"
  obtain now where clock: "result_of W utcnow ?s1 ?x1 = Inr now" using run_utcnow(1) by blast
  note reading = utcnow_reading [OF clock [unfolded runs_iff]]
  show ?thesis
  proof (cases "pa_expires_at (sp_action p) \<le> now")
    case True
    then have "e = expired_action ?a"
      using fail
      by (auto simp: fails_def execute_fresh_def Let_def run_simps granted clock run_delete_proposal)
    with True reading show ?thesis unfolding refusal_def by blast
  next
    case False
    with fail show ?thesis
      unfolding refusal_def
      by (auto simp: fails_def execute_fresh_def Let_def run_simps granted clock pay run_log_event
          split: sum.splits)
  qed
qed

lemma approved_refusal:
  assumes typed: "well_typed (dp_settings dp) (executable_proposal ad) (look s)"
    and p: "vw_proposal (view_of (dp_settings dp) (look s)) (er_action_id body) = Some p"
    and own: "permitted_action dp p c t" and new: "vw_idem (view_of (dp_settings dp) (look s)) key = None"
    and wf: "wf_json (JObj (pa_payload (sp_action p)))"
    and same: "er_approved_payload body = pa_payload (sp_action p)"
    and fail: "result_of W (execute_action dp body c t key) s x = Inl e"
  shows "refusal W ad p (pa_payload (sp_action p)) (er_action_id body) t e"
proof -
  obtain i where "look s (key_of (dp_settings dp) ''proposal'' (er_action_id body)) = Some (VProposal p, i)"
    using p by (auto simp: view_of_def split: option.splits rval.splits prod.splits)
  moreover have "''proposal'' \<in> set kinds" by simp
  ultimately have "fits (executable_proposal ad) ''proposal'' (er_action_id body) (VProposal p)"
    using typed unfolding well_typed_def by blast
  then have "valid_payload ad (pa_action_type (sp_action p)) (pa_payload (sp_action p))"
    by (simp add: executable_proposal_def)
  then have ok: "verify_payload_against_proposal p (er_approved_payload body) = Inr ()"
    "validate_approved ad p (er_approved_payload body) = Inr ()"
    unfolding verify_payload_Inr validate_approved_Inr same
    using same_payload_expected [OF wf] by simp_all
  obtain s1 x1 where look1: "look s1 = look s"
    and eq: "result_of W (execute_action dp body c t key) s x = result_of W (execute_fresh dp body c t key
        (request_hash (er_action_id body) (er_approved_payload body))) s1 x1"
    using execute_action_unfold [OF typed refl, where body = body and key = key and c = c and t = t and x = x] new
    by (auto simp: Let_def)
  from fresh_refusal [OF _ _ own ok, of "executable_proposal ad" s1 key _ x1 e] fail [unfolded eq fails_iff]
  show ?thesis using typed p by (simp add: look1 same)
qed

end

section \<open>Properties\<close>

text \<open>
  C9: what was proposed can be executed. Take any interleaving of requests and jobs over a valid store,
  and a proposal it has stored. When its owner approves it unchanged under a new idempotency key, the
  execution is never refused for its payload: not as differing from the proposal, not by the schema,
  not as an unsupported action. It succeeds, or it is refused because the proposal has expired, for want
  of credentials, or by the target system.
\<close>

theorem approved_as_proposed_executes:
  assumes "platform W look" "worker wk mut" "paired dp wk"
    and "well_typed (wk_settings wk) (executable_proposal (wk_adapter wk)) (look s0)"
    and "service_run W (time_passes look) (processes fw dp wk) s0 (s, ps)"
    and "vw_proposal (view_of (wk_settings wk) (look s)) (er_action_id body) = Some p"
    and "permitted_action dp p c t" "vw_idem (view_of (wk_settings wk) (look s)) key = None"
    and "wf_json (JObj (pa_payload (sp_action p)))" "er_approved_payload body = pa_payload (sp_action p)"
  shows "case result_of W (execute_action dp body c t key) s x of
           Inr resp \<Rightarrow> ex_status resp = ''executed'' \<and> ex_action_id resp = er_action_id body
         | Inl e \<Rightarrow> refusal W (wk_adapter wk) p (pa_payload (sp_action p)) (er_action_id body) t e"
proof -
  have ad: "dp_adapter dp = wk_adapter wk" and cfg: "dp_settings dp = wk_settings wk"
    using assms(3) by (simp_all add: paired_def)
  have ex: "execution W look (wk_adapter wk) mut dp"
    using assms(1,2) ad cfg
    by (auto intro!: execution.intro execution_axioms.intro worker.adapter_contract worker.settings_valid)
  note typed = redis_server.stored_data_valid [OF platform.axioms(1) [OF assms(1)] assms(5,2,3,4)]
  show ?thesis
  proof (cases "result_of W (execute_action dp body c t key) s x")
    case (Inl e)
    with execution.approved_refusal [OF ex] typed assms(6-10) show ?thesis by (simp add: cfg)
  next
    case (Inr resp)
    with execution.execute_action_outcome [OF ex, of "executable_proposal (wk_adapter wk)" s body c t key x] typed assms(8)
    show ?thesis by (auto simp: cfg execute_outcome_def Let_def executed_response_def)
  qed
qed

theorem approved_as_proposed_executes_witness:
  "\<exists>resp. result_of mem_world (execute_action demo_deps demo_request ''c1'' (Some ''my-pat'') ''key-1'')
     proposal_store empty_ctx = Inr resp \<and> ex_status resp = ''executed''"
proof -
  have typed: "well_typed default_settings (executable_proposal (jira_adapter ''https://jira'')) (mem_keys proposal_store)"
    using demo_payload_valid [of "''https://jira''", unfolded validate_approved_Inr]
    by (auto simp: well_typed_def demo_proposal_def demo_action_def executable_proposal_def)
  have "paired demo_deps demo_worker" by (simp add: paired_def)
  moreover have "wf_json (JObj (pa_payload demo_action))" by (simp add: demo_action_def)
  moreover obtain resp where "result_of mem_world (execute_action demo_deps demo_request ''c1'' (Some ''my-pat'')
      ''key-1'') proposal_store empty_ctx = Inr resp" using demo_execution(1) by blast
  ultimately show ?thesis
    using approved_as_proposed_executes [OF platform_mem demo_worker.worker_axioms _ _ service_run.start
          [of mem_world "time_passes mem_keys" "processes demo_framework demo_deps demo_worker" proposal_store],
        where body = demo_request and p = demo_proposal and c = "''c1''" and t = "Some ''my-pat''"
        and key = "''key-1''" and x = empty_ctx] typed
    by (simp add: permitted_action_def view_of_def)
qed

end
