(* ===== verification/Execute_Race.thy ===== *)
theory Execute_Race
  imports Service
begin

text \<open>
  Two concurrent executions of one approved action under one idempotency key. The key is looked up
  before and recorded after the mutation, with calls to the target system in between: the interleaving
  built here lets both requests pass every check before either has mutated.
\<close>

section \<open>Stretches of a schedule\<close>

text \<open>A world that also writes down every command.\<close>

definition logged :: "'s world \<Rightarrow> ('s \<times> cmd list) world" where
  "logged W sl c = ((fst (W (fst sl) c), snd sl @ [c]), snd (W (fst sl) c))"

lemma run_logged:
  "result_of (logged W) p (s, l) x = result_of W p s x"
  "state_after (logged W) p (s, l) x = (state_after W p s x, l @ map fst (trace_of W p s x))"
  "ctx_after (logged W) p (s, l) x = ctx_after W p s x"
  by (induction p arbitrary: s l x) (auto simp: logged_def)

text \<open>
  \<open>stretch W s x p s' x' p'\<close>: a process at \<open>p\<close>, moving alone, gets to \<open>p'\<close>, wherever it stands among
  the others.
\<close>

definition stretch ::
    "'s world \<Rightarrow> 's \<Rightarrow> ctx \<Rightarrow> unit prog \<Rightarrow> 's \<Rightarrow> ctx \<Rightarrow> unit prog \<Rightarrow> bool" where
  "stretch W s x p s' x' p' \<longleftrightarrow>
     (\<exists>n. \<forall>i ps. i < length ps \<longrightarrow>
        schedule W (replicate n i) (s, ps[i := (x, p)]) = (s', ps[i := (x', p')]))"

lemma stretch_refl: "stretch W s x p s x p"
  unfolding stretch_def by (intro exI [of _ 0]) simp

lemma stretch_step:
  "advance W s (x, p) = (s', (x', p')) \<Longrightarrow> stretch W s' x' p' s'' x'' p'' \<Longrightarrow> stretch W s x p s'' x'' p''"
proof -
  assume a: "advance W s (x, p) = (s', (x', p'))" and "stretch W s' x' p' s'' x'' p''"
  then obtain n where n: "\<And>i ps. i < length ps \<Longrightarrow>
      schedule W (replicate n i) (s', ps[i := (x', p')]) = (s'', ps[i := (x'', p'')])"
    unfolding stretch_def by blast
  show ?thesis
    unfolding stretch_def by (intro exI [of _ "Suc n"]) (simp add: a n)
qed

lemma stretch_trans:
  "stretch W s x p s' x' p' \<Longrightarrow> stretch W s' x' p' s'' x'' p'' \<Longrightarrow> stretch W s x p s'' x'' p''"
proof -
  assume "stretch W s x p s' x' p'" "stretch W s' x' p' s'' x'' p''"
  then obtain m n where m: "\<And>i ps. i < length ps \<Longrightarrow>
      schedule W (replicate m i) (s, ps[i := (x, p)]) = (s', ps[i := (x', p')])"
    and n: "\<And>i ps. i < length ps \<Longrightarrow>
      schedule W (replicate n i) (s', ps[i := (x', p')]) = (s'', ps[i := (x'', p'')])"
    unfolding stretch_def by blast
  show ?thesis
    unfolding stretch_def
    by (intro exI [of _ "m + n"]) (simp add: replicate_add schedule_append m n)
qed

text \<open>A successful run of the first part of a sequence is a stretch.\<close>

lemma stretch_bind:
  "result_of W p s x = Inr a \<Longrightarrow>
   stretch W s x (bind p f) (state_after W p s x) (ctx_after W p s x) (f a)"
proof (induction p arbitrary: s x)
  case (Op c k)
  have move: "advance W s (x, bind (Op c k) f) = (fst (W s c), (x, bind (k (snd (W s c))) f))"
    by (simp split: prod.split)
  show ?case by (rule stretch_step [OF move]) (use Op in simp)
next
  case (GetCtx k)
  have move: "advance W s (x, bind (GetCtx k) f) = (s, (x, bind (k x) f))" by simp
  show ?case by (rule stretch_step [OF move]) (use GetCtx in simp)
next
  case (SetCtx y p)
  have move: "advance W s (x, bind (SetCtx y p) f) = (s, (y, bind p f))" by simp
  show ?case by (rule stretch_step [OF move]) (use SetCtx in simp)
qed (simp_all add: stretch_refl)

text \<open>A stretch that sends \<open>k\<close> mutating requests.\<close>

definition sends ::
    "(http_req \<Rightarrow> bool) \<Rightarrow> nat \<Rightarrow> 's world \<Rightarrow> 's \<Rightarrow> ctx \<Rightarrow> unit prog \<Rightarrow> 's \<Rightarrow> ctx \<Rightarrow> unit prog \<Rightarrow> bool" where
  "sends mut k W s x p s' x' p' \<longleftrightarrow>
     (\<forall>l. \<exists>l'. length (filter (mutating mut) l') = k \<and> stretch (logged W) (s, l) x p (s', l @ l') x' p')"

lemma sends_runs:
  assumes "runs W p s x a s' x'" "length (mutations mut (trace_of W p s x)) = k"
  shows "sends mut k W s x (bind p f) s' x' (f a)"
proof -
  have "filter (mutating mut) (map fst tr) = map fst (mutations mut tr)" for tr
    by (simp add: mutations_def filter_map comp_def case_prod_unfold)
  moreover have "stretch (logged W) (s, l) x (bind p f) (s', l @ map fst (trace_of W p s x)) x' (f a)" for l
    using stretch_bind [of "logged W" p "(s, l)" x a f] assms(1) by (simp add: runs_def run_logged)
  ultimately show ?thesis
    unfolding sends_def using assms(2) by (intro allI exI [of _ "map fst (trace_of W p s x)"]) simp
qed

lemma sends_trans:
  assumes "sends mut k W s x p s' x' p'" "sends mut n W s' x' p' s'' x'' p''"
  shows "sends mut (k + n) W s x p s'' x'' p''"
  unfolding sends_def
proof
  fix l
  from assms(1) obtain l' where l': "length (filter (mutating mut) l') = k"
    "stretch (logged W) (s, l) x p (s', l @ l') x' p'" unfolding sends_def by blast
  from assms(2) obtain l'' where "length (filter (mutating mut) l'') = n"
    "stretch (logged W) (s', l @ l') x' p' (s'', (l @ l') @ l'') x'' p''" unfolding sends_def by blast
  with l' show "\<exists>l'. length (filter (mutating mut) l') = k + n \<and>
      stretch (logged W) (s, l) x p (s'', l @ l') x'' p''"
    by (intro exI [of _ "l' @ l''"]) (auto intro: stretch_trans)
qed

lemma sends_refl: "sends mut 0 W s x p s x p"
  unfolding sends_def by (intro allI exI [of _ "[]"]) (simp add: stretch_refl)

lemma sends_then:
  "runs W p s x a s' x' \<Longrightarrow> mutations mut (trace_of W p s x) = [] \<Longrightarrow> sends mut k W s' x' (f a) s'' x'' q \<Longrightarrow>
   sends mut k W s x (bind p f) s'' x'' q"
  using sends_trans [OF sends_runs [of W p s x a s' x' mut 0 f], of k s'' x'' q] by simp

section \<open>The race\<close>

text \<open>Both requests are the approved execution of \<^theory_text>\<open>Execute_Api\<close>, under one key.\<close>

definition racer :: "unit prog" where
  "racer = void (execute_action demo_deps demo_request ''c1'' (Some ''my-pat'') ''key-1'')"

abbreviation in_store :: "reply list \<Rightarrow> mem" where
  "in_store rs \<equiv> base_store\<lparr>mem_http := rs\<rparr>"

abbreviation race_ctx :: ctx where
  "race_ctx \<equiv> \<lparr>cx_correlation_id = Some ''cid'', cx_from_header = False, cx_request_id = None,
     cx_job_id = Some ''j1'', cx_action_id = Some ''a1'', cx_consumer_id = None\<rparr>"

definition race_tail :: "unit prog" where
  "race_tail =
     bind (mutate (jira_adapter ''https://jira'') ''a1'' demo_action (pa_payload demo_action)
            \<lparr>cr_user_token = Some ''my-pat'', cr_service_credential = None\<rparr>) (\<lambda>outcome.
     bind (record_outcome demo_deps demo_request ''key-1''
            (request_hash ''a1'' (pa_payload demo_action)) 0 outcome) (\<lambda>_. Ret ()))"

text \<open>Up to the mutation: every check passes, and nothing is changed.\<close>

lemma race_checks:
  "sends jira_mutates 0 mem_world (in_store (RHttp demo_issue_resp # rs)) empty_ctx racer (in_store rs) race_ctx race_tail"
proof -
  let ?m = "in_store (RHttp demo_issue_resp # rs)" and ?x = "empty_ctx\<lparr>cx_action_id := Some ''a1''\<rparr>"
  let ?cr = "\<lparr>cr_user_token = Some ''my-pat'', cr_service_credential = None\<rparr>"
  have keys: "mem_keys ?m = mem_keys base_store" "mem_clock ?m = 0" by simp_all
  have auth: "runs mem_world (authorized_proposal demo_deps ''a1'' ''c1'' (Some ''my-pat'')) ?m ?x demo_proposal ?m race_ctx"
    by (simp add: runs_def authorized_proposal_def get_proposal_def call_defs run_simps empty_ctx_def)
  have pay: "verify_payload_against_proposal demo_proposal (pa_payload demo_action) = Inr ()"
    by (simp add: verify_payload_Inr demo_payload_unchanged)
  have check: "runs mem_world (precheck (jira_adapter ''https://jira'') demo_action ?cr) ?m race_ctx () (in_store rs) race_ctx"
    by (simp add: runs_def precheck_def run_simps run_demo_check)
  have quiet: "mutations jira_mutates (trace_of mem_world (precheck (jira_adapter ''https://jira'') demo_action ?cr) ?m race_ctx) = []"
    by (rule mutations_none [OF domain_adapter.quiet_precheck [OF jira_domain]])
  have none: "runs mem_world (get_idempotency (dp_settings demo_deps) ''key-1'') ?m ?x None ?m ?x"
    by (simp add: runs_def get_idempotency_def call_defs run_simps)
  have log: "runs mem_world (log_event l e msg f) m x () m x" for l e msg f m x
    by (simp add: runs_def log_event_def call_defs)
  have clock: "runs mem_world utcnow m x (mem_clock m) m x" "runs mem_world perf_counter m x (mem_clock m) m x"
    for m x by (simp_all add: runs_def call_defs)
  have lift: "runs mem_world (lift_result (Inr a)) m x a m x" for a :: 'b and m x
    by (simp add: runs_simps)
  have act: "runs mem_world (set_action_id ''a1'') ?m empty_ctx () ?m ?x"
    by (simp add: runs_def run_simps)
  note silent = mutations_none [OF quiet_silent(1)] mutations_none [OF quiet_silent(2)]
    mutations_none [OF quiet_silent(3)] mutations_none [OF quiet_silent(4)]
    mutations_none [OF at_most_lift_result]
  have fresh: "sends jira_mutates 0 mem_world ?m ?x
      (bind (execute_fresh demo_deps demo_request ''c1'' (Some ''my-pat'') ''key-1''
        (request_hash ''a1'' (pa_payload demo_action))) (\<lambda>_. Ret ())) (in_store rs) race_ctx race_tail"
    unfolding execute_fresh_def Let_def bind_assoc race_tail_def demo_fields demo_deps_simps
    by (rule sends_then [OF auth mutations_none [OF quiet_research [OF safe_authorized_proposal]]],
        rule sends_then [OF clock(1) silent(1)], simp add: pay demo_payload_valid)
      (rule sends_then [OF lift silent(5)], rule sends_then [OF lift silent(5)],
        rule sends_then [OF log silent(3)], rule sends_then [OF lift silent(5)],
        rule sends_then [OF check quiet], rule sends_then [OF clock(2) silent(2)], simp add: sends_refl)
  show ?thesis
    unfolding racer_def void_def execute_action_def Let_def bind_assoc demo_fields
    by (rule sends_then [OF act silent(4)], rule sends_then [OF log silent(3)],
        rule sends_then [OF none mutations_none [OF quiet_research [OF safe_in_research [OF safe_store_reads(5)]]]])
      (simp add: fresh)
qed

text \<open>From the mutation to the end: the mutation is sent, whoever else has sent it.\<close>

lemma record_keeps_http:
  "mem_http (state_after mem_world (record_outcome demo_deps body key rh t out) m x) = mem_http m"
proof (rule safe_state [OF safe_record_outcome, where Inv = "\<lambda>m'. mem_http m' = mem_http m"])
  show "mem_http (fst (mem_world m' c)) = mem_http m"
    if "mem_http m' = mem_http m" "research_cmd (dp_settings demo_deps) (\<lambda>_. True) c" for m' c
    using that by (cases c) (auto simp: research_cmd_def split: list.split)
qed simp_all

lemma race_mutates:
  assumes "mem_http m = RHttp demo_done_resp # rs"
  shows "\<exists>m' x'. sends jira_mutates 1 mem_world m race_ctx race_tail m' x' (Ret ()) \<and> mem_http m' = rs"
proof -
  let ?cr = "\<lparr>cr_user_token = Some ''my-pat'', cr_service_credential = None\<rparr>"
  let ?ad = "jira_adapter ''https://jira''" and ?m = "m\<lparr>mem_http := rs\<rparr>"
  have m: "m = m\<lparr>mem_http := RHttp demo_done_resp # rs\<rparr>" using assms by simp
  have bound: "cx_correlation_id race_ctx = Some ''cid''" by simp
  note ex = run_demo_execute [OF bound, where base = "''https://jira''" and cr = ?cr and m = m and rs = rs, folded m]
  obtain out where mut: "runs mem_world (mutate ?ad ''a1'' demo_action (pa_payload demo_action) ?cr) m race_ctx out ?m race_ctx"
    using ex by (simp add: runs_def mutate_def run_simps)
  have ad: "ad_execute ?ad = jira_execute jira_self (rstrip_char (CHR ''/'') ''https://jira'')"
    by (simp add: jira_adapter_def Let_def)
  have once: "length (mutations jira_mutates (trace_of mem_world
      (mutate ?ad ''a1'' demo_action (pa_payload demo_action) ?cr) m race_ctx)) = 1"
    using jira_execute_sent [OF ex(1) [unfolded ad]] ex(1)
    by (auto simp: mutate_def run_simps mutations_of_http_calls ad)
  obtain resp where rec: "result_of mem_world (record_outcome demo_deps demo_request ''key-1''
      (request_hash ''a1'' (pa_payload demo_action)) 0 out) ?m race_ctx = Inr resp"
    using demo_exec.run_record_outcome by blast
  let ?m' = "state_after mem_world (record_outcome demo_deps demo_request ''key-1''
      (request_hash ''a1'' (pa_payload demo_action)) 0 out) ?m race_ctx"
  let ?x' = "ctx_after mem_world (record_outcome demo_deps demo_request ''key-1''
      (request_hash ''a1'' (pa_payload demo_action)) 0 out) ?m race_ctx"
  have "sends jira_mutates 0 mem_world ?m race_ctx
      (bind (record_outcome demo_deps demo_request ''key-1''
        (request_hash ''a1'' (pa_payload demo_action)) 0 out) (\<lambda>_. Ret ())) ?m' ?x' (Ret ())"
    using rec by (intro sends_runs) (simp_all add: runs_def mutations_none [OF quiet_record])
  then have "sends jira_mutates (1 + 0) mem_world m race_ctx race_tail ?m' ?x' (Ret ())"
    unfolding race_tail_def by (rule sends_trans [OF sends_runs [OF mut once]])
  moreover have "mem_http ?m' = rs" by (simp add: record_keeps_http)
  ultimately show ?thesis by auto
qed

section \<open>Properties\<close>

text \<open>
  C38: the idempotency key does not serialize concurrent executions. Two requests for the same approved
  action, with the same key and payload, have an interleaving in which both succeed and the target
  system receives the mutation twice.
\<close>

theorem concurrent_executions_mutate_twice:
  "\<exists>sched m log x0 x1.
     schedule (logged mem_world) sched
       ((in_store [RHttp demo_issue_resp, RHttp demo_issue_resp, RHttp demo_done_resp, RHttp demo_done_resp], []),
        [(empty_ctx, racer), (empty_ctx, racer)]) = ((m, log), [(x0, Ret ()), (x1, Ret ())]) \<and>
     length (filter (mutating jira_mutates) log) = 2"
proof -
  let ?done = "[RHttp demo_done_resp, RHttp demo_done_resp]"
  let ?s0 = "in_store (RHttp demo_issue_resp # RHttp demo_issue_resp # ?done)"
  let ?s1 = "in_store (RHttp demo_issue_resp # ?done)" and ?s2 = "in_store ?done"
  obtain s3 x0 where p0: "sends jira_mutates 1 mem_world ?s2 race_ctx race_tail s3 x0 (Ret ())"
    "mem_http s3 = [RHttp demo_done_resp]" using race_mutates [of ?s2] by auto
  obtain s4 x1 where p1: "sends jira_mutates 1 mem_world s3 race_ctx race_tail s4 x1 (Ret ())"
    using race_mutates [OF p0(2)] by auto
  have leg: "\<exists>n l'. length (filter (mutating jira_mutates) l') = k \<and>
      schedule (logged mem_world) (replicate n i) ((s, l), ps[i := (x, p)]) = ((s', l @ l'), ps[i := (x', p')])"
    if "sends jira_mutates k mem_world s x p s' x' p'" "i < length ps" for k s x p s' x' p' i l and ps :: "proc list"
    using that unfolding sends_def stretch_def by meson
  let ?i = "(empty_ctx, racer)" and ?t = "(race_ctx, race_tail)"
  from leg [OF race_checks, of 1 "[?i, ?i]" "RHttp demo_issue_resp # ?done" "[]"] obtain n1 l1 where
    1: "length (filter (mutating jira_mutates) l1) = 0"
      "schedule (logged mem_world) (replicate n1 1) ((?s0, []), [?i, ?i]) = ((?s1, l1), [?i, ?t])" by auto
  from leg [OF race_checks, of 0 "[?i, ?t]" ?done l1] obtain n2 l2 where
    2: "length (filter (mutating jira_mutates) l2) = 0"
      "schedule (logged mem_world) (replicate n2 0) ((?s1, l1), [?i, ?t]) = ((?s2, l1 @ l2), [?t, ?t])" by auto
  from leg [OF p0(1), of 0 "[?t, ?t]" "l1 @ l2"] obtain n3 l3 where
    3: "length (filter (mutating jira_mutates) l3) = 1"
      "schedule (logged mem_world) (replicate n3 0) ((?s2, l1 @ l2), [?t, ?t]) =
        ((s3, (l1 @ l2) @ l3), [(x0, Ret ()), ?t])" by auto
  from leg [OF p1, of 1 "[(x0, Ret ()), ?t]" "(l1 @ l2) @ l3"] obtain n4 l4 where
    4: "length (filter (mutating jira_mutates) l4) = 1"
      "schedule (logged mem_world) (replicate n4 1) ((s3, (l1 @ l2) @ l3), [(x0, Ret ()), ?t]) =
        ((s4, ((l1 @ l2) @ l3) @ l4), [(x0, Ret ()), (x1, Ret ())])" by auto
  have "schedule (logged mem_world) (replicate n1 1 @ replicate n2 0 @ replicate n3 0 @ replicate n4 1)
      ((?s0, []), [?i, ?i]) = ((s4, ((l1 @ l2) @ l3) @ l4), [(x0, Ret ()), (x1, Ret ())])"
    by (simp only: schedule_append 1(2) 2(2) 3(2) 4(2))
  moreover have "length (filter (mutating jira_mutates) (((l1 @ l2) @ l3) @ l4)) = 2"
    using 1(1) 2(1) 3(1) 4(1) by simp
  ultimately show ?thesis by blast
qed

end
