(* ===== verification/Log_Flow.thy ===== *)
theory Log_Flow
  imports Request_Path
begin

text \<open>
  The flow of a user's token past the log: the registry of secrets is filled while a request runs
  (\<open>register_secret\<close> in \<^verbatim>\<open>app/auth/user_token.py\<close>) and applied when a line is written
  (\<open>RedactingJsonFormatter.format\<close>). The two meet in the order of the calls of one request.
\<close>

section \<open>The registry along a run\<close>

text \<open>Every log line of a run, with the registry in force when it is written.\<close>

type_synonym log_call = "log_level \<times> string \<times> string \<times> (string \<times> string) list"

fun lines_under :: "string list \<Rightarrow> cmd list \<Rightarrow> (string list \<times> log_call) list" where
  "lines_under ss [] = []"
| "lines_under ss (RegisterSecret v # tr) = lines_under (add_secret (Some v) ss) tr"
| "lines_under ss (LogLine l e m f # tr) = (ss, l, e, m, f) # lines_under ss tr"
| "lines_under ss (_ # tr) = lines_under ss tr"

fun is_log :: "cmd \<Rightarrow> bool" where
  "is_log (LogLine l e m f) = True"
| "is_log _ = False"

lemma startup_secrets_all:
  "(c, key) \<in> set (cf_api_keys cfg) \<Longrightarrow> min_secret_len \<le> length key \<Longrightarrow> key \<in> set (startup_secrets cfg)"
proof -
  have "key \<in> set (foldl (\<lambda>ss (c, key). add_secret (Some key) ss) ss ks)"
    if "key \<in> set ss \<or> (c, key) \<in> set ks" "min_secret_len \<le> length key" for ss ks
    using that
    by (induction ks arbitrary: ss)
      (auto simp: add_secret_def registrable_def min_secret_len_def split: prod.split)
  then show "(c, key) \<in> set (cf_api_keys cfg) \<Longrightarrow> min_secret_len \<le> length key \<Longrightarrow> key \<in> set (startup_secrets cfg)"
    by (simp add: startup_secrets_def)
qed

text \<open>The registry only grows and never holds the empty string.\<close>

lemma add_secret_grows: "set ss \<subseteq> set (add_secret v ss)"
  by (auto simp: add_secret_def)

lemma lines_registry:
  "(ss', line) \<in> set (lines_under ss tr) \<Longrightarrow> set ss \<subseteq> set ss' \<and> ([] \<notin> set ss \<longrightarrow> [] \<notin> set ss')"
proof (induction ss tr rule: lines_under.induct)
  case (2 ss v tr)
  then show ?case using add_secret_grows [of ss "Some v"] add_secret_nonempty [of ss "Some v"] by auto
qed auto

section \<open>Programs that register before they log\<close>

fun armed :: "string \<Rightarrow> cmd list \<Rightarrow> bool" where
  "armed v [] = False"
| "armed v (c # tr) = (c = RegisterSecret v \<or> \<not> is_log c \<and> armed v tr)"

lemma armed_append: "armed v a \<Longrightarrow> armed v (a @ b)"
  by (induction v a rule: armed.induct) auto

lemma armed_quiet: "(\<And>c. c \<in> set a \<Longrightarrow> \<not> is_log c) \<Longrightarrow> armed v b \<Longrightarrow> armed v (a @ b)"
  by (induction v a rule: armed.induct) auto

lemma armed_covers:
  "armed v tr \<Longrightarrow> registrable (Some v) \<Longrightarrow> (ss', line) \<in> set (lines_under ss tr) \<Longrightarrow> v \<in> set ss'"
proof (induction ss tr rule: lines_under.induct)
  case (2 ss u tr)
  show ?case
  proof (cases "u = v")
    case True
    with 2 lines_registry [of ss' line "add_secret (Some v) ss" tr] show ?thesis by (auto simp: add_secret_def)
  next
    case False
    with 2 show ?thesis by auto
  qed
qed auto

definition registers_first :: "'s world \<Rightarrow> string \<Rightarrow> 'a prog \<Rightarrow> bool" where
  "registers_first W v p \<longleftrightarrow> (\<forall>s x. armed v (map fst (trace_of W p s x)))"

lemma registers_first_covers:
  assumes "registers_first W v p" "registrable (Some v)" "[] \<notin> set ss"
    and "(ss', line) \<in> set (lines_under ss (map fst (trace_of W p s x)))"
  shows "insert v (set ss) \<subseteq> set ss' \<and> [] \<notin> set ss'"
  using lines_registry [OF assms(4)] armed_covers [OF _ assms(2,4)] assms(1,3)
  by (auto simp: registers_first_def)

lemma registers_first_bind: "registers_first W v p \<Longrightarrow> registers_first W v (bind p f)"
  by (simp add: registers_first_def run_bind armed_append)

lemma registers_first_catch: "registers_first W v p \<Longrightarrow> registers_first W v (catch p h)"
  by (simp add: registers_first_def run_catch armed_append)

lemma armed_bind:
  assumes "result_of W p s x = Inr a" "safe (\<lambda>c. \<not> is_log c) (\<lambda>_. True) (\<lambda>_. True) p"
    and "armed v (map fst (trace_of W (f a) (state_after W p s x) (ctx_after W p s x)))"
  shows "armed v (map fst (trace_of W (bind p f) s x))"
  using assms(1,3) by (auto simp: run_bind intro!: armed_quiet dest!: safe_trace [OF assms(2)])

lemma registers_first_after:
  assumes "\<And>s x. \<exists>a. result_of W p s x = Inr a" "safe (\<lambda>c. \<not> is_log c) (\<lambda>_. True) (\<lambda>_. True) p"
    and "\<And>a. registers_first W v (f a)"
  shows "registers_first W v (bind p f)"
  unfolding registers_first_def
proof (intro allI)
  fix s x
  obtain a where "result_of W p s x = Inr a" using assms(1) by blast
  with assms(3) [of a] show "armed v (map fst (trace_of W (bind p f) s x))"
    by (intro armed_bind [OF _ assms(2)]) (auto simp: registers_first_def)
qed

lemma registers_first_ctx:
  "(\<And>x. registers_first W v (k x)) \<Longrightarrow> registers_first W v (GetCtx k)"
  "registers_first W v p \<Longrightarrow> registers_first W v (SetCtx y p)"
  by (simp_all add: registers_first_def)

lemma registers_first_now: "registers_first W v (register_secret_value v)"
  by (simp add: registers_first_def register_secret_value_def)

section \<open>An authenticated request\<close>

text \<open>The routes whose handlers take the user's token.\<close>

definition takes_token :: "route \<Rightarrow> bool" where
  "takes_token rt \<longleftrightarrow> rt \<noteq> LiveCheck \<and> rt \<noteq> HealthCheck"

lemma caller_registers:
  assumes "\<not> unauthenticated (dp_settings dp) hs" "ad_auth_mode (dp_adapter dp) = USER_PAT"
    and "request_header ''X-User-Token'' hs = Some v" "registrable (Some v)"
  shows "registers_first W v (with_caller dp hs h)"
  unfolding with_caller_def
proof (rule registers_first_after)
  let ?p = "require_api_key (dp_settings dp) hs"
  obtain key where key: "request_header ''X-Api-Key'' hs = Some key" "key \<noteq> []"
    "key \<in> snd ` set (cf_api_keys (dp_settings dp))"
    using assms(1) unfolding unauthenticated_def by blast
  then obtain c where "verify_api_key key (cf_api_keys (dp_settings dp)) = Some c"
    using verify_api_key_None by (metis option.exhaust)
  with key have p: "?p = bind (set_consumer_id c) (\<lambda>_. Ret c)" by (simp add: require_api_key_def)
  show "\<exists>a. result_of W ?p s x = Inr a" for s x by (simp add: p run_simps)
  show "safe (\<lambda>c. \<not> is_log c) (\<lambda>_. True) (\<lambda>_. True) ?p"
    by (simp add: p set_consumer_id_def modify_ctx_def)
  have "get_user_token (dp_adapter dp) hs = bind (register_secret_value v) (\<lambda>_. Ret (Some v))"
    using assms(2-4) by (auto simp: get_user_token_def register_secret_def when_do_def registrable_def)
  then show "registers_first W v (bind (get_user_token (dp_adapter dp) hs) (h a))" for a
    by (simp only:) (intro registers_first_bind registers_first_now)
qed

lemma endpoint_registers:
  assumes "\<not> unauthenticated (dp_settings dp) hs" "ad_auth_mode (dp_adapter dp) = USER_PAT"
    and "request_header ''X-User-Token'' hs = Some v" "registrable (Some v)"
    and "takes_token rt" "reads_body rt \<longrightarrow> b \<noteq> None"
  shows "registers_first W v (endpoint fw dp hs b rt)"
proof -
  note caller = caller_registers [OF assms(1-4)]
  show ?thesis
    using assms(5,6)
    by (cases rt) (auto simp: takes_token_def reads_body_def with_body_def answer_with_def
        submit_endpoint_def poll_endpoint_def cancel_endpoint_def execute_endpoint_def
        get_action_endpoint_def reject_action_endpoint_def intro!: registers_first_bind caller
        simp del: bind_assoc)
qed

lemma quiet_ids:
  "safe (\<lambda>c. \<not> is_log c) (\<lambda>_. True) (\<lambda>_. True) new_id"
  "safe (\<lambda>c. \<not> is_log c) (\<lambda>_. True) (\<lambda>_. True) perf_counter"
  by (auto simp: new_id_def call_defs split: reply.split)

context platform
begin

lemma middleware_registers:
  assumes "registers_first W v app"
  shows "registers_first W v (correlation_middleware sc app)"
proof (cases "sc_type sc = ''http''")
  case True
  define first where "first = (case lower_headers (sc_headers sc) (lower correlation_header) of
    Some h \<Rightarrow> if h = [] then new_id else Ret h | None \<Rightarrow> new_id)"
  have first: "\<exists>a. result_of W first s x = Inr a" "safe (\<lambda>c. \<not> is_log c) (\<lambda>_. True) (\<lambda>_. True) first" for s x
    by (auto simp: first_def run_new_id quiet_ids split: option.split)
  show ?thesis
    using True
    by (auto simp: correlation_middleware_def Let_def first_def [symmetric]
        intro!: registers_first_after [OF first] registers_first_after [OF run_new_id(1) quiet_ids(1)]
          registers_first_after [OF run_perf_counter(1) quiet_ids(2)] registers_first_ctx registers_first_catch
          registers_first_bind [OF assms])
qed (simp add: correlation_middleware_def assms)

lemma serve_registers:
  assumes "registers_first W v (routed fw dp rq)"
  shows "registers_first W v (serve fw dp rq)"
  unfolding serve_def application_def
  by (intro registers_first_catch middleware_registers assms)

end

section \<open>An attempt of a job\<close>

lemma quiet_token:
  "safe (\<lambda>c. \<not> is_log c) (\<lambda>_. True) (\<lambda>_. True) (load_token cfg j)"
  "safe (\<lambda>c. \<not> is_log c) (\<lambda>_. True) (\<lambda>_. True) (vault_decrypt cr v b)"
proof -
  show "safe (\<lambda>c. \<not> is_log c) (\<lambda>_. True) (\<lambda>_. True) (load_token cfg j)"
    by (auto simp: load_token_def call_defs split: reply.split option.split rval.split)
  have "vault_cmd c \<Longrightarrow> \<not> is_log c" for c by (cases c) auto
  then show "safe (\<lambda>c. \<not> is_log c) (\<lambda>_. True) (\<lambda>_. True) (vault_decrypt cr v b)"
    by (auto intro: safe_mono [OF safe_vault_decrypt])
qed

text \<open>The worker registers the token as soon as it has decrypted it.\<close>

lemma credentials_registered:
  assumes "result_of W (resolve_job_credentials dp record) s x = Inr cr" "ad_auth_mode (wk_adapter dp) = USER_PAT"
    and "cr_user_token cr = Some v" "registrable (Some v)"
  shows "armed v (map fst (trace_of W (resolve_job_credentials dp record) s x))"
proof -
  from assms(1,2) obtain blob token where
    load: "result_of W (load_token (wk_settings dp) (job_id record)) s x = Inr (Some blob)"
    and dec: "result_of W (vault_decrypt (wk_crypto dp) (wk_vault dp) blob)
      (state_after W (load_token (wk_settings dp) (job_id record)) s x)
      (ctx_after W (load_token (wk_settings dp) (job_id record)) s x) = Inr token"
    and res: "resolve_credentials (wk_adapter dp) (Some token) = Inr cr"
    by (auto simp: resolve_job_credentials_def run_simps split: sum.splits option.splits)
  have "token = v" using res assms(2,3) by (auto simp: resolve_credentials_def split: if_splits)
  with assms(2,4) load dec show ?thesis
    unfolding resolve_job_credentials_def
    by (simp, intro armed_bind [OF load quiet_token(1)], simp, intro armed_bind [OF dec quiet_token(2)])
      (simp add: register_secret_def when_do_def run_bind register_secret_value_def)
qed

section \<open>Properties\<close>


definition polling :: http_request where
  "polling =
     \<lparr>ht_scope = \<lparr>sc_type = ''http'', sc_method = ''GET'', sc_path = ''/research/my-personal-token'',
        sc_headers = [(''X-Api-Key'', ''k1''), (''X-User-Token'', ''my-personal-token'')]\<rparr>, ht_json = None\<rparr>"

abbreviation polling_lines :: "(string list \<times> log_call) list" where
  "polling_lines \<equiv> lines_under (startup_secrets (dp_settings keyed_deps))
     (map fst (trace_of mem_world (serve demo_framework keyed_deps polling) mem_empty empty_ctx))"

lemma polling_facts:
  "request_header ''X-User-Token'' (sc_headers (ht_scope polling)) = Some ''my-personal-token''"
  "request_header ''X-Api-Key'' (sc_headers (ht_scope polling)) = Some ''k1''"
  "route_of (ht_scope polling) = Some (Poll ''my-personal-token'')"
  "lower_headers (sc_headers (ht_scope polling)) (lower correlation_header) = None"
  unfolding polling_def by code_simp+

lemma polling_caller:
  "require_api_key (dp_settings keyed_deps) (sc_headers (ht_scope polling)) =
     bind (set_consumer_id ''alpha'') (\<lambda>_. Ret ''alpha'')"
  "get_user_token (dp_adapter keyed_deps) (sc_headers (ht_scope polling)) =
     bind (register_secret_value ''my-personal-token'') (\<lambda>_. Ret (Some ''my-personal-token''))"
  by (simp_all add: require_api_key_def get_user_token_def polling_facts keyed_deps_def verify_api_key_def
      register_secret_def registrable_def min_secret_len_def when_do_def compare_digest_def)

lemma polling_scope:
  "sc_type (ht_scope polling) = ''http''" "sc_method (ht_scope polling) = ''GET''"
  "sc_path (ht_scope polling) = ''/research/my-personal-token''"
  by (simp_all add: polling_def)

lemma polling_routed:
  fixes s :: mem and x :: ctx
  defines "p \<equiv> routed demo_framework keyed_deps polling"
  assumes "mem_keys s = (\<lambda>_. None)"
  shows "result_of mem_world p s x = Inl (unknown_job ''my-personal-token'')"
    and "map fst (trace_of mem_world p s x) =
      [RegisterSecret ''my-personal-token'', RGet (key_of (dp_settings keyed_deps) ''job'' ''my-personal-token'')]"
    and "ctx_after mem_world p s x = x\<lparr>cx_consumer_id := Some ''alpha''\<rparr>"
    and "state_after mem_world p s x = s\<lparr>mem_secrets := ''my-personal-token'' # mem_secrets s\<rparr>"
proof -
  have "p = answer_with 200 JobBody (poll_endpoint keyed_deps (sc_headers (ht_scope polling)) ''my-personal-token'')"
    by (simp add: p_def routed_def polling_facts)
  moreover have "result_of mem_world (get_job cfg j) s x = Inr None" "state_after mem_world (get_job cfg j) s x = s"
    "ctx_after mem_world (get_job cfg j) s x = x"
    "map fst (trace_of mem_world (get_job cfg j) s x) = [RGet (key_of cfg ''job'' j)]"
    if "mem_keys s = (\<lambda>_. None)" for cfg j s x
    using that by (simp_all add: get_job_def redis_get_def)
  ultimately show "result_of mem_world p s x = Inl (unknown_job ''my-personal-token'')"
    "map fst (trace_of mem_world p s x) =
      [RegisterSecret ''my-personal-token'', RGet (key_of (dp_settings keyed_deps) ''job'' ''my-personal-token'')]"
    "ctx_after mem_world p s x = x\<lparr>cx_consumer_id := Some ''alpha''\<rparr>"
    "state_after mem_world p s x = s\<lparr>mem_secrets := ''my-personal-token'' # mem_secrets s\<rparr>"
    using assms
    by (simp_all add: poll_endpoint_def with_caller_def polling_caller answer_with_def poll_research_def
        authorized_job_def run_simps register_secret_value_def)
qed

lemma polling_log:
  "polling_lines = [([''my-personal-token''], INFO, ''http_request'', ''GET /research/my-personal-token'',
     [(''duration_ms'', ''0.0''), (''status'', ''404'')])]"
proof -
  have strs: "show_int 0 = ''0''" "show_int 404 = ''404''" "startup_secrets (dp_settings keyed_deps) = []"
    by (code_simp, code_simp, simp add: startup_secrets_def keyed_deps_def add_secret_def registrable_def min_secret_len_def)
  have app: "trace_of mem_world (serve demo_framework keyed_deps polling) s x =
      trace_of mem_world (catch (correlation_middleware (ht_scope polling)
        (catch (routed demo_framework keyed_deps polling) (handle_typed demo_framework (ht_scope polling))))
        handle_unexpected) s x" for s x
    by (simp add: serve_def application_def)
  show ?thesis
    by (simp add: app correlation_middleware_def polling_facts polling_scope run_simps new_id_def call_defs mem_empty_def
        polling_routed handle_typed_def unknown_job_def error_answer_def current_correlation_id_def json_response_def
        access_log_def when_do_def Let_def round_div_def strs add_secret_def registrable_def min_secret_len_def)
qed



definition token_store :: "string \<Rightarrow> mem" where
  "token_store blob = mem_empty\<lparr>mem_keys := [token_key default_settings ''j1'' \<mapsto> (VStr blob, Some 1320)]\<rparr>"


end
