(* ===== verification/Lifecycle.thy ===== *)
theory Lifecycle
  imports Request_Path
begin

text \<open>
  The life of the two processes: the logging configuration they begin with
  (\<open>configure_logging\<close>), the lifespan of the API (\<open>_lifespan\<close> of \<^verbatim>\<open>app/main.py\<close>), the shutdown of the worker
  and what they release: the token vault's clients, the queue's pool, the Redis connection. Closing one
  of them is a call of a library; the record \<open>closers\<close> has these calls, any programs.
\<close>

section \<open>Logging configuration\<close>

record formatter =
  fm_service :: string
  fm_domain :: string
  fm_env :: string

text \<open>What the standard library keeps: the root logger's handlers and level, and whether \<open>uvicorn.access\<close> is on.\<close>

record log_setup =
  lg_handlers :: "formatter list"
  lg_level :: log_level
  lg_access_disabled :: bool

definition build_formatter :: "settings \<Rightarrow> formatter" where
  "build_formatter cfg =
     \<lparr>fm_service = cf_service_name cfg, fm_domain = cf_domain cfg, fm_env = cf_env cfg\<rparr>"

definition configure_logging :: "settings \<Rightarrow> log_setup \<Rightarrow> string list \<Rightarrow> log_setup \<times> string list" where
  "configure_logging cfg lg secrets =
     (lg\<lparr>lg_handlers := [build_formatter cfg], lg_level := INFO, lg_access_disabled := True\<rparr>,
      foldl (\<lambda>ss (c, key). add_secret (Some key) ss) secrets (cf_api_keys cfg))"

definition clear_secrets :: "string list \<Rightarrow> string list" where
  "clear_secrets secrets = []"

text \<open>The line a handler of the root logger writes.\<close>

definition handled_line :: "formatter \<Rightarrow> string list \<Rightarrow> string \<Rightarrow> log_record \<Rightarrow> ctx \<Rightarrow> string" where
  "handled_line fm secrets timestamp r x =
     format_record secrets timestamp (fm_service fm) (fm_domain fm) (fm_env fm) r x"

lemma registry_after_startup: "snd (configure_logging cfg lg []) = startup_secrets cfg"
  by (simp add: configure_logging_def startup_secrets_def)

lemma set_add_secret: "set (add_secret (Some v) ss) = (if registrable (Some v) then insert v (set ss) else set ss)"
  by (simp add: add_secret_def)

lemma registered_keys:
  "set (snd (configure_logging cfg lg secrets)) =
     set secrets \<union> {key \<in> snd ` set (cf_api_keys cfg). registrable (Some key)}"
proof -
  have "set (foldl (\<lambda>ss (c, key). add_secret (Some key) ss) secrets ks) =
      set secrets \<union> {key \<in> snd ` set ks. registrable (Some key)}" for ks
    by (induction ks arbitrary: secrets) (auto simp: set_add_secret split: if_splits)
  then show ?thesis by (simp add: configure_logging_def)
qed

text \<open>Configuring again changes nothing: one handler, and the same secrets.\<close>

lemma configure_again:
  assumes "configure_logging cfg lg secrets = (lg', secrets')"
  shows "fst (configure_logging cfg lg' secrets') = lg'" "set (snd (configure_logging cfg lg' secrets')) = set secrets'"
  using assms registered_keys [of cfg lg secrets] registered_keys [of cfg lg' secrets']
  by (auto simp: configure_logging_def)

section \<open>Resources\<close>

text \<open>
  The lazily built objects of \<open>KeyVaultTokenVault\<close>: whether \<open>_client\<close> and \<open>_credential\<close> are set.
\<close>

record vault_objects =
  vo_client :: bool
  vo_credential :: bool

definition fresh_objects :: vault_objects where
  "fresh_objects = \<lparr>vo_client = False, vo_credential = False\<rparr>"

definition crypto_client :: "vault_objects \<Rightarrow> vault_objects" where
  "crypto_client ob =
     (if vo_client ob then ob else ob\<lparr>vo_credential := True, vo_client := True\<rparr>)"

record closers =
  cl_client :: "unit prog"
  cl_credential :: "unit prog"
  cl_pool :: "unit prog"
  cl_redis :: "unit prog"

definition vault_aclose :: "vault \<Rightarrow> closers \<Rightarrow> vault_objects \<Rightarrow> unit prog" where
  "vault_aclose v cl ob =
     (case v of
        KeyVaultTokenVault kid \<Rightarrow>
          bind (when_do (vo_client ob) (cl_client cl)) (\<lambda>_.
          when_do (vo_credential ob) (cl_credential cl))
      | _ \<Rightarrow> Ret ())"

definition queue_aclose :: "closers \<Rightarrow> unit prog" where
  "queue_aclose cl = cl_pool cl"

section \<open>The API process\<close>

definition release_api :: "vault \<Rightarrow> closers \<Rightarrow> vault_objects \<Rightarrow> unit prog" where
  "release_api v cl ob =
     bind (vault_aclose v cl ob) (\<lambda>_.
     bind (queue_aclose cl) (\<lambda>_.
     cl_redis cl))"

text \<open>
  \<open>_lifespan\<close>: injected dependencies belong to the caller; otherwise the process builds its own and
  releases them when it stops. \<open>serving\<close> is the time between, which may end by an exception; \<open>ob\<close> is what
  the vault has built by then.
\<close>

definition lifespan ::
    "deps option \<Rightarrow> deps prog \<Rightarrow> closers \<Rightarrow> vault_objects \<Rightarrow> (deps \<Rightarrow> unit prog) \<Rightarrow> unit prog" where
  "lifespan injected start cl ob serving =
     (case injected of
        Some dp \<Rightarrow> finally_do (serving dp) (Ret ())
      | None \<Rightarrow>
          bind start (\<lambda>dp. finally_do (serving dp) (release_api (dp_vault dp) cl ob)))"

section \<open>The worker process\<close>

definition worker_shutdown :: "worker_deps \<Rightarrow> closers \<Rightarrow> vault_objects \<Rightarrow> unit prog" where
  "worker_shutdown wk cl ob =
     bind (vault_aclose (wk_vault wk) cl ob) (\<lambda>_.
     bind (cl_redis cl) (\<lambda>_.
     log_event INFO ''worker_stopped'' [] []))"

section \<open>What is released\<close>

text \<open>However often the vault has been used: both objects exist, or neither.\<close>

lemma objects_paired:
  "(crypto_client ^^ n) fresh_objects = \<lparr>vo_client = (n \<noteq> 0), vo_credential = (n \<noteq> 0)\<rparr>"
  by (induction n) (auto simp: fresh_objects_def crypto_client_def)

lemma run_finally:
  "result_of W (finally_do p f) s x =
     (case result_of W f (state_after W p s x) (ctx_after W p s x) of
        Inl e \<Rightarrow> Inl e | Inr u \<Rightarrow> result_of W p s x)"
  "trace_of W (finally_do p f) s x =
     trace_of W p s x @ trace_of W f (state_after W p s x) (ctx_after W p s x)"
  by (auto simp: finally_do_def run_simps split: sum.split)

text \<open>The release in order; what fails keeps the rest open.\<close>

lemma released_in_order:
  "result_of W (release_api v cl ob) s x = Inr u \<Longrightarrow>
   \<exists>s1 x1 s2 x2. runs W (vault_aclose v cl ob) s x () s1 x1 \<and> runs W (cl_pool cl) s1 x1 () s2 x2 \<and>
     trace_of W (release_api v cl ob) s x =
       trace_of W (vault_aclose v cl ob) s x @ trace_of W (cl_pool cl) s1 x1 @ trace_of W (cl_redis cl) s2 x2"
  by (auto simp: release_api_def queue_aclose_def runs_def run_simps split: sum.splits)

lemma failed_close_stops:
  assumes "result_of W (vault_aclose v cl ob) s x = Inl e"
  shows "result_of W (release_api v cl ob) s x = Inl e"
    and "trace_of W (release_api v cl ob) s x = trace_of W (vault_aclose v cl ob) s x"
  using assms by (simp_all add: release_api_def run_simps)

lemma startup_never_returns: "\<exists>e. result_of W (api_startup connect cr cfg) s x = Inl e"
  by (auto simp: api_startup_def run_bind run_lift_result startup_record_refused split: sum.split)

lemma register_api_keys_never_fails: "result_of W (register_api_keys cfg) s x = Inr ()"
proof -
  have "result_of W (foldr (\<lambda>(c, key) p. bind (register_secret (Some key)) (\<lambda>_. p)) ks (Ret ())) s x = Inr ()"
    for ks s x
    by (induction ks arbitrary: s x)
      (auto simp: run_bind register_secret_def register_secret_value_def when_do_def split: prod.split)
  then show ?thesis by (simp add: register_api_keys_def)
qed

section \<open>Properties\<close>

text \<open>
  C39: the API process that owns its resources never serves. When its settings are valid and it can
  connect, it opens the Redis connection and the queue's pool, then the record of the line
  \<open>api started\<close>, which has an \<open>extra\<close> named \<open>message\<close>, is refused with \<open>KeyError\<close> before the \<open>try\<close> block is
  entered: the serving phase is never reached and nothing that was opened is closed. With injected
  dependencies it serves, and closes nothing either.
\<close>

theorem owned_process_never_serves:
  "(\<exists>e. result_of W (lifespan None (api_startup connect cr cfg) cl ob serving) s x = Inl e) \<and>
   trace_of W (lifespan None (api_startup connect cr cfg) cl ob serving) s x =
     trace_of W (api_startup connect cr cfg) s x \<and>
   (build_token_vault cfg = Inr v \<longrightarrow> build_adapter cfg = Inr ad \<longrightarrow>
    (\<forall>s x. result_of W connect s x = Inr ()) \<longrightarrow>
    result_of W (lifespan None (api_startup connect cr cfg) cl ob serving) s x =
      Inl (KeyError ''Attempt to overwrite message in LogRecord'')) \<and>
   result_of W (lifespan (Some dp) (api_startup connect cr cfg) cl ob serving) s x = result_of W (serving dp) s x \<and>
   trace_of W (lifespan (Some dp) (api_startup connect cr cfg) cl ob serving) s x = trace_of W (serving dp) s x"
proof -
  obtain e where "result_of W (api_startup connect cr cfg) s x = Inl e" 
    using startup_never_returns [of W connect cr cfg s x] by (elim exE)
  then show ?thesis
    by (auto simp: lifespan_def run_simps run_finally)
      (auto simp: api_startup_def run_simps register_api_keys_never_fails startup_record_refused)
qed

theorem owned_process_never_serves_witness:
  "result_of mem_world (lifespan None (api_startup (Ret ()) demo_crypto default_settings)
     \<lparr>cl_client = Ret (), cl_credential = Ret (), cl_pool = Ret (), cl_redis = Ret ()\<rparr> fresh_objects
     (\<lambda>_. Ret ())) mem_empty empty_ctx = Inl (KeyError ''Attempt to overwrite message in LogRecord'')"
proof -
  have "build_token_vault default_settings = Inr NullTokenVault"
    "build_adapter default_settings = Inr (jira_adapter [])"
    by (simp_all add: build_token_vault_def build_adapter_def adapter_builders_def default_settings_def)
  then show ?thesis
    using owned_process_never_serves [of mem_world "Ret ()" demo_crypto default_settings
        "\<lparr>cl_client = Ret (), cl_credential = Ret (), cl_pool = Ret (), cl_redis = Ret ()\<rparr>" fresh_objects
        "\<lambda>_. Ret ()" mem_empty empty_ctx NullTokenVault "jira_adapter []"]
    by simp
qed

end
