(* ===== verification/Persistence.thy ===== *)
theory Persistence
  imports Redis_Store "HOL-Library.Monad_Syntax"
begin

text \<open>
  The documents under the Redis keys. \<^verbatim>\<open>Effects\<close> keeps the record of a document under its key; here are
  the JSON documents themselves: what \<open>model_dump(mode="json")\<close> writes of the models of
  \<^verbatim>\<open>app/models/schemas.py\<close> and what \<open>model_validate\<close> reads, with the defaults of their fields. Reading
  what was written gives the record back, so nothing is lost by keeping the records.

  The text of an instant and its reading are Pydantic's: \<open>isoformat\<close> and \<open>dt\<close>. \<open>now\<close> is the clock
  at the time of reading, the default of a missing \<open>created_at\<close>.
\<close>

section \<open>Fields\<close>

text \<open>A field of a document: its reader, and its default if it has one.\<close>

definition field :: "(json \<Rightarrow> 'a option) \<Rightarrow> 'a option \<Rightarrow> string \<Rightarrow> dict \<Rightarrow> 'a option" where
  "field f dflt k d = (case map_of d k of None \<Rightarrow> dflt | Some v \<Rightarrow> f v)"

lemma field_Cons [simp]: "field f dflt k ((k', v) # d) = (if k = k' then f v else field f dflt k d)"
  by (auto simp: field_def)

fun as_str :: "json \<Rightarrow> string option" where
  "as_str (JStr s) = Some s"
| "as_str _ = None"

fun as_int :: "json \<Rightarrow> int option" where
  "as_int (JInt i) = Some i"
| "as_int _ = None"

definition as_nat :: "json \<Rightarrow> nat option" where
  "as_nat v = Option.bind (as_int v) (\<lambda>i. if 0 \<le> i then Some (nat i) else None)"

fun as_bool :: "json \<Rightarrow> bool option" where
  "as_bool (JBool b) = Some b"
| "as_bool _ = None"

fun as_list :: "(json \<Rightarrow> 'a option) \<Rightarrow> json \<Rightarrow> 'a list option" where
  "as_list f (JArr xs) = all_some (map f xs)"
| "as_list f _ = None"

definition nullable :: "(json \<Rightarrow> 'a option) \<Rightarrow> json \<Rightarrow> 'a option option" where
  "nullable f v = (if v = JNull then Some None else map_option Some (f v))"

definition opt_value :: "('a \<Rightarrow> json) \<Rightarrow> 'a option \<Rightarrow> json" where
  "opt_value g v = (case v of None \<Rightarrow> JNull | Some a \<Rightarrow> g a)"

lemma as_nat_int [simp]: "as_nat (JInt (int n)) = Some n"
  by (simp add: as_nat_def)

lemma all_some_map: "(\<And>x. x \<in> set xs \<Longrightarrow> f (g x) = Some x) \<Longrightarrow> all_some (map (f \<circ> g) xs) = Some xs"
  by (induction xs) auto

lemma as_list_map [simp]:
  "(\<And>x. f (g x) = Some x) \<Longrightarrow> as_list f (JArr (map g xs)) = Some xs"
  by (simp add: all_some_map)

lemma nullable_opt [simp]:
  "(\<And>a. f (g a) = Some a) \<Longrightarrow> (\<And>a. g a \<noteq> JNull) \<Longrightarrow> nullable f (opt_value g v) = Some v"
  by (auto simp: nullable_def opt_value_def split: option.split)

section \<open>The enums\<close>

fun status_of_value :: "string \<Rightarrow> job_status option" where
  "status_of_value s =
     (if s = ''queued'' then Some QUEUED else if s = ''running'' then Some RUNNING
      else if s = ''completed'' then Some COMPLETED else if s = ''failed'' then Some FAILED
      else if s = ''cancelled'' then Some CANCELLED else None)"

fun code_value :: "error_code \<Rightarrow> string" where
  "code_value INVALID_API_KEY = ''INVALID_API_KEY''"
| "code_value MISSING_USER_TOKEN = ''MISSING_USER_TOKEN''"
| "code_value ACTION_EXPIRED = ''ACTION_EXPIRED''"
| "code_value PAYLOAD_MISMATCH = ''PAYLOAD_MISMATCH''"
| "code_value STALE_TARGET = ''STALE_TARGET''"
| "code_value IDEMPOTENT_REPLAY = ''IDEMPOTENT_REPLAY''"
| "code_value JOB_NOT_FOUND = ''JOB_NOT_FOUND''"
| "code_value JOB_TIMEOUT = ''JOB_TIMEOUT''"
| "code_value UNSUPPORTED_ACTION = ''UNSUPPORTED_ACTION''"
| "code_value VALIDATION_ERROR = ''VALIDATION_ERROR''"
| "code_value DOWNSTREAM_ERROR = ''DOWNSTREAM_ERROR''"
| "code_value DEPENDENCY_UNAVAILABLE = ''DEPENDENCY_UNAVAILABLE''"
| "code_value INTERNAL_ERROR = ''INTERNAL_ERROR''"

definition error_codes :: "error_code list" where
  "error_codes = [INVALID_API_KEY, MISSING_USER_TOKEN, ACTION_EXPIRED, PAYLOAD_MISMATCH, STALE_TARGET,
     IDEMPOTENT_REPLAY, JOB_NOT_FOUND, JOB_TIMEOUT, UNSUPPORTED_ACTION, VALIDATION_ERROR, DOWNSTREAM_ERROR,
     DEPENDENCY_UNAVAILABLE, INTERNAL_ERROR]"

definition code_of_value :: "string \<Rightarrow> error_code option" where
  "code_of_value s = List.find (\<lambda>c. code_value c = s) error_codes"

definition as_status :: "json \<Rightarrow> job_status option" where
  "as_status v = Option.bind (as_str v) status_of_value"

definition as_code :: "json \<Rightarrow> error_code option" where
  "as_code v = Option.bind (as_str v) code_of_value"

lemma as_status_value [simp]: "as_status (JStr (status_value s)) = Some s"
  by (cases s) (simp_all add: as_status_def)

lemma as_code_value [simp]: "as_code (JStr (code_value c)) = Some c"
  by (cases c) (simp_all add: as_code_def code_of_value_def error_codes_def)

section \<open>The documents\<close>

definition progress_json :: "job_progress \<Rightarrow> json" where
  "progress_json p =
     JObj [(''last_tool'', opt_value JStr (pr_last_tool p)), (''steps'', JInt (int (pr_steps p)))]"

definition read_progress :: "json \<Rightarrow> job_progress option" where
  "read_progress j = do {
     d \<leftarrow> as_dict j;
     t \<leftarrow> field (nullable as_str) (Some None) ''last_tool'' d;
     n \<leftarrow> field as_nat (Some 0) ''steps'' d;
     Some \<lparr>pr_last_tool = t, pr_steps = n\<rparr>
   }"

definition error_json :: "job_error \<Rightarrow> json" where
  "error_json e = JObj [(''code'', JStr (code_value (je_code e))), (''message'', JStr (je_message e))]"

definition read_error :: "json \<Rightarrow> job_error option" where
  "read_error j = do {
     d \<leftarrow> as_dict j;
     c \<leftarrow> field as_code None ''code'' d;
     m \<leftarrow> field as_str None ''message'' d;
     Some \<lparr>je_code = c, je_message = m\<rparr>
   }"

definition findings_json :: "findings \<Rightarrow> json" where
  "findings_json f =
     JObj [(''summary'', JStr (fi_summary f)), (''sources'', JArr (map JObj (fi_sources f))),
           (''details'', JObj (fi_details f))]"

definition read_findings :: "json \<Rightarrow> findings option" where
  "read_findings j = do {
     d \<leftarrow> as_dict j;
     s \<leftarrow> field as_str (Some []) ''summary'' d;
     r \<leftarrow> field (as_list as_dict) (Some []) ''sources'' d;
     x \<leftarrow> field as_dict (Some []) ''details'' d;
     Some \<lparr>fi_summary = s, fi_sources = r, fi_details = x\<rparr>
   }"

definition action_json :: "(time \<Rightarrow> string) \<Rightarrow> proposed_action \<Rightarrow> json" where
  "action_json isoformat a =
     JObj [(''action_id'', JStr (pa_action_id a)), (''action_type'', JStr (pa_action_type a)),
           (''target'', JObj (pa_target a)), (''payload'', JObj (pa_payload a)),
           (''preview'', JStr (pa_preview a)), (''preconditions'', JObj (pa_preconditions a)),
           (''expires_at'', JStr (isoformat (pa_expires_at a))),
           (''editable_fields'', JArr (map JStr (pa_editable_fields a))),
           (''correlation_id'', JStr (pa_correlation_id a))]"

definition read_action :: "(json \<Rightarrow> time option) \<Rightarrow> json \<Rightarrow> proposed_action option" where
  "read_action dt j = do {
     d \<leftarrow> as_dict j;
     i \<leftarrow> field as_str None ''action_id'' d;
     t \<leftarrow> field as_str None ''action_type'' d;
     tg \<leftarrow> field as_dict (Some []) ''target'' d;
     p \<leftarrow> field as_dict (Some []) ''payload'' d;
     pv \<leftarrow> field as_str (Some []) ''preview'' d;
     pc \<leftarrow> field as_dict (Some []) ''preconditions'' d;
     e \<leftarrow> field dt None ''expires_at'' d;
     ed \<leftarrow> field (as_list as_str) (Some []) ''editable_fields'' d;
     c \<leftarrow> field as_str None ''correlation_id'' d;
     Some \<lparr>pa_action_id = i, pa_action_type = t, pa_target = tg, pa_payload = p, pa_preview = pv,
           pa_preconditions = pc, pa_expires_at = e, pa_editable_fields = ed, pa_correlation_id = c\<rparr>
   }"

definition job_json :: "(time \<Rightarrow> string) \<Rightarrow> job_record \<Rightarrow> json" where
  "job_json isoformat r =
     JObj [(''job_id'', JStr (job_id r)), (''domain'', JStr (job_domain r)),
           (''status'', JStr (status_value (job_status r))), (''task'', JStr (job_task r)),
           (''session_id'', JStr (job_session_id r)), (''context'', opt_value JObj (job_context r)),
           (''constraints'', opt_value JObj (job_constraints r)),
           (''consumer_id'', JStr (job_consumer_id r)),
           (''principal_hash'', opt_value JStr (job_principal_hash r)),
           (''correlation_id'', JStr (job_correlation_id r)),
           (''created_at'', JStr (isoformat (job_created_at r))),
           (''started_at'', opt_value (\<lambda>t. JStr (isoformat t)) (job_started_at r)),
           (''finished_at'', opt_value (\<lambda>t. JStr (isoformat t)) (job_finished_at r)),
           (''attempt'', JInt (job_attempt r)), (''max_attempts'', JInt (job_max_attempts r)),
           (''progress'', progress_json (job_progress r)),
           (''error'', opt_value error_json (job_error r))]"

definition read_job :: "(json \<Rightarrow> time option) \<Rightarrow> time \<Rightarrow> json \<Rightarrow> job_record option" where
  "read_job dt now j = do {
     d \<leftarrow> as_dict j;
     i \<leftarrow> field as_str None ''job_id'' d;
     dm \<leftarrow> field as_str None ''domain'' d;
     st \<leftarrow> field as_status (Some QUEUED) ''status'' d;
     tk \<leftarrow> field as_str None ''task'' d;
     s \<leftarrow> field as_str None ''session_id'' d;
     ct \<leftarrow> field (nullable as_dict) (Some None) ''context'' d;
     cs \<leftarrow> field (nullable as_dict) (Some None) ''constraints'' d;
     u \<leftarrow> field as_str None ''consumer_id'' d;
     h \<leftarrow> field (nullable as_str) (Some None) ''principal_hash'' d;
     c \<leftarrow> field as_str None ''correlation_id'' d;
     cr \<leftarrow> field dt (Some now) ''created_at'' d;
     sa \<leftarrow> field (nullable dt) (Some None) ''started_at'' d;
     fa \<leftarrow> field (nullable dt) (Some None) ''finished_at'' d;
     a \<leftarrow> field as_int (Some 0) ''attempt'' d;
     m \<leftarrow> field as_int (Some 2) ''max_attempts'' d;
     p \<leftarrow> field read_progress (Some \<lparr>pr_last_tool = None, pr_steps = 0\<rparr>) ''progress'' d;
     e \<leftarrow> field (nullable read_error) (Some None) ''error'' d;
     Some \<lparr>job_id = i, job_domain = dm, job_status = st, job_task = tk, job_session_id = s,
           job_context = ct, job_constraints = cs, job_consumer_id = u, job_principal_hash = h,
           job_correlation_id = c, job_created_at = cr, job_started_at = sa, job_finished_at = fa,
           job_attempt = a, job_max_attempts = m, job_progress = p, job_error = e\<rparr>
   }"

definition result_json :: "(time \<Rightarrow> string) \<Rightarrow> job_result_doc \<Rightarrow> json" where
  "result_json isoformat r =
     JObj [(''findings'', findings_json (rd_findings r)),
           (''proposed_actions'', JArr (map (action_json isoformat) (rd_proposed_actions r)))]"

definition read_result :: "(json \<Rightarrow> time option) \<Rightarrow> json \<Rightarrow> job_result_doc option" where
  "read_result dt j = do {
     d \<leftarrow> as_dict j;
     f \<leftarrow> field read_findings None ''findings'' d;
     p \<leftarrow> field (as_list (read_action dt)) (Some []) ''proposed_actions'' d;
     Some \<lparr>rd_findings = f, rd_proposed_actions = p\<rparr>
   }"

definition proposal_json :: "(time \<Rightarrow> string) \<Rightarrow> stored_proposal \<Rightarrow> json" where
  "proposal_json isoformat p =
     JObj [(''action'', action_json isoformat (sp_action p)), (''job_id'', JStr (sp_job_id p)),
           (''session_id'', JStr (sp_session_id p)), (''consumer_id'', JStr (sp_consumer_id p)),
           (''principal_hash'', opt_value JStr (sp_principal_hash p)),
           (''created_at'', JStr (isoformat (sp_created_at p)))]"

definition read_proposal :: "(json \<Rightarrow> time option) \<Rightarrow> time \<Rightarrow> json \<Rightarrow> stored_proposal option" where
  "read_proposal dt now j = do {
     d \<leftarrow> as_dict j;
     a \<leftarrow> field (read_action dt) None ''action'' d;
     i \<leftarrow> field as_str None ''job_id'' d;
     s \<leftarrow> field as_str None ''session_id'' d;
     u \<leftarrow> field as_str None ''consumer_id'' d;
     h \<leftarrow> field (nullable as_str) (Some None) ''principal_hash'' d;
     c \<leftarrow> field dt (Some now) ''created_at'' d;
     Some \<lparr>sp_action = a, sp_job_id = i, sp_session_id = s, sp_consumer_id = u,
           sp_principal_hash = h, sp_created_at = c\<rparr>
   }"

text \<open>
  The recorded response is a plain dictionary in the idempotency record; \<open>/execute\<close> validates it when it
  is replayed (\<open>ExecuteResponse.model_validate(existing.response)\<close>).
\<close>

definition response_json :: "execute_response \<Rightarrow> dict" where
  "response_json r =
     [(''status'', JStr (ex_status r)), (''action_id'', JStr (ex_action_id r)),
      (''result'', JObj (ex_result r)), (''resource_url'', opt_value JStr (ex_resource_url r)),
      (''idempotent_replay'', JBool (ex_idempotent_replay r)),
      (''correlation_id'', JStr (ex_correlation_id r))]"

definition read_response :: "dict \<Rightarrow> execute_response option" where
  "read_response d = do {
     s \<leftarrow> field as_str (Some ''executed'') ''status'' d;
     a \<leftarrow> field as_str None ''action_id'' d;
     r \<leftarrow> field as_dict (Some []) ''result'' d;
     u \<leftarrow> field (nullable as_str) (Some None) ''resource_url'' d;
     b \<leftarrow> field as_bool (Some False) ''idempotent_replay'' d;
     c \<leftarrow> field as_str None ''correlation_id'' d;
     Some \<lparr>ex_status = s, ex_action_id = a, ex_result = r, ex_resource_url = u,
           ex_idempotent_replay = b, ex_correlation_id = c\<rparr>
   }"

definition idempotency_json :: "(time \<Rightarrow> string) \<Rightarrow> idempotency_record \<Rightarrow> json" where
  "idempotency_json isoformat r =
     JObj [(''request_hash'', JStr (id_request_hash r)), (''response'', JObj (response_json (id_response r))),
           (''created_at'', JStr (isoformat (id_created_at r)))]"

definition read_idempotency :: "(json \<Rightarrow> time option) \<Rightarrow> time \<Rightarrow> json \<Rightarrow> idempotency_record option" where
  "read_idempotency dt now j = do {
     d \<leftarrow> as_dict j;
     h \<leftarrow> field as_str None ''request_hash'' d;
     r \<leftarrow> field as_dict None ''response'' d;
     resp \<leftarrow> read_response r;
     c \<leftarrow> field dt (Some now) ''created_at'' d;
     Some \<lparr>id_request_hash = h, id_response = resp, id_created_at = c\<rparr>
   }"

section \<open>Reading what was written\<close>

lemma read_progress_json [simp]: "read_progress (progress_json p) = Some p"
  by (simp add: read_progress_def progress_json_def)

lemma read_error_json [simp]: "read_error (error_json e) = Some e"
  by (simp add: read_error_def error_json_def)

lemma error_not_null [simp]: "error_json e \<noteq> JNull"
  by (simp add: error_json_def)

lemma read_findings_json [simp]: "read_findings (findings_json f) = Some f"
  by (simp add: read_findings_def findings_json_def del: as_list.simps)

lemma read_response_json [simp]: "read_response (response_json r) = Some r"
  by (simp add: read_response_def response_json_def)

text \<open>Pydantic reads the instants it writes.\<close>

locale instants =
  fixes isoformat :: "time \<Rightarrow> string" and dt :: "json \<Rightarrow> time option"
  assumes reads_back: "dt (JStr (isoformat t)) = Some t"
begin

lemma read_action_json [simp]: "read_action dt (action_json isoformat a) = Some a"
  by (simp add: read_action_def action_json_def reads_back del: as_list.simps)

lemma read_job_json: "read_job dt now (job_json isoformat r) = Some r"
  by (simp add: read_job_def job_json_def reads_back)

lemma read_result_json: "read_result dt (result_json isoformat r) = Some r"
  by (simp add: read_result_def result_json_def del: as_list.simps)

lemma read_proposal_json: "read_proposal dt now (proposal_json isoformat p) = Some p"
  by (simp add: read_proposal_def proposal_json_def reads_back)

lemma read_idempotency_json: "read_idempotency dt now (idempotency_json isoformat r) = Some r"
  by (simp add: read_idempotency_def idempotency_json_def reads_back)

end

text \<open>
  A value survives when its document reads back, and so does the document's text where it has no float
  (\<^verbatim>\<open>Json_Parse\<close> prints and reads those exactly).
\<close>

definition survives :: "('a \<Rightarrow> json) \<Rightarrow> (json \<Rightarrow> 'a option) \<Rightarrow> 'a \<Rightarrow> bool" where
  "survives dump validate a \<longleftrightarrow>
     validate (dump a) = Some a \<and>
     (no_float (dump a) \<longrightarrow> wf_json (dump a) \<longrightarrow>
      Option.bind (loads (dumps '','' '':'' (dump a))) validate = Some a)"

lemma survivesI: "validate (dump a) = Some a \<Longrightarrow> survives dump validate a"
proof -
  assume "validate (dump a) = Some a"
  moreover have "loads (dumps '','' '':'' (dump a)) = Some (dump a)" if "no_float (dump a)" "wf_json (dump a)"
    using loads_dumps [OF that, of "[]" "[]"] by simp
  ultimately show ?thesis by (simp add: survives_def)
qed

section \<open>Properties\<close>

text \<open>
  C18: what the store reads is what it wrote. The four documents kept in Redis (job record, result,
  proposal, idempotency record with the recorded response) come back from their JSON form, and from its
  text, as the values they were written from, with every optional field, enum and nested model, as long as
  Pydantic reads back the instants it writes.
\<close>

theorem stored_documents_survive:
  assumes "\<forall>t. dt (JStr (isoformat t)) = Some t"
  shows "survives (job_json isoformat) (read_job dt now) r \<and>
         survives (result_json isoformat) (read_result dt) d \<and>
         survives (proposal_json isoformat) (read_proposal dt now) p \<and>
         survives (idempotency_json isoformat) (read_idempotency dt now) i"
proof -
  have dt: "instants isoformat dt" using assms by (simp add: instants_def)
  show ?thesis
    by (intro conjI survivesI instants.read_job_json [OF dt] instants.read_result_json [OF dt]
        instants.read_proposal_json [OF dt] instants.read_idempotency_json [OF dt])
qed

text \<open>A writing of instants: as decimal numbers.\<close>

definition decimal_instant :: "time \<Rightarrow> string" where
  "decimal_instant t = dumps_default (JInt t)"

fun read_decimal :: "json \<Rightarrow> time option" where
  "read_decimal (JStr s) = Option.bind (loads s) as_int"
| "read_decimal _ = None"

interpretation decimal: instants decimal_instant read_decimal
  by unfold_locales (simp add: decimal_instant_def loads_dumps_default)

theorem stored_documents_survive_witness:
  "read_job read_decimal 0 (job_json decimal_instant
     \<lparr>job_id = ''j1'', job_domain = ''jira'', job_status = RUNNING, job_task = ''look'', job_session_id = ''s1'',
      job_context = Some [(''k'', JFloat 15 (-1))], job_constraints = None, job_consumer_id = ''c1'',
      job_principal_hash = None, job_correlation_id = ''cid'', job_created_at = 12, job_started_at = Some 13,
      job_finished_at = None, job_attempt = 1, job_max_attempts = 2,
      job_progress = \<lparr>pr_last_tool = None, pr_steps = 3\<rparr>, job_error = None\<rparr>) \<noteq> None"
proof -
  have "\<forall>t. read_decimal (JStr (decimal_instant t)) = Some t" using decimal.reads_back by simp
  from stored_documents_survive [OF this] show ?thesis unfolding survives_def by simp
qed

end
