(* ===== verification/Tracing.thy ===== *)
theory Tracing
  imports Approval
begin

text \<open>
  The correlation id on its way to the target system (\<^verbatim>\<open>downstream_headers\<close> of
  \<^verbatim>\<open>app/observability/correlation.py\<close>): which id the calls of a job and of an execution carry. The id is
  a context variable, so the logic here follows the context along a program.
\<close>

section \<open>Programs that keep an id bound\<close>

text \<open>
  \<open>within I Q R p x\<close>: started in the context \<open>x\<close>, in every environment, \<open>p\<close> issues only commands of \<open>Q\<close> and
  issues them in contexts of \<open>I\<close>, and ends in one, with a value of \<open>R\<close> if it returns.
\<close>

primrec within :: "(ctx \<Rightarrow> bool) \<Rightarrow> (cmd \<Rightarrow> bool) \<Rightarrow> ('a \<Rightarrow> bool) \<Rightarrow> 'a prog \<Rightarrow> ctx \<Rightarrow> bool" where
  "within I Q R (Ret a) x = (I x \<and> R a)"
| "within I Q R (Raise e) x = I x"
| "within I Q R (Op c k) x = (I x \<and> Q c \<and> (\<forall>r. within I Q R (k r) x))"
| "within I Q R (GetCtx k) x = within I Q R (k x) x"
| "within I Q R (SetCtx y p) x = within I Q R p y"

lemma within_bind:
  "within I Q R p x \<Longrightarrow> (\<And>a y. R a \<Longrightarrow> I y \<Longrightarrow> within I Q S (f a) y) \<Longrightarrow> within I Q S (bind p f) x"
  by (induction p arbitrary: x) auto

lemma within_catch:
  "within I Q R p x \<Longrightarrow> (\<And>e y. I y \<Longrightarrow> within I Q R (h e) y) \<Longrightarrow> within I Q R (catch p h) x"
  by (induction p arbitrary: x) auto

lemma within_interrupt: "within I Q R p x \<Longrightarrow> within I Q R (interrupt p n) x"
  by (induction p arbitrary: n x) auto

lemma within_trace: "within I Q R p x \<Longrightarrow> (c, r) \<in> set (trace_of W p s x) \<Longrightarrow> Q c"
proof (induction p arbitrary: x s)
  case (Op c' k)
  then show ?case using Op.IH [OF rangeI, of "snd (W s c')" x "fst (W s c')"] by auto
next
  case (GetCtx k)
  then show ?case using GetCtx.IH [OF rangeI, of x x s] by simp
qed auto

lemma within_safe: "safe Q E R p \<Longrightarrow> keeps_ctx p \<Longrightarrow> I x \<Longrightarrow> within I Q R p x"
  by (induction p) auto

abbreviation bound_id :: "string \<Rightarrow> ctx \<Rightarrow> bool" where
  "bound_id cid x \<equiv> cx_correlation_id x = Some cid"

fun carries :: "string \<Rightarrow> cmd \<Rightarrow> bool" where
  "carries cid (HttpSend q) = ((correlation_header, cid) \<in> set (hq_headers q))"
| "carries cid _ = True"

text \<open>A program that never loses the id and sends it with every request.\<close>

definition traced :: "string \<Rightarrow> ('a \<Rightarrow> bool) \<Rightarrow> 'a prog \<Rightarrow> bool" where
  "traced cid R p \<longleftrightarrow> (\<forall>x. bound_id cid x \<longrightarrow> within (bound_id cid) (carries cid) R p x)"

lemma traced_Raise [simp]: "traced cid R (Raise e)"
  by (simp add: traced_def)

lemma traced_Ret: "R a \<Longrightarrow> traced cid R (Ret a)"
  by (simp add: traced_def)

lemma traced_bind: "traced cid R p \<Longrightarrow> (\<And>a. R a \<Longrightarrow> traced cid S (f a)) \<Longrightarrow> traced cid S (bind p f)"
  unfolding traced_def by (blast intro: within_bind)

lemma traced_then: "traced cid (\<lambda>_. True) p \<Longrightarrow> (\<And>a. traced cid S (f a)) \<Longrightarrow> traced cid S (bind p f)"
  by (rule traced_bind)

lemma traced_catch: "traced cid R p \<Longrightarrow> (\<And>e. traced cid R (h e)) \<Longrightarrow> traced cid R (catch p h)"
  unfolding traced_def by (blast intro: within_catch)

lemma traced_interrupt: "traced cid R p \<Longrightarrow> traced cid R (interrupt p n)"
  unfolding traced_def by (blast intro: within_interrupt)

lemma traced_Op: "carries cid c \<Longrightarrow> (\<And>r. traced cid R (k r)) \<Longrightarrow> traced cid R (Op c k)"
  unfolding traced_def by simp

lemma traced_GetCtx: "(\<And>x. bound_id cid x \<Longrightarrow> within (bound_id cid) (carries cid) R (k x) x) \<Longrightarrow> traced cid R (GetCtx k)"
  unfolding traced_def by simp

lemma traced_modify_ctx: "(\<And>x. bound_id cid x \<Longrightarrow> bound_id cid (f x)) \<Longrightarrow> R () \<Longrightarrow> traced cid R (modify_ctx f)"
  by (simp add: traced_def modify_ctx_def)

lemma traced_quiet:
  "safe Q E R p \<Longrightarrow> keeps_ctx p \<Longrightarrow> (\<And>c. Q c \<Longrightarrow> \<not> is_http c) \<Longrightarrow> traced cid R p"
  unfolding traced_def
proof (intro allI impI)
  fix x
  assume "safe Q E R p" "\<And>c. Q c \<Longrightarrow> \<not> is_http c" and rest: "keeps_ctx p" "bound_id cid x"
  moreover have "\<not> is_http c \<Longrightarrow> carries cid c" for c by (cases c) auto
  ultimately have "safe (carries cid) (\<lambda>_. True) R p" by (auto elim!: safe_mono)
  then show "within (bound_id cid) (carries cid) R p x" using rest by (rule within_safe)
qed

lemma traced_trace:
  assumes "traced cid R p" "bound_id cid x" "(c, r) \<in> set (trace_of W p s x)"
  shows "carries cid c"
  using within_trace [of "bound_id cid" "carries cid" R p x c r W s] assms by (simp add: traced_def)

section \<open>The adapters\<close>

lemma traced_headers: "traced cid (\<lambda>h. (correlation_header, cid) \<in> set h) downstream_headers"
  by (simp add: traced_def downstream_headers_def current_correlation_id_def)

lemma traced_send:
  "(correlation_header, cid) \<in> set (hq_headers q) \<Longrightarrow> traced cid (\<lambda>_. True) (http_send q)"
  by (auto simp: http_send_def bad_reply_def intro!: traced_Op traced_Ret split: reply.split)

lemma traced_lift: "(\<And>a. r = Inr a \<Longrightarrow> R a) \<Longrightarrow> traced cid R (lift_result r)"
  by (cases r) (auto simp: lift_result_def intro: traced_Ret)

lemma traced_response:
  "traced cid (\<lambda>_. True) (raise_for_status r)" "traced cid (\<lambda>_. True) (response_json r)"
  by (auto simp: raise_for_status_def response_json_def intro!: traced_Ret split: option.split)

lemma traced_backoff:
  assumes "traced cid (\<lambda>_. True) send"
  shows "traced cid (\<lambda>_. True) (read_request_with_backoff send)"
proof -
  have "traced cid (\<lambda>_. True) (backoff_loop send base n k)" for base n k
  proof (induction k arbitrary: n)
    case (Suc k)
    then show ?case
      by (auto simp: emit_log_def async_sleep_def assms
          intro!: traced_then [OF assms] traced_then [OF traced_lift] traced_Op traced_Ret split: reply.split)
  qed (simp add: assms)
  then show ?thesis by (simp add: read_request_with_backoff_def)
qed

text \<open>What the rest of the service relies on: every call of an adapter carries the id that is bound.\<close>

locale correlating_adapter =
  fixes ad :: adapter
  assumes tools_traced: "t \<in> snd ` set (ad_read_tools ad cr) \<Longrightarrow> traced cid (\<lambda>_. True) (t q n)"
    and check_traced: "traced cid (\<lambda>_. True) (ad_check_preconditions ad a cr)"
    and execute_traced: "traced cid (\<lambda>_. True) (ad_execute ad a p cr)"

lemma traced_jira_headers: "traced cid (\<lambda>h. (correlation_header, cid) \<in> set h) (jira_headers cr)"
  unfolding jira_headers_def by (rule traced_bind [OF traced_headers]) (auto intro!: traced_Ret)

lemmas traced_read = traced_then [OF traced_backoff [OF traced_send]] traced_then [OF traced_response(1)]
  traced_then [OF traced_response(2)] traced_then [OF traced_send]

interpretation jira_id: correlating_adapter "jira_adapter base"
proof
  show "t \<in> snd ` set (ad_read_tools (jira_adapter base) cr) \<Longrightarrow> traced cid (\<lambda>_. True) (t q n)" for t cr q n cid
    by (auto simp: jira_adapter_def Let_def jira_read_tools_def search_issues_def get_issue_def
        get_issue_comments_def jira_request_def
        intro!: traced_bind [OF traced_jira_headers] traced_read traced_lift traced_Ret)
  show "traced cid (\<lambda>_. True) (ad_check_preconditions (jira_adapter base) a cr)" for a cr cid
    by (auto simp: jira_adapter_def Let_def jira_check_preconditions_def jira_request_def
        intro!: traced_bind [OF traced_jira_headers] traced_read traced_then [OF traced_lift] traced_Ret)
  show "traced cid (\<lambda>_. True) (ad_execute (jira_adapter base) a p cr)" for a p cr cid
    by (auto simp: jira_adapter_def Let_def jira_execute_def jira_request_def
        intro!: traced_bind [OF traced_jira_headers] traced_read traced_then [OF traced_lift] traced_Ret)
qed

interpretation websearch_id: correlating_adapter "websearch_adapter key base"
  by unfold_locales
    (auto simp: websearch_adapter_def Let_def websearch_read_tools_def web_search_def extract_page_def
      search_request_def intro!: traced_bind [OF traced_headers] traced_read traced_lift traced_Ret)

lemma built_adapter_correlates: "build_adapter cfg = Inr ad \<Longrightarrow> correlating_adapter ad"
  by (auto simp: build_adapter_def adapter_builders_def jira_id.correlating_adapter_axioms
      websearch_id.correlating_adapter_axioms split: if_splits)

section \<open>A job\<close>

lemma traced_cmds:
  "safe (store_cmd cfg P) E R p \<Longrightarrow> keeps_ctx p \<Longrightarrow> traced cid R p"
  "safe vault_cmd E R p \<Longrightarrow> keeps_ctx p \<Longrightarrow> traced cid R p"
  by (erule traced_quiet, assumption, auto elim: is_http.elims)+

lemma traced_store:
  "traced cid (\<lambda>_. True) (load_token cfg j)" "traced cid (\<lambda>_. True) (is_cancel_requested cfg j)"
  "traced cid (\<lambda>_. True) (set_progress cfg j lt n)" "traced cid (\<lambda>_. True) (save_proposal cfg p)"
  "traced cid (\<lambda>_. True) (save_result cfg j d)" "traced cid (\<lambda>_. True) (transition cfg j st a e)"
  "traced cid (\<lambda>_. True) (delete_proposal cfg i)" "traced cid (\<lambda>_. True) (put_idempotency cfg k rc)"
  by (auto simp: store_defs call_defs traced_Ret keeps_ctx_transition
      intro!: traced_then traced_Op traced_cmds(1) [OF safe_transition]
      split: reply.split option.split rval.split list.split)

lemma traced_calls:
  "traced cid (\<lambda>_. True) utcnow" "traced cid (\<lambda>_. True) perf_counter" "traced cid (\<lambda>_. True) uuid4"
  "traced cid (\<lambda>_. True) (log_event l e m f)" "traced cid (\<lambda>_. True) (emit_log l e m f)"
  "traced cid (\<lambda>_. True) (register_secret v)"
  by (auto simp: call_defs log_event_def register_secret_def when_do_def traced_Ret intro!: traced_Op
      split: reply.split option.split)

lemma traced_decrypt: "traced cid (\<lambda>_. True) (vault_decrypt cr v b)"
proof -
  have "keeps_ctx (vault_decrypt cr v b)"
    by (cases v) (auto simp: kv_decrypt_def local_decrypt_def call_defs some_or_raise_def Let_def
        intro!: keeps_ctx_bind keeps_ctx_catch split: reply.split option.split)
  then show ?thesis by (rule traced_cmds(2) [OF safe_vault_decrypt])
qed

lemmas traced_steps = traced_then traced_store traced_calls traced_decrypt traced_Ret traced_lift

lemma traced_call_tool:
  assumes "correlating_adapter ad" "map fst tools = ad_read_tools ad cr"
  shows "traced cid (\<lambda>_. True) (call_tool tools name arg limit)"
proof -
  have "traced cid (\<lambda>_. True) (tool arg limit)" if "map_of (map fst tools) name = Some tool" for tool
    using that assms(2) correlating_adapter.tools_traced [OF assms(1), of tool cr]
    by (force dest: map_of_SomeD)
  then show ?thesis
    by (auto simp: call_tool_def intro!: traced_catch traced_steps split: option.split)
qed

lemma traced_stream_loop:
  assumes "correlating_adapter (wk_adapter dp)" "map fst tools = ad_read_tools (wk_adapter dp) cr"
  shows "traced cid (\<lambda>_. True) (stream_loop n dp j tools run steps final)"
proof (induction n arbitrary: run steps final)
  case (Suc n)
  have "traced cid (\<lambda>_. True) (agent_step dp j state k)" for state k
    by (auto simp: agent_step_def when_do_def intro!: traced_steps)
  with Suc show ?case
    by (auto intro!: traced_steps traced_then [OF traced_call_tool [OF assms]] split: agent_run.split)
qed simp

lemma traced_persist_loop: "traced cid (\<lambda>_. True) (persist_loop dp record t cs acc)"
  by (induction cs arbitrary: acc) (auto simp: stage_proposal_def intro!: traced_steps split: sum.split)

lemma traced_attempt_failed: "traced cid (\<lambda>_. True) (attempt_failed dp j record n e)"
  by (auto simp: attempt_failed_def fail_job_def intro!: traced_steps split: exn.split)

context worker
begin

lemma traced_attempt_job:
  assumes "correlating_adapter (wk_adapter dp)"
  shows "traced cid (\<lambda>_. True) (attempt_job dp dl j record started)"
proof -
  have creds: "traced cid (\<lambda>_. True) (resolve_job_credentials dp record)"
    by (auto simp: resolve_job_credentials_def intro!: traced_steps split: option.split)
  have built: "traced cid (\<lambda>ag. \<exists>cr. map fst (ag_tools ag) = ad_read_tools (wk_adapter dp) cr)
      (lift_result (build_agent dp cr))" for cr
    by (rule traced_lift) (auto dest: built_tools)
  have stream: "traced cid (\<lambda>_. True) (stream_agent dp dl j ag record)"
    if "map fst (ag_tools ag) = ad_read_tools (wk_adapter dp) cr" for ag cr
    unfolding stream_agent_def
    by (intro traced_interrupt traced_then [OF traced_stream_loop [OF assms that]] traced_lift) simp
  have parse: "traced cid (\<lambda>_. True) (parse_agent_output answer)" for answer
    by (auto simp: parse_agent_output_def intro!: traced_steps split: option.split)
  have persist: "traced cid (\<lambda>_. True) (persist_proposals dp record out)" for out
    unfolding persist_proposals_def by (intro traced_then traced_calls traced_persist_loop)
  show ?thesis
    unfolding attempt_job_def
    by (rule traced_then [OF creds], rule traced_bind [OF built], elim exE, rule traced_then [OF stream])
      (assumption | intro traced_then [OF parse] traced_then [OF persist] traced_then traced_store traced_calls)+
qed

lemma traced_start_attempt:
  assumes "correlating_adapter (wk_adapter dp)"
  shows "traced cid (\<lambda>_. True) (start_attempt dp dl j n)"
  unfolding start_attempt_def
  by (intro traced_then traced_store traced_calls traced_catch traced_attempt_job [OF assms] traced_attempt_failed)

end

lemma trace_bound_context:
  "trace_of W (bound_context b p) s x = trace_of W p s (apply_bindings b x)"
  by (auto simp: bound_context_def finally_do_def run_simps modify_ctx_def split: sum.split)

lemma in_trace_bind:
  assumes "e \<in> set (trace_of W (bind p f) s x)"
  obtains "e \<in> set (trace_of W p s x)"
    | a s' x' where "runs W p s x a s' x'" "e \<in> set (trace_of W (f a) s' x')"
  using assms by (cases "result_of W p s x") (auto simp: run_simps runs_def)

lemma silent_trace:
  assumes "safe Q E R p" "(c, r) \<in> set (trace_of W p s x)" "\<And>c. Q c \<Longrightarrow> \<not> is_http c"
  shows "carries cid c"
  using assms(3) [OF safe_trace [OF assms(1,2)]] by (cases c) auto

text \<open>
  C15: the calls of a job carry the correlation id of its submission. Whatever the agent does and the
  environment answers, with each of the adapters that can be configured, every HTTP request an
  attempt of a job sends has the correlation id of the job record in its \<^verbatim>\<open>X-Correlation-Id\<close> header.
\<close>

theorem job_calls_carry_correlation_id:
  assumes "platform W look" "worker dp mut" "build_adapter cfg = Inr (wk_adapter dp)"
    and "well_typed (wk_settings dp) P (look s)"
    and "vw_job (view_of (wk_settings dp) (look s)) j = Some record"
  shows "list_all (\<lambda>(c, r). carries (job_correlation_id record) c) (trace_of W (run_research_job dp dl j n) s x)"
proof -
  let ?cid = "job_correlation_id record"
  have ad: "correlating_adapter (wk_adapter dp)" using assms(3) by (rule built_adapter_correlates)
  let ?rest = "if job_status record \<in> terminal_states then Ret ()
     else bind (is_cancel_requested (wk_settings dp) j) (\<lambda>cancelled.
       if cancelled then bind (transition (wk_settings dp) j CANCELLED None None) (\<lambda>_. Ret ())
       else start_attempt dp dl j n)"
  have rest: "traced ?cid (\<lambda>_. True) ?rest"
    by (auto intro!: traced_steps worker.traced_start_attempt [OF assms(2) ad])
  have "carries ?cid c" if "(c, r) \<in> set (trace_of W (run_research_job dp dl j n) s x)" for c r
    using that unfolding run_research_job_def
  proof (cases rule: in_trace_bind)
    case 1
    then show ?thesis by (rule silent_trace [OF safe_store_reads(1)]) (auto elim: is_http.elims)
  next
    case (2 a s' x')
    then have "a = Some record"
      using platform.run_get_job(1) [OF assms(1,4)] assms(5) by (simp add: runs_def)
    with 2 have "(c, r) \<in> set (trace_of W ?rest s' (apply_bindings (job_bindings j record) x'))"
      by (simp add: trace_bound_context)
    moreover have "bound_id ?cid (apply_bindings (job_bindings j record) x')"
      by (simp add: apply_bindings_def job_bindings_def override_def)
    ultimately show ?thesis by (intro traced_trace [OF rest])
  qed
  then show ?thesis by (auto simp: list_all_iff)
qed

section \<open>An execution\<close>

definition executed_under :: "stored_proposal \<Rightarrow> ctx \<Rightarrow> string option" where
  "executed_under p x =
     (if cx_from_header x then cx_correlation_id x else Some (pa_correlation_id (sp_action p)))"

lemma authorized_binds_id:
  "runs W (authorized_proposal dp a c t) s x p s' x' \<Longrightarrow> cx_correlation_id x' = executed_under p x"
  by (auto simp: authorized_proposal_def runs_def run_simps executed_under_def keeps_ctx_after keeps_ctx_store
      set_action_id_def set_job_id_def set_correlation_id_def modify_ctx_def when_do_def
      split: option.splits if_splits sum.splits)

lemma traced_set: "traced cid (\<lambda>_. True) current_correlation_id"
  by (auto simp: traced_def current_correlation_id_def)

lemma traced_precheck:
  "correlating_adapter ad \<Longrightarrow> traced cid (\<lambda>_. True) (precheck ad a cr)"
  by (auto simp: precheck_def traced_Ret intro!: traced_then traced_catch correlating_adapter.check_traced
      split: exn.split)

lemma traced_mutate: "correlating_adapter ad \<Longrightarrow> traced cid (\<lambda>_. True) (mutate ad i a p cr)"
  by (auto simp: mutate_def intro!: traced_catch traced_steps correlating_adapter.execute_traced split: exn.split)

lemma traced_record_outcome: "traced cid (\<lambda>_. True) (record_outcome dp body key rh st out)"
  by (auto simp: record_outcome_def Let_def intro!: traced_steps traced_then [OF traced_set])

lemma fresh_trace:
  assumes "correlating_adapter (dp_adapter dp)"
    and "\<And>p s' x'. runs W (authorized_proposal dp (er_action_id body) c t) s x p s' x' \<Longrightarrow> executed_under p x = Some cid"
    and "(cmd, r) \<in> set (trace_of W (execute_fresh dp body c t key rh) s x)"
  shows "carries cid cmd"
  using assms(3) unfolding execute_fresh_def Let_def
proof (cases rule: in_trace_bind)
  case 1
  then show ?thesis by (rule silent_trace [OF safe_authorized_proposal]) (auto elim: is_http.elims)
next
  case (2 p s' x')
  note trace = 2(2)
  have "bound_id cid x'" using authorized_binds_id [OF 2(1)] assms(2) [OF 2(1)] by simp
  then show ?thesis
    by (rule traced_trace [OF _ _ trace, rotated])
      (auto intro!: traced_steps traced_then [OF traced_precheck] traced_then [OF traced_mutate]
        traced_record_outcome assms(1))
qed

lemma silent_replay: "safe (\<lambda>c. \<not> is_http c) (\<lambda>_. True) (\<lambda>_. True) (replay body rh existing)"
  by (auto simp: replay_def log_event_def emit_log_def intro!: safe_bind safe_current_correlation_id)

text \<open>Until the proposal is authorized nothing is sent, and a replay sends nothing.\<close>

lemma execute_action_trace:
  assumes "platform W look" "(c, r) \<in> set (trace_of W (execute_action dp body consumer t key) s x)"
  obtains "\<And>cid. carries cid c"
  | s' where "look s' = look s"
      "(c, r) \<in> set (trace_of W (execute_fresh dp body consumer t key
         (request_hash (er_action_id body) (er_approved_payload body))) s' (x\<lparr>cx_action_id := Some (er_action_id body)\<rparr>))"
proof -
  let ?rh = "request_hash (er_action_id body) (er_approved_payload body)"
  let ?x = "x\<lparr>cx_action_id := Some (er_action_id body)\<rparr>"
  let ?found = "\<lambda>found. case found of Some existing \<Rightarrow> replay body ?rh existing
    | None \<Rightarrow> execute_fresh dp body consumer t key ?rh"
  from assms(2) have "(c, r) \<in> set (trace_of W (bind (log_event INFO ''execute_requested'' [] [(''action_id'', er_action_id body)])
      (\<lambda>_. bind (get_idempotency (dp_settings dp) key) ?found)) s ?x)"
    by (simp add: execute_action_def set_action_id_def modify_ctx_def Let_def)
  then show ?thesis
  proof (cases rule: in_trace_bind)
    case 1
    then show ?thesis by (intro that(1)) (auto simp: log_event_def emit_log_def call_defs split: reply.splits)
  next
    case (2 u s1 x1)
    then have x1: "x1 = ?x" and look1: "look s1 = look s"
      using platform.run_log_event [OF assms(1)] by (auto simp: runs_def)
    from 2(2) show ?thesis
    proof (cases rule: in_trace_bind)
      case 1
      then show ?thesis by (intro that(1) silent_trace [OF safe_store_reads(5)]) (auto elim: is_http.elims)
    next
      case (2 found s2 x2)
      then have "x2 = ?x" "look s2 = look s"
        by (auto simp: runs_def x1 look1 keeps_ctx_after keeps_ctx_store platform.run_get_idempotency(2) [OF assms(1)])
      with 2(2) show ?thesis
        by (cases found) (auto intro: that silent_trace [OF silent_replay])
    qed
  qed
qed

text \<open>
  C16: the calls of an execution carry the id of the research. Unless the request brought a correlation id
  of its own, every HTTP request an execution sends has the correlation id that was recorded in the
  approved proposal in its header; otherwise it has the caller's.
\<close>

theorem execution_calls_carry_correlation_id:
  assumes "execution W look ad mut dp" "build_adapter cfg = Inr ad" "well_typed (dp_settings dp) P (look s)"
    and "vw_proposal (view_of (dp_settings dp) (look s)) (er_action_id body) = Some p"
    and "executed_under p x = Some cid"
  shows "list_all (\<lambda>(c, r). carries cid c) (trace_of W (execute_action dp body consumer t key) s x)"
proof -
  note plat = execution.axioms(1) [OF assms(1)]
  have ad: "correlating_adapter (dp_adapter dp)"
    using built_adapter_correlates [OF assms(2)] execution.dp_ad [OF assms(1)] by simp
  have "carries cid c" if sent: "(c, r) \<in> set (trace_of W (execute_action dp body consumer t key) s x)" for c r
    using plat sent
  proof (cases rule: execute_action_trace)
    case (2 s2)
    show ?thesis
    proof (rule fresh_trace [OF ad _ 2(2)])
      fix q s' x'
      assume "runs W (authorized_proposal dp (er_action_id body) consumer t) s2
        (x\<lparr>cx_action_id := Some (er_action_id body)\<rparr>) q s' x'"
      then have "q = p"
        using execution.runs_authorized_proposal [OF assms(1) assms(3) [folded 2(1)]] assms(4) by (simp add: 2(1))
      then show "executed_under q (x\<lparr>cx_action_id := Some (er_action_id body)\<rparr>) = Some cid"
        using assms(5) by (simp add: executed_under_def split: if_splits)
    qed
  qed
  then show ?thesis by (auto simp: list_all_iff)
qed

text \<open>The default settings choose the Jira adapter.\<close>

lemma built_jira:
  "build_adapter (default_settings\<lparr>cf_jira_base_url := ''https://jira''\<rparr>) = Inr (jira_adapter ''https://jira'')"
  by (simp add: build_adapter_def adapter_builders_def default_settings_def)

text \<open>The agent of the first run calls two tools; the second sends its mutation.\<close>

definition calling_harness :: harness where
  "calling_harness = demo_harness\<lparr>hn_deep := (\<lambda>mdl tools instr subs. Inr (\<lambda>task.
     RunCalls ''search_issues'' ''project = ACME'' (Some 5) (\<lambda>_. RunCalls ''get_issue'' ''ACME-1'' None (\<lambda>_. RunEnds))))\<rparr>"

definition calling_worker :: worker_deps where
  "calling_worker = demo_worker\<lparr>wk_factory := deep_agent_factory calling_harness\<rparr>"

lemma calling_worker: "worker calling_worker jira_mutates"
  by (rule worker.intro)
    (simp_all add: calling_worker_def demo_worker_def deep.agent_builder_axioms jira.domain_adapter_axioms)

theorem job_calls_carry_correlation_id_witness:
  "list_all (\<lambda>(c, r). carries (job_correlation_id demo_job) c)
     (trace_of mem_world (run_research_job calling_worker \<lparr>dl_events = 9, dl_calls = 99\<rparr> ''j1'' 1) demo_store empty_ctx)"
  by (rule job_calls_carry_correlation_id [where P = "executable_proposal (wk_adapter demo_worker)",
        OF platform_mem calling_worker])
    (use built_jira demo_store_job demo_store_typed in \<open>simp_all add: calling_worker_def\<close>)

theorem execution_calls_carry_correlation_id_witness:
  "list_all (\<lambda>(c, r). carries ''cid'' c)
     (trace_of mem_world (execute_action demo_deps demo_request ''c1'' (Some ''my-pat'') ''key-1'') proposal_store empty_ctx)"
  by (rule execution_calls_carry_correlation_id [OF demo_exec.execution_axioms built_jira proposal_store_typed',
        where p = demo_proposal])
    (simp_all add: executed_under_def view_of_def proposal_store_def demo_proposal_def demo_action_def empty_ctx_def)

end
