(* ===== verification/Scaffold.thy ===== *)
theory Scaffold
  imports Agent_Factory Adapter_Registry
begin

text \<open>
  \<^verbatim>\<open>scripts/new_domain.py\<close>: the scaffold of a new domain. It writes an adapter and a unit-test stub from
  templates and registers the domain in two files by inserting text before markers. The files are a
  map from paths to texts that is passed along; what is printed is the text of the result.
\<close>

section \<open>Templates\<close>

definition adapter_template :: "string list" where
  \<open>adapter_template =
    [''"""{title} DomainAdapter.'',
     [],
     ''CUSTOMIZATION POINT: domain-owned file, scaffolded from TEMPLATE_VERSION.'',
     ''Reference implementations: app/adapters/jira.py (USER_PAT),'',
     ''app/adapters/websearch.py (SERVICE_CREDENTIAL, research-only).'',
     ''"""'',
     [],
     ''from __future__ import annotations'',
     [],
     ''from typing import Any, Callable, ClassVar, Mapping'',
     [],
     ''import httpx'',
     ''from pydantic import BaseModel, Field'',
     [],
     ''from app.adapters.base import ('',
     ''    AuthMode,'',
     ''    DomainAdapter,'',
     ''    DownstreamCredentials,'',
     ''    ExecutionResult,'',
     ''    PreconditionResult,'',
     ''    read_request_with_backoff,'',
     '')'',
     ''from app.models.schemas import ProposedAction'',
     ''from app.observability.correlation import downstream_headers'',
     [],
     [],
     ''# TODO: one Pydantic schema per mutation this domain supports.'',
     ''class ExamplePayload(BaseModel):'',
     ''    target_id: str = Field(min_length=1)'',
     [],
     [],
     ''class {class_name}(DomainAdapter):'',
     ''    name: ClassVar[str] = "{name}"'',
     ''    # TODO: declare the real auth mode '' @ em_dash @ '' USER_PAT (acts as the end user),'',
     ''    # SERVICE_CREDENTIAL (service-owned key), or NONE (open sources).'',
     ''    auth_mode: ClassVar[AuthMode] = AuthMode.NONE'',
     ''    log_content_allowlist: ClassVar[frozenset[str]] = frozenset()'',
     [],
     ''    def __init__('',
     ''        self,'',
     ''        base_url: str,'',
     ''        http_client_factory: Callable[[DownstreamCredentials], httpx.AsyncClient] | None = None,'',
     ''    ) -> None:'',
     ''        self._base_url = base_url.rstrip("/")'',
     ''        self._http_client_factory = http_client_factory or self._default_client'',
     [],
     ''    def _default_client(self, credentials: DownstreamCredentials) -> httpx.AsyncClient:'',
     ''        headers = dict(downstream_headers())'',
     ''        if self.auth_mode is AuthMode.USER_PAT:'',
     ''            headers["Authorization"] = f"Bearer {{credentials.user_token}}"'',
     ''        return httpx.AsyncClient(base_url=self._base_url, headers=headers, timeout=15.0)'',
     [],
     ''    def read_tools(self, credentials: DownstreamCredentials) -> list[Callable[..., Any]]:'',
     ''        factory = self._http_client_factory'',
     [],
     ''        async def search(query: str, max_results: int = 20) -> str:'',
     ''            """TODO: describe this read-only tool for the agent."""'',
     ''            # DOMAIN-SPECIFIC: implement the read call'',
     ''            async with factory(credentials) as client:'',
     ''                response = await read_request_with_backoff('',
     ''                    lambda: client.get("/search", params={{"q": query}})'',
     ''                )'',
     ''                response.raise_for_status()'',
     ''                return response.text'',
     [],
     ''        return [search]'',
     [],
     ''    def research_instructions(self) -> str:'',
     ''        return "TODO: domain-specific research guidance."'',
     [],
     ''    def action_schemas(self) -> Mapping[str, type[BaseModel]]:'',
     ''        # Empty mapping = research-only domain (no /execute path).'',
     ''        return {{"example_action": ExamplePayload}}'',
     [],
     ''    async def check_preconditions('',
     ''        self, action: ProposedAction, credentials: DownstreamCredentials'',
     ''    ) -> PreconditionResult:'',
     ''        # DOMAIN-SPECIFIC: fetch live target state, compare to'',
     ''        # action.preconditions; return ok=False with details on drift.'',
     ''        return PreconditionResult(ok=True)'',
     [],
     ''    async def execute('',
     ''        self,'',
     ''        action: ProposedAction,'',
     ''        approved_payload: dict[str, Any],'',
     ''        credentials: DownstreamCredentials,'',
     ''    ) -> ExecutionResult:'',
     ''        validated = self.validate_payload(action.action_type, approved_payload)'',
     ''        # DOMAIN-SPECIFIC: perform the single approved mutation.'',
     ''        raise NotImplementedError("implement the mutation call")'']\<close>

definition unit_test_template :: "string list" where
  \<open>unit_test_template =
    [''from __future__ import annotations'',
     [],
     ''import pytest'',
     [],
     ''from app.adapters.{name} import {class_name}'',
     [],
     [],
     ''@pytest.fixture'',
     ''def adapter() -> {class_name}:'',
     ''    # TODO: wire an httpx.MockTransport like tests/unit/test_jira_adapter.py'',
     ''    return {class_name}(base_url="https://{name}.local")'',
     [],
     [],
     ''def test_auth_mode_is_declared(adapter):'',
     ''    assert adapter.name == "{name}"'',
     ''    assert adapter.auth_mode is not None'',
     [],
     [],
     ''# TODO: schema validation, editable fields, precondition drift, executors.'']\<close>

definition builder_snippet :: "string list" where
  \<open>builder_snippet =
    [''def _build_{name}(settings: "Settings") -> DomainAdapter:'',
     ''    from app.adapters.{name} import {class_name}'',
     [],
     ''    return {class_name}(base_url=settings.{name}_base_url)'',
     [],
     []]\<close>

definition case_snippet :: "string list" where
  \<open>case_snippet =
    [''def _{name}_case() -> ContractCase:'',
     ''    # TODO: build the adapter fully offline (httpx.MockTransport), give it a'',
     ''    # canned agent output, and (for USER_PAT) a fake user token. See'',
     ''    # _jira_case for the pattern. The contract suite must pass UNCHANGED.'',
     ''    def build() -> DomainAdapter:'',
     ''        from app.adapters.{name} import {class_name}'',
     [],
     ''        return {class_name}(base_url="https://{name}.local")'',
     [],
     ''    return ContractCase('',
     ''        name="{name}",'',
     ''        user_token=None,  # set for USER_PAT domains'',
     ''        agent_output={{"summary": "TODO", "sources": [], "details": {{}},'',
     ''                      "proposed_actions": []}},'',
     ''        build=build,'',
     ''        has_actions=False,'',
     ''    )'',
     [],
     []]\<close>

section \<open>Names\<close>

definition is_lower_letter :: "char \<Rightarrow> bool" where
  "is_lower_letter c \<longleftrightarrow> (of_char c :: nat) \<in> {97..122}"

definition is_letter :: "char \<Rightarrow> bool" where
  "is_letter c \<longleftrightarrow> is_lower_letter c \<or> (of_char c :: nat) \<in> {65..90}"

definition upper_char :: "char \<Rightarrow> char" where
  "upper_char c = (if is_lower_letter c then char_of ((of_char c :: nat) - 32) else c)"

text \<open>\<open>re.fullmatch(r"[a-z][a-z0-9_]+", name)\<close>\<close>

definition valid_domain :: "string \<Rightarrow> bool" where
  "valid_domain name \<longleftrightarrow>
     (case name of
        c # d # rest \<Rightarrow> is_lower_letter c \<and>
          list_all (\<lambda>e. is_lower_letter e \<or> is_digit e \<or> e = CHR ''_'') (d # rest)
      | _ \<Rightarrow> False)"

text \<open>\<open>str.title\<close> on ASCII texts: a letter after a letter is lower case, any other upper case.\<close>

fun title_from :: "bool \<Rightarrow> string \<Rightarrow> string" where
  "title_from inside [] = []"
| "title_from inside (c # s) =
     (if is_letter c then (if inside then lower_char c else upper_char c) else c) # title_from (is_letter c) s"

definition title :: "string \<Rightarrow> string" where
  "title s = title_from False s"

definition class_name :: "string \<Rightarrow> string" where
  "class_name name = filter (\<lambda>c. c \<noteq> CHR ''_'') (title name) @ ''Adapter''"

section \<open>Files and texts\<close>

type_synonym files = "string \<rightharpoonup> string"

text \<open>\<open>s.replace(old, new, 1)\<close>\<close>

fun replace_first :: "string \<Rightarrow> string \<Rightarrow> string \<Rightarrow> string" where
  "replace_first old new [] = (if old = [] then new else [])"
| "replace_first old new (c # s) =
     (if prefix old (c # s) then new @ drop (length old) (c # s) else c # replace_first old new s)"

definition adapter_path :: "string \<Rightarrow> string \<Rightarrow> string" where
  "adapter_path repo name = repo @ ''/app/adapters/'' @ name @ ''.py''"

definition test_path :: "string \<Rightarrow> string \<Rightarrow> string" where
  "test_path repo name = repo @ ''/tests/unit/test_'' @ name @ ''_adapter.py''"

definition registry_path :: "string \<Rightarrow> string" where
  "registry_path repo = repo @ ''/app/adapters/__init__.py''"

definition cases_path :: "string \<Rightarrow> string" where
  "cases_path repo = repo @ ''/tests/contract/cases.py''"

definition fields_of :: "string \<Rightarrow> (string \<times> string) list" where
  "fields_of name = [(''name'', name), (''class_name'', class_name name), (''title'', title name)]"

definition filled :: "string list \<Rightarrow> string \<Rightarrow> exn + string" where
  "filled template name = py_format (fields_of name) (concat (map (\<lambda>l. l @ newline) template))"

section \<open>Registration\<close>

definition builders_mark :: string where
  "builders_mark = ''ADAPTER_BUILDERS: dict''"

definition register_mark :: string where
  "register_mark = ''    # scaffold:register''"

definition cases_mark :: string where
  "cases_mark = ''CASES: list''"

definition case_mark :: string where
  "case_mark = ''    # scaffold:contract-case''"

definition builder_entry :: "string \<Rightarrow> string" where
  \<open>builder_entry name = ''    "'' @ name @ ''": _build_'' @ name @ '','' @ newline\<close>

definition case_entry :: "string \<Rightarrow> string" where
  "case_entry name = ''    _'' @ name @ ''_case,'' @ newline"

text \<open>The first replacement of the registry, of a marker by itself, changes nothing.\<close>

definition registered :: "string \<Rightarrow> string \<Rightarrow> exn + string" where
  "registered name text =
     sbind (filled builder_snippet name) (\<lambda>b.
     Inr (replace_first register_mark (builder_entry name @ register_mark)
           (replace_first builders_mark (b @ builders_mark)
             (replace_first ''ADAPTER_BUILDERS:'' ''ADAPTER_BUILDERS:'' text))))"

definition with_case :: "string \<Rightarrow> string \<Rightarrow> exn + string" where
  "with_case name text =
     sbind (filled case_snippet name) (\<lambda>b.
     Inr (replace_first case_mark (case_entry name @ case_mark)
           (replace_first cases_mark (b @ cases_mark) text)))"

text \<open>\<open>path.write_text(f(path.read_text()))\<close>\<close>

definition edit_file :: "string \<Rightarrow> (string \<Rightarrow> exn + string) \<Rightarrow> files \<Rightarrow> exn + files" where
  "edit_file path f fs =
     (case fs path of
        None \<Rightarrow> Inl (OtherError ''FileNotFoundError'')
      | Some text \<Rightarrow> sbind (f text) (\<lambda>text'. Inr (fs(path \<mapsto> text'))))"

section \<open>The script\<close>

definition summary :: "string \<Rightarrow> string list" where
  \<open>summary name =
    [''scaffolded domain '' @ [single_quote] @ name @ [single_quote] @ '':'',
     ''  created   app/adapters/'' @ name @ ''.py'',
     ''  created   tests/unit/test_'' @ name @ ''_adapter.py'',
     ''  updated   app/adapters/__init__.py   (builder registered)'',
     ''  updated   tests/contract/cases.py    (contract case stub)'',
     [],
     ''next steps:'',
     ''  1. Add config to app/config.py DOMAIN-SPECIFIC block + .env.example:'',
     ''         '' @ name @ ''_base_url: str = ""'',
     ''  2. Pick the auth_mode in '' @ name @ ''.py and implement tools/executors.'',
     ''  3. Flesh out the contract case (offline transports, canned agent output).'',
     ''  4. Run `make test` '' @ em_dash @ '' the contract suite must pass UNCHANGED.'',
     ''  5. Work through the Definition of Done in CONTRIBUTING.md.'']\<close>

text \<open>The exit code with the printed text, or the exception, and the files.\<close>

definition scaffold :: "string \<Rightarrow> string \<Rightarrow> files \<Rightarrow> (exn + int \<times> string) \<times> files" where
  "scaffold repo name fs =
     (if fs (adapter_path repo name) \<noteq> None
      then (Inr (1, ''refusing to overwrite existing '' @ adapter_path repo name), fs)
      else
        (case filled adapter_template name of
           Inl e \<Rightarrow> (Inl e, fs)
         | Inr text \<Rightarrow>
             (let fs = fs(adapter_path repo name \<mapsto> text) in
              case filled unit_test_template name of
                Inl e \<Rightarrow> (Inl e, fs)
              | Inr test \<Rightarrow>
                  (let fs = fs(test_path repo name \<mapsto> test) in
                   case edit_file (registry_path repo) (registered name) fs of
                     Inl e \<Rightarrow> (Inl e, fs)
                   | Inr fs \<Rightarrow>
                       (case edit_file (cases_path repo) (with_case name) fs of
                          Inl e \<Rightarrow> (Inl e, fs)
                        | Inr fs \<Rightarrow> (Inr (0, concat (map (\<lambda>l. l @ newline) (summary name))), fs))))))"

definition new_domain :: "string \<Rightarrow> string list \<Rightarrow> files \<Rightarrow> (exn + int \<times> string) \<times> files" where
  "new_domain repo args fs =
     (case args of
        [arg] \<Rightarrow>
          (let name = lower arg in
           if \<not> valid_domain name
           then (Inr (2, ''invalid domain name: '' @ repr_str name @ '' (want lowercase identifier)''), fs)
           else scaffold repo name fs)
      | _ \<Rightarrow> (Inr (2, ''usage: python scripts/new_domain.py <name>   (e.g. confluence)''), fs))"

section \<open>Facts\<close>

lemma replace_first_same [simp]: "old \<noteq> [] \<Longrightarrow> replace_first old old s = s"
proof (induction s)
  case (Cons c s)
  then show ?case by (auto simp: prefix_def simp del: append_Cons dest: sym)
qed simp

text \<open>Where a text is split at its first marker, that is where the replacement goes.\<close>

definition first_at :: "string \<Rightarrow> string \<Rightarrow> bool" where
  "first_at mark before \<longleftrightarrow> mark \<noteq> [] \<and> \<not> sublist mark (before @ butlast mark)"

lemma replace_first_at:
  "first_at mark pre \<Longrightarrow> replace_first mark new (pre @ mark @ post) = pre @ new @ post"
proof (induction pre)
  case Nil
  then obtain c m where m: "mark = c # m" by (cases mark) (auto simp: first_at_def)
  have "prefix (c # m) (c # m @ post)" by (simp add: prefix_def)
  then show ?case by (simp add: m)
next
  case (Cons c pre)
  have "\<not> prefix mark (c # pre @ mark @ post)"
  proof
    assume "prefix mark (c # pre @ mark @ post)"
    moreover have ne: "mark \<noteq> []" using Cons.prems unfolding first_at_def by blast
    then have "c # pre @ mark @ post = ((c # pre) @ butlast mark) @ [last mark] @ post"
      by (metis append_Cons append_assoc append_butlast_last_id)
    then have "prefix ((c # pre) @ butlast mark) (c # pre @ mark @ post)" by (metis prefixI)
    moreover have "length mark \<le> length ((c # pre) @ butlast mark)" by simp
    ultimately have "prefix mark ((c # pre) @ butlast mark)" by (rule prefix_length_prefix)
    then show False using Cons.prems by (auto simp: first_at_def dest: prefix_imp_sublist)
  qed
  moreover have "first_at mark pre"
    using Cons.prems by (auto simp: first_at_def sublist_Cons_right)
  ultimately show ?case using Cons.IH by simp
qed

lemma templates_format:
  "list_all (\<lambda>l. \<not> isl (py_format [(''name'', []), (''class_name'', []), (''title'', [])] l)) adapter_template"
  "list_all (\<lambda>l. \<not> isl (py_format [(''name'', []), (''class_name'', []), (''title'', [])] l)) unit_test_template"
  "list_all (\<lambda>l. \<not> isl (py_format [(''name'', []), (''class_name'', []), (''title'', [])] l)) builder_snippet"
  "list_all (\<lambda>l. \<not> isl (py_format [(''name'', []), (''class_name'', []), (''title'', [])] l)) case_snippet"
  by code_simp+

lemma filled_defined:
  assumes "list_all (\<lambda>l. \<not> isl (py_format [(''name'', []), (''class_name'', []), (''title'', [])] l)) template"
  shows "\<exists>t. filled template name = Inr t"
proof -
  have "\<exists>w. py_format (fields_of name) l = Inr w" if "l \<in> set template" for l
  proof -
    have "isl (py_format (fields_of name) l) = isl (py_format [(''name'', []), (''class_name'', []), (''title'', [])] l)"
      by (rule py_format_defined) (simp add: fields_of_def)
    with assms that have "\<not> isl (py_format (fields_of name) l)" by (simp add: list_all_iff)
    then show ?thesis by (cases "py_format (fields_of name) l") auto
  qed
  then show ?thesis unfolding filled_def using py_format_lines by blast
qed

lemmas every_template = templates_format [THEN filled_defined]

lemma scaffold_paths:
  assumes "valid_domain name"
  shows "adapter_path repo name \<noteq> registry_path repo" "test_path repo name \<noteq> cases_path repo"
    "adapter_path repo name \<noteq> cases_path repo" "test_path repo name \<noteq> registry_path repo"
    "registry_path repo \<noteq> cases_path repo" "adapter_path repo name \<noteq> test_path repo name"
  using assms
  by (auto simp: adapter_path_def registry_path_def test_path_def cases_path_def valid_domain_def
      is_lower_letter_def split: list.splits)

lemma marks_nonempty [simp]:
  "builders_mark \<noteq> []" "register_mark \<noteq> []" "cases_mark \<noteq> []" "case_mark \<noteq> []"
  by (simp_all add: builders_mark_def register_mark_def cases_mark_def case_mark_def)

section \<open>Properties\<close>

text \<open>
  C40: the scaffold of a new domain. For a valid name whose adapter does not exist yet, and two files that
  carry their markers, the script ends with exit code 0 and changes four files: the adapter and the
  test stub are the filled templates (filling never fails), the builder and the case are inserted
  before their markers, in front of which one entry line is added, and nothing else in the two files
  changes, so the markers are there for the next domain. An existing adapter, or a name that is no
  lower-case identifier, is refused and no file is touched.
\<close>

theorem scaffold_effect:
  assumes "name = lower arg"
    and "fs (registry_path repo) = Some (pre @ builders_mark @ mid @ register_mark @ post)"
    and "fs (cases_path repo) = Some (pre' @ cases_mark @ mid' @ case_mark @ post')"
    and "filled builder_snippet name = Inr b" "filled case_snippet name = Inr c"
    and "first_at builders_mark pre" "first_at register_mark (pre @ b @ builders_mark @ mid)"
    and "first_at cases_mark pre'" "first_at case_mark (pre' @ c @ cases_mark @ mid')"
  shows "if valid_domain name \<and> fs (adapter_path repo name) = None
    then \<exists>t u msg. filled adapter_template name = Inr t \<and> filled unit_test_template name = Inr u \<and>
      new_domain repo [arg] fs = (Inr (0, msg),
        fs(adapter_path repo name \<mapsto> t, test_path repo name \<mapsto> u,
           registry_path repo \<mapsto> pre @ b @ builders_mark @ mid @ builder_entry name @ register_mark @ post,
           cases_path repo \<mapsto> pre' @ c @ cases_mark @ mid' @ case_entry name @ case_mark @ post'))
    else \<exists>code msg. new_domain repo [arg] fs = (Inr (code, msg), fs) \<and> code \<in> {1, 2}"
proof (cases "valid_domain name \<and> fs (adapter_path repo name) = None")
  case True
  obtain t u where tu: "filled adapter_template name = Inr t" "filled unit_test_template name = Inr u"
    using every_template(1,2) by blast
  note paths = scaffold_paths [OF conjunct1 [OF True], of repo]
  have reg: "registered name (pre @ builders_mark @ mid @ register_mark @ post) =
      Inr (pre @ b @ builders_mark @ mid @ builder_entry name @ register_mark @ post)"
    using replace_first_at [OF assms(6), of "b @ builders_mark" "mid @ register_mark @ post"]
      replace_first_at [OF assms(7), of "builder_entry name @ register_mark" post]
    by (simp add: registered_def sbind_def assms(4))
  have cas: "with_case name (pre' @ cases_mark @ mid' @ case_mark @ post') =
      Inr (pre' @ c @ cases_mark @ mid' @ case_entry name @ case_mark @ post')"
    using replace_first_at [OF assms(8), of "c @ cases_mark" "mid' @ case_mark @ post'"]
      replace_first_at [OF assms(9), of "case_entry name @ case_mark" post']
    by (simp add: with_case_def sbind_def assms(5))
  show ?thesis
    using True paths
    by (simp add: new_domain_def assms(1) [symmetric] scaffold_def tu Let_def edit_file_def assms(2,3) reg cas sbind_def)
next
  case False
  then show ?thesis
    by (auto simp: new_domain_def assms(1) [symmetric] scaffold_def Let_def)
qed

definition demo_files :: files where
  "demo_files =
     [registry_path [] \<mapsto> [] @ builders_mark @ newline @ register_mark @ newline,
      cases_path [] \<mapsto> [] @ cases_mark @ newline @ case_mark @ newline]"

theorem scaffold_effect_witness:
  "\<exists>msg fs. new_domain [] [''Wiki''] demo_files = (Inr (0, msg), fs) \<and>
     filled adapter_template ''wiki'' = Inr (the (fs ''/app/adapters/wiki.py''))"
proof -
  have name: "''wiki'' = lower ''Wiki''" by code_simp
  have files: "demo_files (registry_path []) = Some ([] @ builders_mark @ newline @ register_mark @ newline)"
    "demo_files (cases_path []) = Some ([] @ cases_mark @ newline @ case_mark @ newline)"
    by (simp_all add: demo_files_def registry_path_def cases_path_def)
  define b where "b = projr (filled builder_snippet ''wiki'')"
  define c where "c = projr (filled case_snippet ''wiki'')"
  have bc: "filled builder_snippet ''wiki'' = Inr b" "filled case_snippet ''wiki'' = Inr c"
    unfolding b_def c_def using every_template(3,4) [of "''wiki''"] by auto
  have "first_at builders_mark []" "first_at cases_mark []"
    "first_at register_mark ([] @ b @ builders_mark @ newline)"
    "first_at case_mark ([] @ c @ cases_mark @ newline)"
    unfolding b_def c_def by code_simp+
  note effect = scaffold_effect [OF name files bc this(1,3,2,4)]
  have "valid_domain ''wiki'' \<and> demo_files (adapter_path [] ''wiki'') = None" by code_simp
  from effect [unfolded if_P [OF this]] show ?thesis
    by (auto simp: adapter_path_def test_path_def registry_path_def cases_path_def)
qed

end
