(* ===== verification/Isolation.thy ===== *)
theory Isolation
  imports Request_Path
begin

text \<open>
  What a request can do to the data of others. The authorization of the service is spread over its
  handlers; here it becomes one statement about \<^verbatim>\<open>serve\<close>, for every route.
\<close>

section \<open>Who is calling\<close>

text \<open>The consumer and the user a request speaks for, as the two dependencies find them.\<close>

definition caller_of :: "deps \<Rightarrow> headers \<Rightarrow> (string \<times> string option) option" where
  "caller_of dp hs =
     (case request_header ''X-Api-Key'' hs of
        None \<Rightarrow> None
      | Some key \<Rightarrow>
          if key = [] then None
          else
            (case verify_api_key key (cf_api_keys (dp_settings dp)) of
               None \<Rightarrow> None
             | Some c \<Rightarrow>
                 if ad_auth_mode (dp_adapter dp) \<noteq> USER_PAT then Some (c, None)
                 else
                   (case request_header ''X-User-Token'' hs of
                      None \<Rightarrow> None
                    | Some t \<Rightarrow> if t = [] then None else Some (c, Some t))))"

definition owns_job :: "deps \<Rightarrow> (string \<times> string option) option \<Rightarrow> job_record \<Rightarrow> bool" where
  "owns_job dp who r = (case who of None \<Rightarrow> False | Some (c, t) \<Rightarrow> permitted dp r c t)"

definition owns_action :: "deps \<Rightarrow> (string \<times> string option) option \<Rightarrow> stored_proposal \<Rightarrow> bool" where
  "owns_action dp who p = (case who of None \<Rightarrow> False | Some (c, t) \<Rightarrow> permitted_action dp p c t)"

definition others_untouched :: "deps \<Rightarrow> (string \<times> string option) option \<Rightarrow> view \<Rightarrow> view \<Rightarrow> bool" where
  "others_untouched dp who v v' \<longleftrightarrow>
     (\<forall>j r. vw_job v j = Some r \<and> \<not> owns_job dp who r \<longrightarrow>
        vw_job v' j = Some r \<and> vw_token v' j = vw_token v j \<and> vw_cancel v' j = vw_cancel v j) \<and>
     (\<forall>a p. vw_proposal v a = Some p \<and> \<not> owns_action dp who p \<longrightarrow> vw_proposal v' a = Some p) \<and>
     (\<forall>k i. vw_idem v k = Some i \<longrightarrow> vw_idem v' k = Some i) \<and>
     vw_result v' = vw_result v"

lemma others_untouched_refl [simp]: "others_untouched dp who v v"
  by (simp add: others_untouched_def)

text \<open>The ids that \<^verbatim>\<open>uuid4\<close> gives while the store is as it is are not those of its jobs.\<close>

definition fresh_ids :: "('s \<Rightarrow> cmd \<Rightarrow> 's \<times> reply) \<Rightarrow> ('s \<Rightarrow> key_space) \<Rightarrow> settings \<Rightarrow> 's \<Rightarrow> bool" where
  "fresh_ids W look cfg s \<longleftrightarrow>
     (\<forall>s' u. look s' = look s \<longrightarrow> snd (W s' NewUuid) = RStr u \<longrightarrow> look s (key_of cfg ''job'' u) = None)"

lemma fresh_ids_same: "look s' = look s \<Longrightarrow> fresh_ids W look cfg s' = fresh_ids W look cfg s"
  by (simp add: fresh_ids_def)

lemma drawn_is_fresh:
  assumes "fresh_ids W look cfg s" "result_of W uuid4 s x = Inr j"
  shows "vw_job (view_of cfg (look s)) j = None"
  using assms
  by (auto simp: fresh_ids_def uuid4_def bad_reply_def view_of_def split: reply.splits option.split)

section \<open>Handlers\<close>

lemma submit_untouched:
  assumes "submit_outcome dp body c t j v v' res" "vw_job v j = None"
  shows "others_untouched dp who v v'"
  using assms by (auto simp: submit_outcome_def others_untouched_def split: sum.splits if_splits)

lemma cancel_untouched:
  assumes "cancel_outcome v v' j r res" "vw_job v j = Some r" "permitted dp r c t"
  shows "others_untouched dp (Some (c, t)) v v'"
proof -
  have "i \<noteq> j" if "vw_job v i = Some q" "\<not> permitted dp q c t" for i q
    using assms(2,3) that by auto
  with assms show ?thesis
    by (auto simp: cancel_outcome_def others_untouched_def owns_job_def split: job_status.splits)
qed

lemma execute_untouched:
  assumes "execute_outcome dp body c t key v v' res"
  shows "others_untouched dp (Some (c, t)) v v'"
proof (cases "vw_idem v key")
  case new: None
  show ?thesis
  proof (cases res)
    case (Inl e)
    with new assms obtain now where "v' = (if finds_expired dp body c t v now
        then v\<lparr>vw_proposal := (vw_proposal v)(er_action_id body := None)\<rparr> else v)"
      by (auto simp: execute_outcome_def Let_def)
    then show ?thesis
      by (auto simp: others_untouched_def owns_action_def finds_expired_def split: option.splits)
  next
    case (Inr resp)
    with new assms show ?thesis
      by (auto simp: execute_outcome_def Let_def others_untouched_def owns_action_def executable_def)
  qed
qed (use assms in \<open>simp add: execute_outcome_def Let_def\<close>)

section \<open>A request\<close>

context platform
begin

lemmas run_dependencies = with_caller_def require_api_key_def get_user_token_def Let_def run_simps run_log
  set_consumer_id_def modify_ctx_def register_secret_def when_do_def run_register_secret

lemma run_without_caller:
  "caller_of dp hs = None \<Longrightarrow> look (state_after W (with_caller dp hs h) s x) = look s"
  by (auto simp: caller_of_def run_dependencies split: option.splits if_splits)

lemma run_with_caller:
  assumes "caller_of dp hs = Some (c, t)"
  obtains s1 x1 where "look s1 = look s" "state_after W (with_caller dp hs h) s x = state_after W (h c t) s1 x1"
proof (cases t)
  case None
  with assms show ?thesis
    by (intro that [of s "x\<lparr>cx_consumer_id := Some c\<rparr>"])
      (auto simp: caller_of_def run_dependencies split: option.splits if_splits)
next
  case (Some u)
  with assms show ?thesis
    by (intro that [of "state_after W (register_secret (Some u)) s (x\<lparr>cx_consumer_id := Some c\<rparr>)"
          "x\<lparr>cx_consumer_id := Some c\<rparr>"])
      (auto simp: caller_of_def run_dependencies split: option.splits if_splits)
qed

text \<open>Behind the dependencies a handler only has to leave alone what its caller does not own.\<close>

lemma guarded_untouched:
  assumes "\<And>c t s1 x1. caller_of dp hs = Some (c, t) \<Longrightarrow> look s1 = look s \<Longrightarrow>
      others_untouched dp (Some (c, t)) (view_of cfg (look s)) (view_of cfg (look (state_after W (h c t) s1 x1)))"
  shows "others_untouched dp (caller_of dp hs) (view_of cfg (look s))
    (view_of cfg (look (state_after W (with_caller dp hs h) s x)))"
proof (cases "caller_of dp hs")
  case None
  then show ?thesis by (simp add: run_without_caller)
next
  case (Some ct)
  then obtain c t where ct: "caller_of dp hs = Some (c, t)" by (cases ct) auto
  obtain s1 x1 where "look s1 = look s"
    "state_after W (with_caller dp hs h) s x = state_after W (h c t) s1 x1"
    using run_with_caller [OF ct] by blast
  with assms [OF ct] show ?thesis by (simp add: ct)
qed

lemma serve_look:
  obtains s1 x1 where "look s1 = look s"
    "look (state_after W (serve fw dp rq) s x) = look (state_after W (routed fw dp rq) s1 x1)"
proof -
  let ?app = "catch (routed fw dp rq) (handle_typed fw (ht_scope rq))"
  have app: "look (state_after W ?app s1 x1) = look (state_after W (routed fw dp rq) s1 x1)" for s1 x1
    by (auto simp: run_catch handle_typed_def run_error_answer split: sum.split exn.split)
  have "\<exists>s1 x1. look s1 = look s \<and> look (state_after W (application fw dp rq) s x) = look (state_after W ?app s1 x1)"
    using run_middleware [of "ht_scope rq" s ?app x]
    by (cases "sc_type (ht_scope rq) = ''http''") (auto simp: application_def correlation_middleware_def)
  then obtain s1 x1 where "look s1 = look s" "look (state_after W (application fw dp rq) s x) = look (state_after W ?app s1 x1)"
    by blast
  moreover have "look (state_after W (serve fw dp rq) s x) = look (state_after W (application fw dp rq) s x)"
    by (simp add: serve_def run_catch run_unexpected split: sum.split)
  ultimately show ?thesis by (intro that) (simp_all only: app)
qed

end

lemma state_answer_with [simp]: "state_after W (answer_with n wrap p) s x = state_after W p s x"
  by (simp add: answer_with_def run_bind split: sum.split)

context execution
begin

abbreviation seen where
  "seen s \<equiv> view_of (dp_settings dp) (look s)"

lemma endpoint_untouched:
  assumes typed: "well_typed (dp_settings dp) P (look s)" and fresh: "fresh_ids W look (dp_settings dp) s"
  shows "others_untouched dp (caller_of dp hs) (seen s) (seen (state_after W (endpoint fw dp hs b rt) s x))"
proof (cases rt)
  case LiveCheck
  then show ?thesis by simp
next
  case HealthCheck
  have "look (state_after W (health dp hs) s x) = look s"
    by (rule look_unchanged, rule safe_mono [OF safe_health]) (auto elim: health_cmd.elims auth_cmd.elims)
  with HealthCheck show ?thesis by (simp add: run_bind split: sum.split prod.split)
next
  case Submit
  have "others_untouched dp (caller_of dp hs) (seen s) (seen (state_after W (submit_endpoint dp hs j) s x))" for j
    unfolding submit_endpoint_def
  proof (rule guarded_untouched)
    fix c t s1 x1
    assume same: "look s1 = look s"
    have "others_untouched dp (Some (c, t)) (seen s) (seen (state_after W (submit_research dp rb c t) s1 x1))" for rb
      using submit_outcomes [OF cfg_ok, of P s1 x1 rb c t, unfolded same, OF typed]
        drawn_is_fresh [OF fresh [folded fresh_ids_same [OF same]], unfolded same]
      by (blast intro: submit_untouched)
    then show "others_untouched dp (Some (c, t)) (seen s) (seen (state_after W
        (case Option.bind (as_dict j) validate_research_request of
           None \<Rightarrow> Raise RequestValidationError | Some rb \<Rightarrow> submit_research dp rb c t) s1 x1))"
      by (simp add: same split: option.split)
  qed
  with Submit show ?thesis by (simp add: with_body_def split: option.split)
next
  case (Poll j)
  have "others_untouched dp (caller_of dp hs) (seen s) (seen (state_after W (poll_endpoint dp hs j) s x))"
    unfolding poll_endpoint_def using typed by (intro guarded_untouched) (simp add: run_poll_research)
  with Poll show ?thesis by simp
next
  case (Cancel j)
  have "others_untouched dp (caller_of dp hs) (seen s) (seen (state_after W (cancel_endpoint dp hs j) s x))"
    unfolding cancel_endpoint_def
  proof (rule guarded_untouched)
    fix c t s1 x1
    assume same: "look s1 = look s"
    note run = run_cancel_research [OF cfg_ok, of P s1 j, unfolded same, OF typed]
    show "others_untouched dp (Some (c, t)) (seen s) (seen (state_after W (cancel_research dp j c t) s1 x1))"
    proof (cases "\<exists>r. vw_job (seen s) j = Some r \<and> permitted dp r c t")
      case True
      then show ?thesis using run(1) cancel_untouched by blast
    next
      case False
      then show ?thesis using run(2) by simp
    qed
  qed
  with Cancel show ?thesis by simp
next
  case Execute
  have "others_untouched dp (caller_of dp hs) (seen s) (seen (state_after W (execute_endpoint pd dp hs j) s x))" for pd j
    unfolding execute_endpoint_def
  proof (rule guarded_untouched)
    fix c t s1 x1
    assume same: "look s1 = look s"
    have "others_untouched dp (Some (c, t)) (seen s) (seen (state_after W (execute_action dp rb c t key) s1 x1))" for rb key
      using execute_action_outcome [of P s1 rb c t key x1] typed by (auto simp: same intro: execute_untouched)
    then show "others_untouched dp (Some (c, t)) (seen s) (seen (state_after W
        (case (request_header ''Idempotency-Key'' hs, Option.bind (as_dict j) (validate_execute_request pd)) of
           (Some key, Some rb) \<Rightarrow> execute_action dp rb c t key | _ \<Rightarrow> Raise RequestValidationError) s1 x1))"
      by (simp add: same split: option.split)
  qed
  with Execute show ?thesis by (simp add: with_body_def split: option.split)
next
  case (GetAction a)
  have "others_untouched dp (caller_of dp hs) (seen s) (seen (state_after W (get_action_endpoint dp hs a) s x))"
    unfolding get_action_endpoint_def using typed by (intro guarded_untouched) (simp add: run_get_action)
  with GetAction show ?thesis by simp
next
  case (RejectAction a)
  have "others_untouched dp (caller_of dp hs) (seen s) (seen (state_after W (reject_action_endpoint dp hs a) s x))"
    unfolding reject_action_endpoint_def
  proof (rule guarded_untouched)
    fix c t s1 x1
    assume same: "look s1 = look s"
    note run = run_reject_action [of P s1 a, unfolded same, OF typed]
    show "others_untouched dp (Some (c, t)) (seen s) (seen (state_after W (reject_action dp a c t) s1 x1))"
    proof (cases "\<exists>p. vw_proposal (seen s) a = Some p \<and> permitted_action dp p c t")
      case True
      then obtain p where "vw_proposal (seen s) a = Some p" "permitted_action dp p c t" by blast
      with run(1) [OF this, of x1] show ?thesis
        by (auto simp: others_untouched_def owns_action_def view_of_update)
    next
      case False
      then show ?thesis using run(2) by simp
    qed
  qed
  with RejectAction show ?thesis by simp
qed

end

section \<open>Property\<close>

text \<open>
  C5: no request touches what belongs to others. Whatever its route, headers and body, whatever the
  target system, the vault and the queue answer, a request leaves every job of another principal (or
  consumer, where there is no user) as it was, with its staged token and its cancellation flag, and every
  proposal that its caller may not execute; no request at all changes a result or an idempotency record that
  is there. A request without a valid key owns nothing. The ids that \<^verbatim>\<open>uuid4\<close> draws are fresh.
\<close>

theorem others_keep_their_data:
  assumes "execution W look ad mut dp" "well_typed (dp_settings dp) P (look s)"
    and "fresh_ids W look (dp_settings dp) s"
  shows "others_untouched dp (caller_of dp (sc_headers (ht_scope rq))) (view_of (dp_settings dp) (look s))
           (view_of (dp_settings dp) (look (state_after W (serve fw dp rq) s x)))"
proof -
  obtain s1 x1 where same: "look s1 = look s"
    and eq: "look (state_after W (serve fw dp rq) s x) = look (state_after W (routed fw dp rq) s1 x1)"
    using platform.serve_look [OF execution.axioms(1) [OF assms(1)]] by blast
  show ?thesis
  proof (cases "route_of (ht_scope rq)")
    case None
    then show ?thesis by (simp add: eq routed_def same split: prod.split)
  next
    case (Some rt)
    then show ?thesis
      using execution.endpoint_untouched [OF assms(1), of P s1 "sc_headers (ht_scope rq)" fw "ht_json rq" rt x1] assms(2,3)
      by (simp add: eq routed_def same fresh_ids_same [OF same])
  qed
qed

text \<open>A caller with a valid key and a token of his own tries to cancel a job that is not his.\<close>

definition meddling :: http_request where
  "meddling =
     \<lparr>ht_scope = \<lparr>sc_type = ''http'', sc_method = ''DELETE'', sc_path = ''/research/j1'',
        sc_headers = [(''X-Api-Key'', ''k1''), (''X-User-Token'', ''not-my-pat'')]\<rparr>, ht_json = None\<rparr>"

lemma keyed_execution:
  "execution mem_world mem_keys (jira_adapter ''https://jira'') jira_mutates keyed_deps"
  by (intro execution.intro platform_mem jira_domain execution_axioms.intro)
    (simp_all add: keyed_deps_def demo_deps_def settings_ok_def default_settings_def)

lemma keyed_view:
  "key_of (dp_settings keyed_deps) = key_of default_settings"
  "view_of (dp_settings keyed_deps) ks = view_of default_settings ks"
  "well_typed (dp_settings keyed_deps) P ks = well_typed default_settings P ks"
proof -
  show key: "key_of (dp_settings keyed_deps) = key_of default_settings"
    by (simp add: fun_eq_iff key_of_def keyed_deps_def)
  show "view_of (dp_settings keyed_deps) ks = view_of default_settings ks"
    "well_typed (dp_settings keyed_deps) P ks = well_typed default_settings P ks"
    by (simp_all add: view_of_def well_typed_def key)
qed

lemma demo_store_fresh: "fresh_ids mem_world mem_keys (dp_settings keyed_deps) demo_store"
  by (auto simp: fresh_ids_def keyed_view demo_store_def mem_empty_def)

theorem others_keep_their_data_witness:
  "vw_job (view_of default_settings (mem_keys (state_after mem_world
     (serve demo_framework keyed_deps meddling) demo_store empty_ctx))) ''j1'' = Some demo_job"
proof -
  have "\<not> owns_job keyed_deps who demo_job" for who
    by (auto simp: owns_job_def permitted_def presented_hash_def demo_job_def keyed_deps_def demo_deps_def
        split: option.split prod.split)
  then show ?thesis
    using others_keep_their_data [OF keyed_execution _ demo_store_fresh, of "\<lambda>_. True" meddling demo_framework empty_ctx]
      demo_store_typed demo_store_job
    by (auto simp: keyed_view others_untouched_def)
qed

end
