(* ===== verification/Job_Isolation.thy ===== *)
theory Job_Isolation
  imports Isolation Job_Attempt
begin

text \<open>
  What an attempt of a job can write. Some of its writes depend on what it read before (a transition
  writes the record back under the id in it), so the argument follows the replies that the store gives.
\<close>

section \<open>Programs that stay within an invariant\<close>

text \<open>
  \<open>stays W I R p\<close>: as long as the states it meets satisfy \<open>I\<close>, \<open>p\<close> goes to states that do, and what it
  returns satisfies \<open>R\<close>. The replies are those of the world \<open>W\<close>.
\<close>

primrec stays :: "'s world \<Rightarrow> ('s \<Rightarrow> bool) \<Rightarrow> ('a \<Rightarrow> bool) \<Rightarrow> 'a prog \<Rightarrow> bool" where
  "stays W I R (Ret a) = R a"
| "stays W I R (Raise e) = True"
| "stays W I R (Op c k) = (\<forall>s. I s \<longrightarrow> I (fst (W s c)) \<and> stays W I R (k (snd (W s c))))"
| "stays W I R (GetCtx k) = (\<forall>x. stays W I R (k x))"
| "stays W I R (SetCtx y p) = stays W I R p"

lemma stays_bind:
  "stays W I R p \<Longrightarrow> (\<And>a. R a \<Longrightarrow> stays W I S (f a)) \<Longrightarrow> stays W I S (bind p f)"
  by (induction p) auto

lemma stays_then:
  "stays W I (\<lambda>_. True) p \<Longrightarrow> (\<And>a. stays W I S (f a)) \<Longrightarrow> stays W I S (bind p f)"
  by (rule stays_bind)

lemma stays_catch: "stays W I R p \<Longrightarrow> (\<And>e. stays W I R (h e)) \<Longrightarrow> stays W I R (catch p h)"
  by (induction p) auto

lemma stays_interrupt: "stays W I R p \<Longrightarrow> stays W I R (interrupt p n)"
  by (induction p arbitrary: n) auto

lemma stays_mono: "stays W I R p \<Longrightarrow> (\<And>a. R a \<Longrightarrow> S a) \<Longrightarrow> stays W I S p"
  by (induction p) auto

lemma stays_lift: "(\<And>a. r = Inr a \<Longrightarrow> R a) \<Longrightarrow> stays W I R (lift_result r)"
  by (cases r) (auto simp: lift_result_def)

lemma stays_when_do: "stays W I (\<lambda>_. True) p \<Longrightarrow> stays W I (\<lambda>_. True) (when_do b p)"
  by (simp add: when_do_def)

lemma stays_finally: "stays W I (\<lambda>_. True) p \<Longrightarrow> stays W I (\<lambda>_. True) f \<Longrightarrow> stays W I (\<lambda>_. True) (finally_do p f)"
  unfolding finally_do_def
  by (auto intro!: stays_then stays_catch split: sum.split)

lemma stays_state: "stays W I R p \<Longrightarrow> I s \<Longrightarrow> I (state_after W p s x)"
  by (induction p arbitrary: s x) auto

lemma stays_safe:
  "safe Q E R p \<Longrightarrow> (\<And>s c. I s \<Longrightarrow> Q c \<Longrightarrow> I (fst (W s c))) \<Longrightarrow> stays W I R p"
  by (induction p) auto

section \<open>An attempt\<close>

definition same_owner :: "job_record \<Rightarrow> job_record \<Rightarrow> bool" where
  "same_owner r r' \<longleftrightarrow>
     job_id r' = job_id r \<and> job_session_id r' = job_session_id r \<and> job_consumer_id r' = job_consumer_id r \<and>
     job_principal_hash r' = job_principal_hash r"

definition staged_by :: "job_record \<Rightarrow> stored_proposal \<Rightarrow> bool" where
  "staged_by r p \<longleftrightarrow>
     sp_job_id p = job_id r \<and> sp_session_id p = job_session_id r \<and> sp_consumer_id p = job_consumer_id r \<and>
     sp_principal_hash p = job_principal_hash r"

text \<open>The keys of a job, and what a run may have done to all the others.\<close>

definition job_keys :: "settings \<Rightarrow> string \<Rightarrow> string set" where
  "job_keys cfg j = (\<lambda>k. key_of cfg k j) ` {''job'', ''tok'', ''cancel'', ''result''}"

definition only_proposals_added :: "settings \<Rightarrow> job_record \<Rightarrow> key_space \<Rightarrow> key_space \<Rightarrow> bool" where
  "only_proposals_added cfg r ks ks' \<longleftrightarrow>
     (\<forall>k. k \<notin> job_keys cfg (job_id r) \<longrightarrow> ks' k = ks k \<or>
        ks k = None \<and> (\<exists>a p t. k = key_of cfg ''proposal'' a \<and> ks' k = Some (VProposal p, t) \<and> staged_by r p))"

definition fresh_actions :: "'s world \<Rightarrow> settings \<Rightarrow> key_space \<Rightarrow> bool" where
  "fresh_actions W cfg ks \<longleftrightarrow> (\<forall>s u. snd (W s NewUuid) = RStr u \<longrightarrow> ks (key_of cfg ''proposal'' u) = None)"

context job_attempt
begin

definition confined :: "job_record \<Rightarrow> key_space \<Rightarrow> 's \<Rightarrow> bool" where
  "confined r ks s \<longleftrightarrow>
     typed s \<and> (\<forall>r'. vw_job (store s) (job_id r) = Some r' \<longrightarrow> same_owner r r') \<and>
     only_proposals_added cfg r ks (look s)"

abbreviation st :: "job_record \<Rightarrow> key_space \<Rightarrow> ('a \<Rightarrow> bool) \<Rightarrow> 'a prog \<Rightarrow> bool" where
  "st r ks \<equiv> stays W (confined r ks)"

abbreviation any :: "'a \<Rightarrow> bool" where
  "any \<equiv> \<lambda>_. True"

lemma confined_look: "look s' = look s \<Longrightarrow> confined r ks s' = confined r ks s"
  unfolding confined_def by (erule ssubst) (rule refl)

lemma confined_reads: "\<not> writes c \<Longrightarrow> confined r ks (fst (W s c)) = confined r ks s"
  by (rule confined_look [OF look_other])

lemma stays_silent: "safe (\<lambda>c. \<not> writes c) E R p \<Longrightarrow> st r ks R p"
  by (erule stays_safe) (simp add: confined_reads)

lemma confined_own:
  assumes "confined r ks s" "k \<in> {''job'', ''tok'', ''cancel'', ''result''}"
    and "look s' = (look s)(key_of cfg k (job_id r) := v)" "typed s'"
    and "\<And>r'. k = ''job'' \<Longrightarrow> vw_job (store s') (job_id r) = Some r' \<Longrightarrow> same_owner r r'"
  shows "confined r ks s'"
proof -
  have "vw_job (store s') (job_id r) = vw_job (store s) (job_id r)" if "k \<noteq> ''job''"
    using assms(2,3) that by (auto simp: view_of_update)
  with assms show ?thesis
    by (auto simp: confined_def only_proposals_added_def job_keys_def)
qed

lemma confined_proposal:
  assumes "confined r ks s" "ks (key_of cfg ''proposal'' a) = None" "staged_by r p"
    and "look s' = (look s)(key_of cfg ''proposal'' a \<mapsto> (VProposal p, t))" "typed s'"
  shows "confined r ks s'"
  using assms by (auto simp: confined_def only_proposals_added_def view_of_update)

text \<open>The operations of the store on the job itself.\<close>

lemma stays_get_job: "st r ks (\<lambda>f. \<forall>r'. f = Some r' \<longrightarrow> same_owner r r') (get_job cfg (job_id r))"
proof -
  have "same_owner r r'"
    if "confined r ks s" "snd (W s (RGet (key_of cfg ''job'' (job_id r)))) = RVal (VJob r')" for s r'
    using that by (auto simp: get_reply confined_def view_of_def split: option.splits)
  then show ?thesis
    by (auto simp: get_job_def redis_get_def confined_reads bad_reply_def
        split: reply.splits rval.splits list.splits option.splits)
qed

lemma stays_save_job:
  assumes "same_owner r r'"
  shows "st r ks any (save_job cfg r')"
proof -
  have id: "job_id r' = job_id r" using assms by (simp add: same_owner_def)
  have "confined r ks (fst (W s (RSetKeepTtl (key_of cfg ''job'' (job_id r)) (VJob r'))))" if "confined r ks s" for s
    by (rule confined_own [OF that _ look_set_keepttl])
      (use that assms id in \<open>auto simp: look_set_keepttl confined_def view_of_update intro!: well_typed_upd\<close>)
  then show ?thesis by (auto simp: save_job_def redis_set_keepttl_def id split: reply.split)
qed

lemma stays_del:
  "k \<in> {''tok'', ''cancel''} \<Longrightarrow> st r ks any (redis_del (key_of cfg k (job_id r)))"
proof -
  assume k: "k \<in> {''tok'', ''cancel''}"
  have "confined r ks (fst (W s (RDel (key_of cfg k (job_id r)))))" if "confined r ks s" for s
    by (rule confined_own [OF that _ look_del, of k])
      (use that k in \<open>auto simp: look_del confined_def intro!: well_typed_del\<close>)
  then show ?thesis by (auto simp: redis_del_def bad_reply_def split: reply.split)
qed

lemma stays_put:
  assumes "0 < t" "fits (executable_proposal (wk_adapter dp)) k i v"
    and "k = ''result'' \<and> i = job_id r \<or>
         k = ''proposal'' \<and> ks (key_of cfg k i) = None \<and> (\<exists>p. v = VProposal p \<and> staged_by r p)"
  shows "st r ks any (redis_set_ex (key_of cfg k i) v t)"
proof -
  have "confined r ks (fst (W s (RSetEx (key_of cfg k i) v t)))" if c: "confined r ks s" for s
  proof -
    have typed: "typed (fst (W s (RSetEx (key_of cfg k i) v t)))"
      using assms c by (auto simp: look_set_ex [OF assms(1)] confined_def intro!: well_typed_upd)
    from assms(3) show ?thesis
    proof (elim disjE conjE exE)
      assume k: "k = ''result''" "i = job_id r"
      show ?thesis
        by (rule confined_own [OF c _ _ typed, of k]) (simp_all add: k look_set_ex [OF assms(1)])
    next
      fix p
      assume k: "k = ''proposal''" "ks (key_of cfg k i) = None" "v = VProposal p" "staged_by r p"
      show ?thesis
        by (rule confined_proposal [OF c _ k(4) _ typed]) (use k in \<open>simp_all add: look_set_ex [OF assms(1)]\<close>)
    qed
  qed
  then show ?thesis by (auto simp: redis_set_ex_def split: reply.split)
qed

lemma stays_quiet:
  "st r ks any (log_event l e msg f)" "st r ks any (emit_log l e msg f)" "st r ks any utcnow"
  "st r ks any perf_counter" "st r ks any (register_secret v)" "st r ks any (load_token c i)"
  "st r ks any (is_cancel_requested c i)" "st r ks any (parse_agent_output answer)"
  by (auto simp: log_event_def call_defs register_secret_def when_do_def load_token_def
        is_cancel_requested_def parse_agent_output_def confined_reads
      intro!: stays_then split: reply.split option.split rval.split sum.split)

lemma stays_vault: "st r ks any (vault_decrypt c v b)"
  by (rule stays_silent, rule safe_mono [OF safe_vault_decrypt]) (auto elim: vault_cmd.elims)

lemma stays_uuid:
  assumes "fresh_actions W cfg ks"
  shows "st r ks (\<lambda>u. ks (key_of cfg ''proposal'' u) = None) uuid4"
  using assms by (auto simp: uuid4_def bad_reply_def fresh_actions_def confined_reads split: reply.splits)

lemma same_owner_update [simp]:
  "same_owner r (r'\<lparr>job_status := t, job_attempt := n, job_error := e\<rparr>) = same_owner r r'"
  "same_owner r (r'\<lparr>job_started_at := z\<rparr>) = same_owner r r'"
  "same_owner r (r'\<lparr>job_finished_at := z\<rparr>) = same_owner r r'"
  "same_owner r (r'\<lparr>job_progress := g\<rparr>) = same_owner r r'"
  by (simp_all add: same_owner_def)

lemma stays_stamped:
  assumes "same_owner r r'" "\<And>now. same_owner r (f now)"
  shows "st r ks (same_owner r) (if b then bind utcnow (\<lambda>now. Ret (f now)) else Ret r')"
  using assms by (auto intro!: stays_then [OF stays_quiet(3)])

lemma stays_ends:
  "st r ks any (bind (purge_token cfg (job_id r)) (\<lambda>_.
     bind (redis_del (key_of cfg ''cancel'' (job_id r))) (\<lambda>_. Ret ())))"
  unfolding purge_token_def token_key_def
  by (intro stays_then stays_del stays_when_do stays_quiet) auto

lemma stays_transition: "st r ks (same_owner r) (transition cfg (job_id r) t a e)"
  unfolding transition_def Let_def
proof (rule stays_bind [OF stays_get_job], goal_cases)
  case (1 found)
  show ?case
  proof (cases found)
    case (Some r')
    have "same_owner r r'" using 1 Some by simp
    then show ?thesis
      unfolding Some option.case
      apply (subst if_split)
      apply (intro conjI impI stays.simps(2) [THEN iffD2] TrueI)
      apply (rule stays_bind [OF stays_stamped], simp, simp)
      apply (rule stays_bind [OF stays_stamped], simp, simp)
      apply (rule stays_then [OF stays_save_job], assumption)
      apply (rule stays_then [OF stays_when_do [OF stays_ends]])
      apply (rule stays_then [OF stays_quiet(1)])
      apply simp
      done
  qed simp
qed

lemma stays_set_progress: "st r ks any (set_progress cfg (job_id r) lt n)"
  unfolding set_progress_def
  by (rule stays_bind [OF stays_get_job]) (auto intro!: stays_save_job split: option.split)

text \<open>The research: credentials, agent, tools, proposals and result.\<close>

lemma stays_credentials: "st r ks any (resolve_job_credentials dp record)"
  by (auto simp: resolve_job_credentials_def intro!: stays_then stays_quiet stays_vault stays_lift split: option.split)

lemma stays_tool:
  "map fst tools = ad_read_tools (wk_adapter dp) cr \<Longrightarrow> st r ks any (call_tool tools name arg limit)"
  by (rule stays_silent [OF safe_mono [OF safe_call_tool]])
    (auto simp: reading_def elim: adapter_cmd.elims)

lemma stays_stream_loop:
  assumes "map fst tools = ad_read_tools (wk_adapter dp) cr"
  shows "st r ks any (stream_loop n dp (job_id r) tools run steps final)"
proof (induction n arbitrary: run steps final)
  case (Suc n)
  have "st r ks any (agent_step dp (job_id r) state k)" for state k
    unfolding agent_step_def by (intro stays_then stays_set_progress stays_quiet stays_lift stays_when_do TrueI)
  then show ?case
    using Suc by (auto intro!: stays_then stays_quiet stays_tool [OF assms] split: agent_run.split)
qed simp

lemma stays_stream_agent:
  "map fst (ag_tools ag) = ad_read_tools (wk_adapter dp) cr \<Longrightarrow>
   st r ks any (stream_agent dp dl (job_id r) ag record)"
  unfolding stream_agent_def by (intro stays_interrupt stays_then stays_stream_loop stays_lift TrueI)

lemma stays_stage:
  assumes "same_owner r record" "ks (key_of cfg ''proposal'' (pa_action_id a)) = None"
    and "executable_proposal (wk_adapter dp) a"
  shows "st r ks any (stage_proposal dp record a)"
  unfolding stage_proposal_def save_proposal_def
  by (intro stays_then stays_quiet stays_put) (use assms settings_valid in \<open>auto simp: same_owner_def staged_by_def\<close>)

lemma stays_persist_loop:
  assumes "fresh_actions W cfg ks" "same_owner r record" "list_all (executable_proposal (wk_adapter dp)) acc"
  shows "st r ks (list_all (executable_proposal (wk_adapter dp))) (persist_loop dp record t cs acc)"
  using assms(3)
proof (induction cs arbitrary: acc)
  case (Cons c cs)
  show ?case
  proof (cases "validate_payload (wk_adapter dp) (ap_action_type c) (ap_payload c)")
    case (Inl e)
    with Cons show ?thesis by (auto intro!: stays_then stays_quiet)
  next
    case (Inr v)
    let ?p = "\<lambda>a. new_proposal dp record t a c"
    have ok: "executable_proposal (wk_adapter dp) (?p a)" for a
      using Inr by (simp add: executable_proposal_def new_proposal_def valid_payload_def)
    have stage: "st r ks any (stage_proposal dp record (?p a))" if "ks (key_of cfg ''proposal'' a) = None" for a
      by (rule stays_stage [OF assms(2) _ ok]) (simp add: that new_proposal_def)
    have next_ones: "st r ks (list_all (executable_proposal (wk_adapter dp)))
        (persist_loop dp record t cs (acc @ [?p a]))" for a
      by (rule Cons.IH) (simp add: Cons.prems ok)
    show ?thesis
      using Inr by (auto intro!: stays_bind [OF stays_uuid [OF assms(1)]] stays_then [OF stage] next_ones)
  qed
qed simp

lemma stays_persist_save:
  assumes "fresh_actions W cfg ks" "same_owner r record"
  shows "st r ks any (bind (persist_proposals dp record out) (\<lambda>ps. save_result cfg (job_id r) (result_doc out ps)))"
  unfolding persist_proposals_def bind_assoc
proof (rule stays_then [OF stays_quiet(3)], rule stays_bind [OF stays_persist_loop [OF assms]])
  fix ps
  assume "list_all (executable_proposal (wk_adapter dp)) ps"
  then show "st r ks any (save_result cfg (job_id r) (result_doc out ps))"
    unfolding save_result_def
    by (intro stays_put) (use settings_valid in \<open>auto simp: result_doc_def\<close>)
qed simp

lemma stays_research:
  assumes "fresh_actions W cfg ks" "same_owner r record"
  shows "st r ks any (research dp dl (job_id r) record)"
proof -
  have built: "st r ks any (bind (lift_result (build_agent dp cr)) f)"
    if "\<And>ag. map fst (ag_tools ag) = ad_read_tools (wk_adapter dp) cr \<Longrightarrow> st r ks any (f ag)" for cr f
    using that built_tools by (cases "build_agent dp cr") (auto simp: lift_result_def)
  show ?thesis
    unfolding research_def
    by (intro stays_then [OF stays_credentials] built stays_then [OF stays_stream_agent]
        stays_then [OF stays_quiet(8)] stays_persist_save assms)
qed

text \<open>The whole run.\<close>

lemma stays_completion: "st r ks any (completion dp (job_id r) started)"
  unfolding completion_def
  by (intro stays_bind [OF stays_transition] stays_then [OF stays_quiet(4)] stays_quiet)

lemma stays_ended: "st r ks any (bind (transition cfg (job_id r) t a e) (\<lambda>_. Ret ()))"
  by (rule stays_bind [OF stays_transition]) simp

lemma stays_attempt_failed: "st r ks any (attempt_failed dp (job_id r) record n e)"
  unfolding attempt_failed_def fail_job_def
  by (auto intro!: stays_then [OF stays_ended] stays_bind [OF stays_transition] stays_then [OF stays_quiet(1)]
      stays_quiet split: exn.split)

lemma stays_start_attempt:
  assumes "fresh_actions W cfg ks"
  shows "st r ks any (start_attempt dp dl (job_id r) n)"
  unfolding start_attempt_def attempt_split
  by (intro stays_bind [OF stays_transition] stays_then [OF stays_quiet(4)] stays_then [OF stays_quiet(1)]
      stays_catch stays_then [OF stays_research [OF assms]] stays_completion stays_attempt_failed)

lemma stays_run_job:
  assumes "fresh_actions W cfg ks"
  shows "st r ks any (run_research_job dp dl (job_id r) n)"
proof -
  have body: "st r ks any (bound_context b p)" if "st r ks any p" for b and p :: "unit prog"
    unfolding bound_context_def using that by (auto simp: modify_ctx_def intro!: stays_finally)
  show ?thesis
    unfolding run_research_job_def
    by (rule stays_bind [OF stays_get_job])
      (auto intro!: body stays_quiet stays_then [OF stays_quiet(7)] stays_ended stays_start_attempt [OF assms]
        split: option.split)
qed

lemma run_job_confined:
  assumes "typed s" "vw_job (store s) j = Some r" "fresh_actions W cfg (look s)"
  shows "only_proposals_added cfg r (look s) (look (state_after W (run_research_job dp dl j n) s x))"
proof -
  have id: "job_id r = j"
    using assms(2) typed_value [OF assms(1), of "''job''" j] by (auto simp: view_of_def split: option.splits rval.splits)
  have "confined r (look s) s"
    using assms id by (auto simp: confined_def same_owner_def only_proposals_added_def)
  with stays_run_job [OF assms(3), of r dl n] have "confined r (look s) (state_after W (run_research_job dp dl j n) s x)"
    unfolding id by (rule stays_state)
  then show ?thesis by (simp add: confined_def)
qed

end

section \<open>The property\<close>

text \<open>
  C20: a job keeps to its own. Whatever the agent and its tools do, and however the attempt ends, an
  attempt of a job writes no key of the store but the job's record, staged token, cancellation flag and
  result, and adds nothing else than new proposals that are bound to this job and to the session, the
  consumer and the principal that submitted it.
\<close>

theorem job_keeps_to_its_own:
  assumes "job_attempt W look dp mut"
    and "well_typed (wk_settings dp) (executable_proposal (wk_adapter dp)) (look s)"
    and "vw_job (view_of (wk_settings dp) (look s)) j = Some r"
    and "fresh_actions W (wk_settings dp) (look s)"
  shows "only_proposals_added (wk_settings dp) r (look s)
           (look (state_after W (run_research_job dp dl j n) s x))"
  using assms by (rule job_attempt.run_job_confined)

theorem job_keeps_to_its_own_witness:
  "only_proposals_added default_settings demo_job (mem_keys demo_store)
     (mem_keys (state_after mem_world
       (run_research_job demo_worker \<lparr>dl_events = 9, dl_calls = 99\<rparr> ''j1'' 2) demo_store empty_ctx))"
proof -
  have actions: "fresh_actions mem_world (wk_settings demo_worker) (mem_keys demo_store)"
    by (auto simp: fresh_actions_def demo_store_def)
  from demo_store_typed demo_store_job
  show ?thesis
    using job_keeps_to_its_own [OF demo_attempt.job_attempt_axioms _ _ actions, of "''j1''" demo_job
        "\<lparr>dl_events = 9, dl_calls = 99\<rparr>" 2 empty_ctx] by simp
qed

end
