(* ===== verification/Spec2Isabelle.thy ===== *)
theory Spec2Isabelle
  imports Approval Execute_Race Log_Flow Lifecycle Persistence Tracing Scaffold Job_Isolation
begin

text \<open>
  A verification library for the domain deep-agent service: a FastAPI process that accepts research
  tasks, a worker that runs a language-model agent for each of them and stages the mutations it
  proposes, and an endpoint that executes one proposal after a human has approved it. Python files are
  named relative to \<^verbatim>\<open>src/\<close>.

  \<^bold>\<open>The program.\<close> A consumer posts a task to \<^verbatim>\<open>POST /research\<close> with its API key and, for a domain that
  acts as the end user, that user's token. The API encrypts the token, stores a job record and enqueues
  the job. The worker decrypts the token, hands the adapter's read tools to the agent and, from its
  final message, stores findings and one proposal per valid candidate. The consumer polls, shows a
  proposal to a human, and posts the approved payload to \<^verbatim>\<open>POST /execute\<close> with an idempotency key. Both
  processes meet only in Redis; the target system is reached only through the adapter. What the
  service promises: research never mutates; nothing is executed that was not proposed to the same
  principal, approved with the same payload and still valid on the live state; a token is never stored
  in the clear and is gone once its job is over; every request gets an answer in one envelope.

  \<^bold>\<open>How it is modelled.\<close> A handler is a program (\<^verbatim>\<open>prog\<close> of \<^verbatim>\<open>Effects\<close>): a tree of the calls that leave
  the Python process (a Redis command, the clock, a fresh UUID, an HTTP request, a Key Vault or arq
  call, a log line) or touch a context variable, with a returned value or a raised exception at its
  leaves. \<^verbatim>\<open>bind\<close>, \<^verbatim>\<open>catch\<close> and \<^verbatim>\<open>finally_do\<close> are Python's sequence, \<open>try/except\<close> and \<open>try/finally\<close>. What
  answers the calls is a \<^emph>\<open>world\<close>: any function from a state and a command to the next state and a
  reply, which may be an exception. Theorems hold for every world, or for those that satisfy a named
  locale; \<^verbatim>\<open>mem_world\<close> of \<^verbatim>\<open>World\<close>, an in-memory server with a scripted target system, interprets the
  locales and runs the witnesses. Pure Python functions are HOL functions; records, enums and
  exceptions are records and datatypes with the source's names.

  \<^bold>\<open>Theories, from the bottom.\<close>
  \<^item> \<^verbatim>\<open>Prelude\<close>, \<^verbatim>\<open>Encoding\<close>, \<^verbatim>\<open>Json\<close>, \<^verbatim>\<open>Json_Parse\<close>: what the code uses of the standard library: string
    operations, decimal printing, UTF-8, base64, SHA-256 on 32-bit words, JSON values with Python's
    truth and equality, \<open>json.dumps\<close> and \<open>json.loads\<close> with their round trip.
  \<^item> \<^verbatim>\<open>Schemas\<close>: \<^verbatim>\<open>app/models/schemas.py\<close>, \<^verbatim>\<open>app/errors.py\<close>, \<^verbatim>\<open>app/config.py\<close>.
  \<^item> \<^verbatim>\<open>Effects\<close>, \<^verbatim>\<open>World\<close>, \<^verbatim>\<open>Ctx_Logic\<close>, \<^verbatim>\<open>Interrupt\<close>: programs, environments and their logics.
    \<open>safe\<close> bounds the commands a program can issue and what it can return or raise in any environment,
    \<open>at_most\<close> counts commands, \<open>yields\<close> speaks about context variables, \<open>interrupt\<close> cuts a program off
    as \<open>asyncio.timeout\<close> does. \<open>service_run\<close> gives the reachable states of any number of programs interleaved call by
    call, with crashes and expiring keys; \<open>schedule\<close> runs one interleaving.
  \<^item> \<^verbatim>\<open>Correlation\<close>, \<^verbatim>\<open>Logging\<close>: \<^verbatim>\<open>app/observability/\<close>: context variables, the ASGI middleware, redaction of
    log lines, the log record and its reserved names.
  \<^item> \<^verbatim>\<open>Redis_Store\<close>, \<^verbatim>\<open>Token_Vault\<close>, \<^verbatim>\<open>Job_Queue\<close>: \<^verbatim>\<open>app/state/\<close>. The store's operations over Redis
    commands and its refinement to a map of typed records (\<open>view\<close>); the job state machine; the three
    vaults; the queue.
  \<^item> \<^verbatim>\<open>Adapter_Base\<close>, \<^verbatim>\<open>Jira_Adapter\<close>, \<^verbatim>\<open>Websearch_Adapter\<close>, \<^verbatim>\<open>Adapter_Registry\<close>: \<^verbatim>\<open>app/adapters/\<close>.
  \<^item> \<^verbatim>\<open>Auth\<close>, \<^verbatim>\<open>Research_Api\<close>, \<^verbatim>\<open>Execute_Api\<close>, \<^verbatim>\<open>Health_Api\<close>: \<^verbatim>\<open>app/auth/\<close> and \<^verbatim>\<open>app/api/\<close>.
  \<^item> \<^verbatim>\<open>Runner_Parse\<close>, \<^verbatim>\<open>Agent_Factory\<close>, \<^verbatim>\<open>Read_Cap\<close>, \<^verbatim>\<open>Runner\<close>, \<^verbatim>\<open>Job_Attempt\<close>, \<^verbatim>\<open>Worker_Main\<close>:
    \<^verbatim>\<open>app/agent/\<close>, \<^verbatim>\<open>app/llm/azure.py\<close> and \<^verbatim>\<open>app/worker/\<close>: the parse of the agent's answer, the prompt,
    the agent harness, the semaphore around the read tools, the run loop, arq's job function.
  \<^item> \<^verbatim>\<open>App_Main\<close>, \<^verbatim>\<open>Request_Path\<close>, \<^verbatim>\<open>Service\<close>, \<^verbatim>\<open>Execute_Race\<close>: \<^verbatim>\<open>app/main.py\<close> and the composition of
    everything: one request from the socket to its answer, and API and worker processes interleaved.
  \<^item> \<^verbatim>\<open>Approval\<close>, \<^verbatim>\<open>Log_Flow\<close>, \<^verbatim>\<open>Tracing\<close>: three stories that cross the components: from the proposal a job
    stages to its execution, a user's token on its way past the log, and the correlation id on its way to
    the target system.
  \<^item> \<^verbatim>\<open>Isolation\<close>, \<^verbatim>\<open>Job_Isolation\<close>: what one request and one attempt of a job leave alone.
  \<^item> \<^verbatim>\<open>Lifecycle\<close>: the logging configuration, the lifespan of the API, the shutdown of the worker and what
    they release. \<^verbatim>\<open>Persistence\<close>: the JSON documents under the Redis keys.
  \<^item> \<^verbatim>\<open>Scaffold\<close>: \<^verbatim>\<open>scripts/new_domain.py\<close>.

  \<^bold>\<open>Interfaces.\<close> \<^verbatim>\<open>redis_server\<close> (reads after writes, deletes and expiry) and \<^verbatim>\<open>platform\<close> (in addition clocks,
  UUIDs and the log answer) are interpreted by \<^verbatim>\<open>mem_world\<close>; \<^verbatim>\<open>domain_adapter\<close> (research and
  precondition checks never mutate, execution mutates at most once and only a valid payload) by the Jira
  and the web search adapter; \<^verbatim>\<open>token_vault\<close> is given by \<^verbatim>\<open>key_vault\<close> and \<^verbatim>\<open>aead\<close> through a sublocale,
  which the vaults of the code use; \<^verbatim>\<open>agent_builder\<close> (an agent is built with exactly the tools it is given) by
  both agent factories; \<^verbatim>\<open>correlating_adapter\<close> (every call carries the bound correlation id) by both adapters;
  \<^verbatim>\<open>worker\<close>, \<^verbatim>\<open>job_attempt\<close> and \<^verbatim>\<open>execution\<close> extend them for the run loop and
  for \<^verbatim>\<open>/execute\<close>, and are interpreted on a worker and an API with the Jira adapter.

  \<^bold>\<open>What the properties show.\<close>
  \<^item> Execution: a mutation is guarded by every check and is sent at most once per request; \<^verbatim>\<open>/execute\<close>,
    \<^verbatim>\<open>/actions\<close> and rejection are characterised on every branch with their effect on the store, a
    refusal by the first check that fails; an executed action is spent and its key replays.
  \<^item> State: every transition of a job follows the state machine and purges the staged token at the end;
    in every interleaving of requests and jobs the store holds only proposals that satisfy their schema,
    so what a job proposed its owner can have executed, and every key a value of the type its reader
    expects; the stored documents read back as written.
  \<^item> Submit, poll, cancel: a submit that fails leaves no queued job; a job is shown to its owner
    only, and no request touches the jobs, tokens, flags, results or proposals of others; the token round trip through each vault.
  \<^item> Worker: research never mutates; a job writes its own keys and new proposals of its owner and
    nothing else; an attempt settles its job whatever the agent does, and a job
    delivered as often as it asks for is terminal after its number of attempts; the valid candidates, and
    only those, are staged; the semaphore keeps its bound and drains; the parse reads what the contract
    of the prompt asks for.
  \<^item> Request path: authentication comes before any effect; every request is answered, with one
    correlation id or by the opaque error; every call of a job or an execution carries its id; no log line
    contains the user's token; health degrades.
  \<^item> Negative facts, each a theorem: a progress update can undo a terminal transition; concurrent
    executions under one key can mutate twice; a used key answers whoever presents it; the API process
    that owns its resources fails to start, because a log record may not have a field named
    \<open>message\<close>.

  \<^bold>\<open>Bounds and fuel.\<close> The JSON parser recurses on fuel, the length of its text, and \<open>loads_dumps\<close> shows it
  suffices for printed values. The read backoff makes at most four requests, as the code's loop. The
  deadline of a job is two numbers, of agent events and of calls (\<open>dl_events\<close>, \<open>dl_calls\<close>), and theorems hold
  for all of them; the agent itself is a codatatype and may be endless. Schedules are lists of process
  numbers. SHA-256 runs on words of 32 bits.

  \<^bold>\<open>Not modelled.\<close> FastAPI's and Starlette's own reading and routing of requests beyond the paths of this
  service, and Pydantic's error lists (the parameter \<^verbatim>\<open>framework\<close>); AES-GCM (the parameter \<^verbatim>\<open>crypto\<close>) and Key
  Vault, arq, httpx and Redis (the world); deepagents, LangChain and the model behind them (the parameter
  \<^verbatim>\<open>harness\<close>); the calls that close a client (the parameter \<^verbatim>\<open>closers\<close>); reading settings from the environment;
  \<open>scan_keys\<close>, a hook of the tests; the timing of \<open>hmac.compare_digest\<close>; \<^verbatim>\<open>tests/\<close> and \<^verbatim>\<open>docs/\<close>. Under a
  Redis key lies the typed record in place of its JSON text (\<^verbatim>\<open>Persistence\<close> shows that nothing is lost), and
  the readers of the documents take the shapes the service writes, where Pydantic also coerces others. Characters above 255 and the floats
  \<open>NaN\<close> and infinity are outside the model.
\<close>

end
